(* ===== verification/Prelude.thy ===== *)
theory Prelude
  imports Main "HOL-Library.Word"
begin

text \<open>
  What the components share: the result type in which every exception, panic and undefined
  access of the C++ code is a value; byte buffers and the big-endian integers written to and
  read from them; decimal rendering of numbers as \<^verbatim>\<open>fmt::format\<close> does for
  \<^verbatim>\<open>{}\<close>.

  Envoy's \<^verbatim>\<open>Buffer::Instance\<close> is represented by the sequence of bytes it holds.  The code
  uses \<^verbatim>\<open>length\<close>, \<^verbatim>\<open>add\<close> (append), \<^verbatim>\<open>peekBEInt\<close> (a big-endian read at an
  offset which throws on underflow), \<^verbatim>\<open>writeBEInt\<close> (append big-endian), \<^verbatim>\<open>drain(n)\<close>
  and \<^verbatim>\<open>move(src, n)\<close> (remove, or transfer, the first n bytes, or all of them when fewer
  are there); these are list operations here.
\<close>

section \<open>Automation\<close>

named_theorems codec_defs \<open>definitions unfolded when a codec is evaluated\<close>
named_theorems res_split \<open>elimination of successful results\<close>

section \<open>Machine types\<close>

type_synonym byte = "8 word"
type_synonym buffer = "byte list"
type_synonym u16 = "16 word"
type_synonym u32 = "32 word"
type_synonym u64 = "64 word"

text \<open>Bounds of the unsigned values, and widening conversions keep them.\<close>

lemma unat_bound16: "unat (w :: u16) < 65536"
  using unsigned_less [of w, where 'a = nat] by simp

lemma unat_bound32: "unat (w :: u32) < 4294967296"
  using unsigned_less [of w, where 'a = nat] by simp

lemma unat_ucast_up16 [simp]: "unat (ucast (w :: u16) :: u32) = unat w"
  using unat_bound16 [of w] by (simp add: unsigned_ucast_eq take_bit_nat_eq_self)

lemma unat_ucast_up32 [simp]: "unat (ucast (w :: u32) :: u64) = unat w"
  using unat_bound32 [of w] by (simp add: unsigned_ucast_eq take_bit_nat_eq_self)

section \<open>Results\<close>

text \<open>
  \<^verbatim>\<open>EnvoyException\<close> carries its message, as does its subclass
  \<^verbatim>\<open>DownstreamConnectionCloseException\<close>; \<^verbatim>\<open>Panic\<close> is the \<^verbatim>\<open>PANIC\<close> macro,
  which aborts the process in every build; \<^verbatim>\<open>BadAnyCast\<close> is \<^verbatim>\<open>std::bad_any_cast\<close>;
  \<^verbatim>\<open>Undefined\<close> marks undefined behaviour (null dereference, use after free, access out
  of bounds).
\<close>

datatype exn =
    EnvoyException string
  | DownstreamConnectionClose string
  | Panic string
  | BadAnyCast
  | Undefined string

type_synonym 'a res = "exn + 'a"

definition bindr :: "'a res \<Rightarrow> ('a \<Rightarrow> 'b res) \<Rightarrow> 'b res" where
  "bindr m f = (case m of Inl e \<Rightarrow> Inl e | Inr x \<Rightarrow> f x)"

lemma bindr_simps [simp, code]:
  "bindr (Inl e) f = Inl e"
  "bindr (Inr x) f = f x"
  by (simp_all add: bindr_def)

lemma bindr_eq_Inr [res_split]:
  "bindr m f = Inr y \<longleftrightarrow> (\<exists>x. m = Inr x \<and> f x = Inr y)"
  by (cases m) simp_all

lemma bindr_InrE:
  "bindr m f = Inr y \<Longrightarrow> (\<And>x. m = Inr x \<Longrightarrow> f x = Inr y \<Longrightarrow> P) \<Longrightarrow> P"
  by (auto simp: bindr_eq_Inr)

lemma bindr_eq_Inl:
  "bindr m f = Inl e \<longleftrightarrow> m = Inl e \<or> (\<exists>x. m = Inr x \<and> f x = Inl e)"
  by (cases m) simp_all

lemma bindr_assoc: "bindr (bindr m f) g = bindr m (\<lambda>x. bindr (f x) g)"
  by (cases m) simp_all

lemma bindr_cong [fundef_cong]:
  "m = m' \<Longrightarrow> (\<And>x. m' = Inr x \<Longrightarrow> f x = f' x) \<Longrightarrow> bindr m f = bindr m' f'"
  by (cases m') simp_all

text \<open>Stateful code: the state is returned also when an exception is thrown.\<close>

definition bindS :: "'a res \<times> 's \<Rightarrow> ('a \<Rightarrow> 's \<Rightarrow> 'b res \<times> 's) \<Rightarrow> 'b res \<times> 's" where
  "bindS m f = (case m of (Inl e, s) \<Rightarrow> (Inl e, s) | (Inr x, s) \<Rightarrow> f x s)"

lemma bindS_simps [simp, code]:
  "bindS (Inl e, s) f = (Inl e, s)"
  "bindS (Inr x, s) f = f x s"
  by (simp_all add: bindS_def)

lemma bindS_cases:
  assumes "bindS m f = (r, s')"
  obtains (throw) e where "m = (Inl e, s')" "r = Inl e"
    | (step) x s where "m = (Inr x, s)" "f x s = (r, s')"
  using assms by (cases m; cases "fst m") (auto simp: bindS_def)

lemma bindS_cong [fundef_cong]:
  "m = m' \<Longrightarrow> (\<And>x s. m' = (Inr x, s) \<Longrightarrow> f x s = f' x s) \<Longrightarrow> bindS m f = bindS m' f'"
  by (cases m'; cases "fst m'") (auto simp: bindS_def)

text \<open>What \<^verbatim>\<open>catch (const EnvoyException& ex)\<close> catches, and its message.\<close>

fun envoy_what :: "exn \<Rightarrow> string option" where
  "envoy_what (EnvoyException w) = Some w"
| "envoy_what (DownstreamConnectionClose w) = Some w"
| "envoy_what _ = None"

section \<open>Decimal rendering\<close>

definition digit_char :: "nat \<Rightarrow> char" where
  "digit_char d = char_of (48 + d)"

fun show_nat :: "nat \<Rightarrow> string" where
  "show_nat n = (if n < 10 then [digit_char n] else show_nat (n div 10) @ [digit_char (n mod 10)])"

declare show_nat.simps [simp del]

definition parse_digits :: "string \<Rightarrow> nat" where
  "parse_digits s = foldl (\<lambda>a c. 10 * a + (of_char c - 48)) 0 s"

lemma parse_show_nat: "parse_digits (show_nat n) = n"
proof (induction n rule: show_nat.induct)
  case (1 n)
  show ?case
  proof (cases "n < 10")
    case True
    then show ?thesis
      by (simp add: show_nat.simps parse_digits_def digit_char_def)
  next
    case False
    with 1 have "parse_digits (show_nat (n div 10)) = n div 10" by simp
    with False show ?thesis
      by (subst show_nat.simps) (simp add: parse_digits_def digit_char_def)
  qed
qed

lemma show_nat_inj: "show_nat m = show_nat n \<Longrightarrow> m = n"
  by (metis parse_show_nat)

lemma show_nat_nonempty [simp]: "show_nat n \<noteq> []"
  by (subst show_nat.simps) simp

definition show_int :: "int \<Rightarrow> string" where
  "show_int i = (if i < 0 then CHR ''-'' # show_nat (nat (- i)) else show_nat (nat i))"

section \<open>Big-endian integers\<close>

fun be_put :: "nat \<Rightarrow> nat \<Rightarrow> buffer" where
  "be_put 0 v = []"
| "be_put (Suc n) v = be_put n (v div 256) @ [word_of_nat (v mod 256)]"

lemma be_put_numeral [simp]:
  "be_put (numeral k) v = be_put (pred_numeral k) (v div 256) @ [word_of_nat (v mod 256)]"
  by (simp only: numeral_eq_Suc [of k] be_put.simps)

definition be_get :: "buffer \<Rightarrow> nat" where
  "be_get bs = foldl (\<lambda>a b. a * 256 + unat b) 0 bs"

lemma be_get_Nil [simp]: "be_get [] = 0"
  by (simp add: be_get_def)

lemma be_get_snoc [simp]: "be_get (bs @ [b]) = be_get bs * 256 + unat b"
  by (simp add: be_get_def)

lemma length_be_put [simp]: "length (be_put n v) = n"
  by (induction n arbitrary: v) simp_all

lemma byte_unat_lt [simp]: "unat (b :: byte) < 256"
  using unsigned_less [of b] by simp

lemma be_get_be_put: "be_get (be_put n v) = v mod 256 ^ n"
proof (induction n arbitrary: v)
  case (Suc n)
  have "unat (word_of_nat (v mod 256) :: byte) = v mod 256"
    by (simp add: unat_of_nat)
  with Suc show ?case
    by (simp add: mod_mult2_eq mult.commute)
qed simp

lemma be_put_be_get: "be_put (length bs) (be_get bs) = bs"
  by (induction bs rule: rev_induct) simp_all

lemma be_get_bound: "be_get bs < 256 ^ length bs"
proof (induction bs rule: rev_induct)
  case (snoc b bs)
  have "be_get bs * 256 + unat b < (be_get bs + 1) * 256"
    by (simp add: add.commute [of _ 256])
  also have "\<dots> \<le> 256 ^ length bs * 256"
    using snoc by simp
  finally show ?case by (simp add: mult.commute)
qed simp

text \<open>\<^verbatim>\<open>buffer.writeBEInt<T>(v)\<close> appends these bytes.\<close>

definition be_bytes :: "'a::len word \<Rightarrow> buffer" where
  "be_bytes w = be_put (LENGTH('a) div 8) (unat w)"

text \<open>\<^verbatim>\<open>buffer.peekBEInt<T>(pos)\<close>: throws when fewer than \<^verbatim>\<open>pos + sizeof(T)\<close>
  bytes are there.\<close>

definition peekBEInt :: "nat \<Rightarrow> buffer \<Rightarrow> ('a::len word) res" where
  "peekBEInt pos buf =
     (if length buf < pos + LENGTH('a) div 8 then Inl (EnvoyException ''buffer underflow'')
      else Inr (word_of_nat (be_get (take (LENGTH('a) div 8) (drop pos buf)))))"

lemma length_be_bytes [simp]: "length (be_bytes (w :: 'a::len word)) = LENGTH('a) div 8"
  by (simp add: be_bytes_def)

lemma be_bytes_byte [simp]: "be_bytes (b :: byte) = [b]"
  by (simp add: be_bytes_def)

lemma be_get_be_bytes:
  assumes "8 dvd LENGTH('a::len)"
  shows "be_get (be_bytes (w :: 'a word)) = unat w"
proof -
  from assms obtain k where k: "LENGTH('a) = 8 * k" by (rule dvdE)
  have "(256::nat) ^ k = 2 ^ LENGTH('a)"
    by (simp add: k power_mult)
  moreover have "unat w < 2 ^ LENGTH('a)" by (rule unsigned_less)
  ultimately show ?thesis
    by (simp add: be_bytes_def be_get_be_put k)
qed

lemma peekBEInt_be_bytes:
  assumes "8 dvd LENGTH('a::len)" "pos = length pre"
  shows "peekBEInt pos (pre @ be_bytes (w :: 'a word) @ post) = Inr w"
  using assms by (simp add: peekBEInt_def be_get_be_bytes)

lemma peekBEInt_at:
  assumes "8 dvd LENGTH('a::len)" "drop pos buf = be_bytes (w :: 'a word) @ post" "pos \<le> length buf"
  shows "peekBEInt pos buf = Inr w"
proof -
  have "length buf - pos = LENGTH('a) div 8 + length post"
    using arg_cong [OF assms(2), of length] by simp
  with assms show ?thesis by (simp add: peekBEInt_def be_get_be_bytes)
qed

lemma peekBEInt_append:
  "pos + LENGTH('a::len) div 8 \<le> length buf \<Longrightarrow>
     peekBEInt pos (buf @ ext) = (peekBEInt pos buf :: 'a word res)"
  by (simp add: peekBEInt_def)

lemma peekBEInt_ok:
  "pos + LENGTH('a::len) div 8 \<le> length buf \<Longrightarrow> \<exists>w :: 'a word. peekBEInt pos buf = Inr w"
  by (simp add: peekBEInt_def)

text \<open>
  \<^verbatim>\<open>buffer.copyOut(start, size, dst)\<close> copies a range of the buffer.  The interface of Envoy
  requires the range to be inside the buffer; what a copy from outside does is up to its implementation
  (an assertion in a debug build), so the model stops there and claims nothing of what follows.
\<close>

definition copyOut :: "nat \<Rightarrow> nat \<Rightarrow> buffer \<Rightarrow> buffer res" where
  "copyOut pos len buf =
     (if pos + len \<le> length buf then Inr (take len (drop pos buf))
      else Inl (Undefined ''copyOut''))"

lemma copyOut_append:
  "pos + len \<le> length buf \<Longrightarrow> copyOut pos len (buf @ ext) = copyOut pos len buf"
  by (simp add: copyOut_def)

text \<open>Nanoseconds as milliseconds, as \<^verbatim>\<open>duration_cast\<close> truncates them.\<close>

definition to_ms :: "int \<Rightarrow> int" where
  "to_ms ns = sgn ns * (\<bar>ns\<bar> div 1000000)"

text \<open>A byte string as characters, and back: \<^verbatim>\<open>std::string\<close> built from raw bytes.\<close>

definition chars_of_bytes :: "buffer \<Rightarrow> string" where
  "chars_of_bytes = map (\<lambda>b. char_of (unat b))"

definition bytes_of_chars :: "string \<Rightarrow> buffer" where
  "bytes_of_chars = map (\<lambda>c. word_of_nat (of_char c))"

lemma length_bytes_of_chars [simp]: "length (bytes_of_chars s) = length s"
  by (simp add: bytes_of_chars_def)

lemma length_chars_of_bytes [simp]: "length (chars_of_bytes bs) = length bs"
  by (simp add: chars_of_bytes_def)

lemma bytes_of_chars_of_bytes [simp]: "bytes_of_chars (chars_of_bytes bs) = bs"
  by (simp add: bytes_of_chars_def chars_of_bytes_def comp_def mod_less)

lemma chars_of_bytes_of_chars [simp]: "chars_of_bytes (bytes_of_chars s) = s"
  by (simp add: bytes_of_chars_def chars_of_bytes_def comp_def unat_of_nat)

end
