(* ===== verification/Std_Map.thy ===== *)
theory Std_Map
  imports Prelude "HOL-Library.Char_ord" "HOL-Library.List_Lexorder"
begin

text \<open>
  \<^verbatim>\<open>std::map\<close>: the ordered associative container in which the proxy keeps the
  properties of a message, its mutation, the active streams and the upstream handlers.  The
  interface is the locale \<^verbatim>\<open>ordered_map\<close>; the representation is the list of entries in
  iteration order, that is with strictly increasing keys.  Keys of type \<^verbatim>\<open>std::string\<close>
  are compared bytewise, which is the lexicographic order on \<^typ>\<open>string\<close>.
\<close>

section \<open>Representation\<close>

type_synonym ('k, 'v) std_map = "('k \<times> 'v) list"

fun map_find :: "('k::linorder, 'v) std_map \<Rightarrow> 'k \<Rightarrow> 'v option" where
  "map_find [] k = None"
| "map_find ((k', v) # m) k = (if k = k' then Some v else map_find m k)"

fun map_assign :: "'k::linorder \<Rightarrow> 'v \<Rightarrow> ('k, 'v) std_map \<Rightarrow> ('k, 'v) std_map" where
  "map_assign k v [] = [(k, v)]"
| "map_assign k v ((k', v') # m) =
     (if k < k' then (k, v) # (k', v') # m
      else if k = k' then (k, v) # m
      else (k', v') # map_assign k v m)"

fun map_erase :: "'k::linorder \<Rightarrow> ('k, 'v) std_map \<Rightarrow> ('k, 'v) std_map" where
  "map_erase k [] = []"
| "map_erase k ((k', v') # m) = (if k = k' then m else (k', v') # map_erase k m)"

definition map_ok :: "('k::linorder, 'v) std_map \<Rightarrow> bool" where
  "map_ok m = sorted_wrt (<) (map fst m)"

section \<open>Interface\<close>

locale ordered_map =
  fixes empty :: 'm
    and lookup :: "'m \<Rightarrow> 'k::linorder \<Rightarrow> 'v option"
    and assign :: "'k \<Rightarrow> 'v \<Rightarrow> 'm \<Rightarrow> 'm"
    and erase :: "'k \<Rightarrow> 'm \<Rightarrow> 'm"
    and entries :: "'m \<Rightarrow> ('k \<times> 'v) list"
    and ok :: "'m \<Rightarrow> bool"
  assumes ok_empty: "ok empty"
    and ok_assign: "ok m \<Longrightarrow> ok (assign k v m)"
    and ok_erase: "ok m \<Longrightarrow> ok (erase k m)"
    and lookup_empty: "lookup empty k = None"
    and lookup_assign: "ok m \<Longrightarrow> lookup (assign k v m) = (lookup m)(k \<mapsto> v)"
    and lookup_erase: "ok m \<Longrightarrow> lookup (erase k m) = (lookup m)(k := None)"
    and entries_order: "ok m \<Longrightarrow> sorted_wrt (<) (map fst (entries m))"
    and entries_lookup: "ok m \<Longrightarrow> map_of (entries m) = lookup m"
    and map_ext: "ok m \<Longrightarrow> ok m' \<Longrightarrow> lookup m = lookup m' \<Longrightarrow> m = m'"
begin

definition assign_all :: "('k \<times> 'v) list \<Rightarrow> 'm \<Rightarrow> 'm" where
  "assign_all kvs m = foldl (\<lambda>m kv. assign (fst kv) (snd kv) m) m kvs"

lemma ok_assign_all: "ok m \<Longrightarrow> ok (assign_all kvs m)"
  unfolding assign_all_def by (induction kvs arbitrary: m) (simp_all add: ok_assign)

lemma lookup_assign_all:
  "ok m \<Longrightarrow> lookup (assign_all kvs m) = lookup m ++ map_of (rev kvs)"
proof (induction kvs arbitrary: m)
  case (Cons kv kvs)
  then show ?case
    by (cases kv) (simp add: assign_all_def ok_assign lookup_assign map_add_upd_left
        fun_upd_def map_add_def fun_eq_iff split: option.splits)
qed (simp add: assign_all_def)

lemma assign_twice: "ok m \<Longrightarrow> assign k v (assign k w m) = assign k v m"
  by (rule map_ext) (simp_all add: ok_assign lookup_assign)

lemma assign_commute:
  "ok m \<Longrightarrow> k \<noteq> l \<Longrightarrow> assign k v (assign l w m) = assign l w (assign k v m)"
  by (rule map_ext) (simp_all add: ok_assign lookup_assign fun_upd_twist)

lemma erase_assign: "ok m \<Longrightarrow> lookup m k = None \<Longrightarrow> erase k (assign k v m) = m"
  by (rule map_ext) (simp_all add: ok_assign ok_erase lookup_assign lookup_erase fun_upd_idem)

lemma distinct_entries: "ok m \<Longrightarrow> distinct (map fst (entries m))"
  using entries_order strict_sorted_iff by blast

lemma rebuild: "ok m \<Longrightarrow> assign_all (entries m) empty = m"
proof (rule map_ext)
  assume ok: "ok m"
  show "ok (assign_all (entries m) empty)" by (rule ok_assign_all) (rule ok_empty)
  have "map_of (rev (entries m)) = map_of (entries m)"
    using distinct_entries [OF ok] by (subst map_of_inject_set) (simp_all add: rev_map [symmetric])
  then show "lookup (assign_all (entries m) empty) = lookup m"
    by (simp add: lookup_assign_all [OF ok_empty] entries_lookup [OF ok] lookup_empty
        map_add_def fun_eq_iff split: option.splits)
qed simp

end

section \<open>The entry list implements it\<close>

lemma map_find_map_of: "map_find m k = map_of m k"
  by (induction m) auto

lemma map_ok_Nil [simp]: "map_ok []"
  by (simp add: map_ok_def)

lemma map_ok_Cons [simp]:
  "map_ok ((k, v) # m) \<longleftrightarrow> (\<forall>k' \<in> fst ` set m. k < k') \<and> map_ok m"
  by (simp add: map_ok_def)

lemma keys_assign: "fst ` set (map_assign k v m) = insert k (fst ` set m)"
  by (induction k v m rule: map_assign.induct) (simp_all add: insert_commute)

lemma keys_erase: "fst ` set (map_erase k m) \<subseteq> fst ` set m"
proof (induction k m rule: map_erase.induct)
  case (2 k k' v' m)
  then show ?case by (cases "k = k'") (simp_all add: subset_insertI subset_insertI2)
qed simp

lemma map_ok_assign [simp]: "map_ok m \<Longrightarrow> map_ok (map_assign k v m)"
proof (induction m)
  case (Cons kv m)
  then show ?case
    using keys_assign [of k v m] by (cases kv) (auto simp: image_iff)
qed simp

lemma map_ok_erase [simp]: "map_ok m \<Longrightarrow> map_ok (map_erase k m)"
proof (induction m)
  case (Cons kv m)
  then show ?case
    by (cases kv) (simp add: subsetD [OF keys_erase] del: ball_simps)
qed simp

lemma map_find_assign [simp]:
  "map_find (map_assign k v m) l = (if l = k then Some v else map_find m l)"
  by (induction m) auto

lemma map_find_out: "(\<forall>k' \<in> fst ` set m. k < k') \<Longrightarrow> map_find m k = None"
  by (induction m) auto

lemma map_find_erase [simp]:
  "map_ok m \<Longrightarrow> map_find (map_erase k m) l = (if l = k then None else map_find m l)"
  by (induction m) (auto simp: map_find_out)

lemma map_find_ext:
  "map_ok m \<Longrightarrow> map_ok m' \<Longrightarrow> map_find m = map_find m' \<Longrightarrow> m = m'"
proof -
  assume ok: "map_ok m" "map_ok m'" and eq: "map_find m = map_find m'"
  have d: "distinct (map fst m)" "distinct (map fst m')"
    and so: "sorted_wrt (<) (map fst m)" "sorted_wrt (<) (map fst m')"
    using ok by (simp_all add: map_ok_def strict_sorted_iff)
  have "map_of m = map_of m'" using eq by (auto simp: map_find_map_of fun_eq_iff)
  then have st: "set m = set m'" by (simp add: map_of_inject_set d)
  then have "map fst m = map fst m'"
    by (metis so list.set_map strict_sorted_equal)
  moreover have "inj_on fst (set m \<union> set m')"
    using d by (simp add: st distinct_map)
  ultimately show "m = m'" by (rule map_inj_on)
qed

interpretation smap: ordered_map "[]" map_find map_assign map_erase "\<lambda>m. m" map_ok
  by unfold_locales
    (auto simp: fun_eq_iff map_find_map_of [symmetric] map_ok_def [symmetric] intro: map_find_ext)

end
