(* ===== verification/Metadata.thy ===== *)
theory Metadata
  imports Std_Map
begin

text \<open>
  The vocabulary of \<^verbatim>\<open>codec/codec.h\<close> and the message metadata of
  \<^verbatim>\<open>codec_impl.h\<close> and \<^verbatim>\<open>codec_impl.cc\<close>.

  A \<^verbatim>\<open>std::any\<close> is a string, a bool, a \<^verbatim>\<open>uint32_t\<close> or an object of a type that
  belongs to an application protocol (type parameter); \<^verbatim>\<open>any_cast\<close> to another type
  throws.  The two Envoy header maps are lists of entries in insertion order whose names are
  lower case: \<^verbatim>\<open>remove\<close> drops every entry of a name and \<^verbatim>\<open>addCopy\<close> appends
  one.
\<close>

section \<open>Enumerations\<close>

datatype message_type =
    Request | Response | Oneway | Stream_Init | Stream_Data
  | Stream_Close_One_Way | Stream_Close_Two_Way | Heartbeat | MT_Error

datatype response_status = RS_Ok | RS_Error

datatype decode_status = WaitForData | Done

datatype error_type =
  RouteNotFound | ClusterNotFound | NoHealthyUpstream | BadResponse | Unspecified | OverLimit

datatype error = Error (err_type: error_type) (err_message: string)

definition RealServerAddress :: string where
  "RealServerAddress = ''x-meta-protocol-real-server-address''"

definition ApplicationProtocol :: string where
  "ApplicationProtocol = ''x-meta-protocol-application-protocol''"

definition RequestUUID :: string where
  "RequestUUID = ''x-request-id''"

definition ClientTraceId :: string where
  "ClientTraceId = ''x-client-trace-id''"

definition EnvoyForceTrace :: string where
  "EnvoyForceTrace = ''x-envoy-force-trace''"

section \<open>Metadata\<close>

datatype 'x any = AnyString string | AnyBool bool | AnyUint32 u32 | AnyObj 'x

type_synonym header_map = "(string \<times> string) list"
type_synonym mutation = "(string, string) std_map"

record 'x metadata =
  md_properties :: "(string, 'x any) std_map"
  md_origin_message :: buffer
  md_message_type :: message_type
  md_response_status :: response_status
  md_request_id :: u64
  md_stream_id :: u64
  md_header_size :: u64
  md_body_size :: u64
  md_operation_name :: string
  md_headers :: header_map
  md_response_headers :: header_map

definition new_metadata :: "'x metadata" where
  "new_metadata = \<lparr>md_properties = [], md_origin_message = [], md_message_type = Request,
     md_response_status = RS_Ok, md_request_id = 0, md_stream_id = 0, md_header_size = 0,
     md_body_size = 0, md_operation_name = [], md_headers = [], md_response_headers = []\<rparr>"

definition lower_char :: "char \<Rightarrow> char" where
  "lower_char c = (let n = of_char c :: nat in if 65 \<le> n \<and> n \<le> 90 then char_of (n + 32) else c)"

definition LowerCaseString :: "string \<Rightarrow> string" where
  "LowerCaseString = map lower_char"

definition hm_remove :: "string \<Rightarrow> header_map \<Rightarrow> header_map" where
  "hm_remove k hs = filter (\<lambda>kv. fst kv \<noteq> k) hs"

definition hm_addCopy :: "string \<Rightarrow> string \<Rightarrow> header_map \<Rightarrow> header_map" where
  "hm_addCopy k v hs = hs @ [(k, v)]"

definition put :: "string \<Rightarrow> 'x any \<Rightarrow> 'x metadata \<Rightarrow> 'x metadata" where
  "put key value m = m\<lparr>md_properties := map_assign key value (md_properties m)\<rparr>"

definition getByKey :: "string \<Rightarrow> 'x metadata \<Rightarrow> 'x any option" where
  "getByKey key m = map_find (md_properties m) key"

definition putString :: "string \<Rightarrow> string \<Rightarrow> 'x metadata \<Rightarrow> 'x metadata" where
  "putString key value m =
     (let m1 = put key (AnyString value) m;
          lowcase_key = LowerCaseString key
      in m1\<lparr>md_headers := hm_addCopy lowcase_key value (hm_remove lowcase_key (md_headers m1)),
           md_response_headers :=
             hm_addCopy lowcase_key value (hm_remove lowcase_key (md_response_headers m1))\<rparr>)"

definition removeString :: "string \<Rightarrow> 'x metadata \<Rightarrow> 'x metadata" where
  "removeString key m =
     (let lowcase_key = LowerCaseString key
      in m\<lparr>md_properties := map_erase key (md_properties m),
           md_headers := hm_remove lowcase_key (md_headers m),
           md_response_headers := hm_remove lowcase_key (md_response_headers m)\<rparr>)"

definition getString :: "string \<Rightarrow> 'x metadata \<Rightarrow> string res" where
  "getString key m =
     (case getByKey key m of
        Some (AnyString s) \<Rightarrow> Inr s
      | Some _ \<Rightarrow> Inl BadAnyCast
      | None \<Rightarrow> Inr [])"

definition getBool :: "string \<Rightarrow> 'x metadata \<Rightarrow> bool res" where
  "getBool key m =
     (case getByKey key m of
        Some (AnyBool b) \<Rightarrow> Inr b
      | Some _ \<Rightarrow> Inl BadAnyCast
      | None \<Rightarrow> Inr False)"

definition getUint32 :: "string \<Rightarrow> 'x metadata \<Rightarrow> u32 res" where
  "getUint32 key m =
     (case getByKey key m of
        Some (AnyUint32 n) \<Rightarrow> Inr n
      | Some _ \<Rightarrow> Inl BadAnyCast
      | None \<Rightarrow> Inr 0)"

definition getMessageSize :: "'x metadata \<Rightarrow> u64" where
  "getMessageSize m = md_header_size m + md_body_size m"

definition clone :: "'x metadata \<Rightarrow> 'x metadata" where
  "clone m =
     (let copy = new_metadata
            \<lparr>md_origin_message := md_origin_message m, md_message_type := md_message_type m,
             md_response_status := md_response_status m, md_body_size := md_body_size m,
             md_header_size := md_header_size m, md_request_id := md_request_id m,
             md_stream_id := md_stream_id m\<rparr>
      in foldl (\<lambda>c kv. put (fst kv) (snd kv) c) copy (md_properties m))"

text \<open>\<^verbatim>\<open>forEach\<close>: the callback sees the string properties in key order and returns
  whether to go on; its own effects are the state \<^typ>\<open>'s\<close>.\<close>

fun forEach_props :: "(string \<Rightarrow> string \<Rightarrow> 's \<Rightarrow> bool \<times> 's) \<Rightarrow> (string, 'x any) std_map \<Rightarrow> 's \<Rightarrow> 's" where
  "forEach_props cb [] s = s"
| "forEach_props cb ((key, AnyString v) # ps) s =
     (case cb key v s of (True, s') \<Rightarrow> forEach_props cb ps s' | (False, s') \<Rightarrow> s')"
| "forEach_props cb (_ # ps) s = forEach_props cb ps s"

definition forEach :: "(string \<Rightarrow> string \<Rightarrow> 's \<Rightarrow> bool \<times> 's) \<Rightarrow> 'x metadata \<Rightarrow> 's \<Rightarrow> 's" where
  "forEach cb m = forEach_props cb (md_properties m)"

definition getStringPointer :: "string \<Rightarrow> 'x metadata \<Rightarrow> string option" where
  "getStringPointer key m =
     (case getByKey key m of Some (AnyString s) \<Rightarrow> Some s | _ \<Rightarrow> None)"

definition ctx_get :: "string \<Rightarrow> 'x metadata \<Rightarrow> string option" where
  "ctx_get key m =
     (case getStringPointer key m of
        Some v \<Rightarrow> if v \<noteq> [] then Some v else None
      | None \<Rightarrow> None)"

definition ctx_set :: "string \<Rightarrow> string \<Rightarrow> 'x metadata \<Rightarrow> 'x metadata" where
  "ctx_set key val m = putString key val m"

definition ctx_remove :: "string \<Rightarrow> 'x metadata \<Rightarrow> 'x metadata" where
  "ctx_remove key m = removeString key m"

section \<open>Invariant\<close>

text \<open>
  The two header maps hold the same entries, one per lower-case name, and the properties are a
  well-formed map.
\<close>

definition metadata_ok :: "'x metadata \<Rightarrow> bool" where
  "metadata_ok m \<longleftrightarrow> map_ok (md_properties m) \<and> distinct (map fst (md_headers m))
     \<and> md_headers m = md_response_headers m
     \<and> (\<forall>kv \<in> set (md_headers m). LowerCaseString (fst kv) = fst kv)"

lemmas metadata_defs = put_def getByKey_def putString_def removeString_def getString_def
  getBool_def getUint32_def Let_def

lemma lower_char_idem [simp]: "lower_char (lower_char c) = lower_char c"
  by (simp add: lower_char_def Let_def)

lemma LowerCaseString_idem [simp]: "LowerCaseString (LowerCaseString s) = LowerCaseString s"
  by (simp add: LowerCaseString_def)

lemma hm_remove_keys [simp]: "fst ` set (hm_remove k hs) = fst ` set hs - {k}"
  by (auto simp: hm_remove_def)

lemma hm_remove_set [simp]: "set (hm_remove k hs) = {kv \<in> set hs. fst kv \<noteq> k}"
  by (auto simp: hm_remove_def)

lemma hm_remove_distinct [simp]: "distinct (map fst hs) \<Longrightarrow> distinct (map fst (hm_remove k hs))"
  by (simp add: hm_remove_def distinct_map inj_on_def)

lemma hm_addCopy_distinct [simp]:
  "distinct (map fst hs) \<Longrightarrow> distinct (map fst (hm_addCopy k v (hm_remove k hs)))"
  by (auto simp: hm_addCopy_def)

lemma map_of_hm_put:
  "map_of (hm_addCopy k v (hm_remove k hs)) n = (if n = k then Some v else map_of hs n)"
  by (induction hs) (auto simp: hm_addCopy_def hm_remove_def)

lemma map_of_hm_remove: "map_of (hm_remove k hs) n = (if n = k then None else map_of hs n)"
  by (induction hs) (auto simp: hm_remove_def)

lemma metadata_ok_new [simp]: "metadata_ok new_metadata"
  by (simp add: metadata_ok_def new_metadata_def)

lemma metadata_ok_put [simp]: "metadata_ok m \<Longrightarrow> metadata_ok (put k v m)"
  by (auto simp: metadata_ok_def put_def)

lemma metadata_ok_putString [simp]: "metadata_ok m \<Longrightarrow> metadata_ok (putString k v m)"
  by (auto simp: metadata_ok_def putString_def put_def Let_def hm_addCopy_def)

lemma metadata_ok_removeString [simp]: "metadata_ok m \<Longrightarrow> metadata_ok (removeString k m)"
  by (auto simp: metadata_ok_def removeString_def Let_def)

section \<open>Lookups\<close>

lemma getByKey_put [simp]: "getByKey k (put l v m) = (if k = l then Some v else getByKey k m)"
  by (simp add: getByKey_def put_def)

lemma getByKey_putString [simp]:
  "getByKey k (putString l v m) = (if k = l then Some (AnyString v) else getByKey k m)"
  by (simp add: getByKey_def putString_def put_def Let_def)

lemma getByKey_removeString [simp]:
  "metadata_ok m \<Longrightarrow> getByKey k (removeString l m) = (if k = l then None else getByKey k m)"
  by (simp add: getByKey_def removeString_def Let_def metadata_ok_def)

lemma getString_putString [simp]:
  "getString k (putString l v m) = (if k = l then Inr v else getString k m)"
  by (simp add: getString_def)

lemma getString_new [simp]: "getString k new_metadata = Inr []"
  by (simp add: getString_def getByKey_def new_metadata_def)

lemma getString_put [simp]: "k \<noteq> l \<Longrightarrow> getString k (put l w m) = getString k m"
  by (simp add: getString_def)

lemma getByKey_upd [simp]:
  "getByKey k (m\<lparr>md_origin_message := b\<rparr>) = getByKey k m"
  "getByKey k (m\<lparr>md_message_type := t\<rparr>) = getByKey k m"
  "getByKey k (m\<lparr>md_response_status := rs\<rparr>) = getByKey k m"
  "getByKey k (m\<lparr>md_request_id := i\<rparr>) = getByKey k m"
  "getByKey k (m\<lparr>md_stream_id := i\<rparr>) = getByKey k m"
  "getByKey k (m\<lparr>md_header_size := n\<rparr>) = getByKey k m"
  "getByKey k (m\<lparr>md_body_size := n\<rparr>) = getByKey k m"
  "getByKey k (m\<lparr>md_operation_name := s\<rparr>) = getByKey k m"
  by (simp_all add: getByKey_def)

lemma getString_upd [simp]:
  "getString k (m\<lparr>md_origin_message := b\<rparr>) = getString k m"
  "getString k (m\<lparr>md_message_type := t\<rparr>) = getString k m"
  "getString k (m\<lparr>md_response_status := rs\<rparr>) = getString k m"
  "getString k (m\<lparr>md_request_id := i\<rparr>) = getString k m"
  "getString k (m\<lparr>md_stream_id := i\<rparr>) = getString k m"
  "getString k (m\<lparr>md_header_size := n\<rparr>) = getString k m"
  "getString k (m\<lparr>md_body_size := n\<rparr>) = getString k m"
  "getString k (m\<lparr>md_operation_name := s\<rparr>) = getString k m"
  by (simp_all add: getString_def)

lemma headers_putString:
  "map_of (md_headers (putString k v m)) n =
     (if n = LowerCaseString k then Some v else map_of (md_headers m) n)"
  by (simp add: putString_def put_def Let_def map_of_hm_put)

lemma headers_removeString:
  "map_of (md_headers (removeString k m)) n =
     (if n = LowerCaseString k then None else map_of (md_headers m) n)"
  by (simp add: removeString_def Let_def map_of_hm_remove)

lemma putString_fields [simp]:
  "md_origin_message (putString k v m) = md_origin_message m"
  "md_message_type (putString k v m) = md_message_type m"
  "md_request_id (putString k v m) = md_request_id m"
  "md_stream_id (putString k v m) = md_stream_id m"
  "md_header_size (putString k v m) = md_header_size m"
  "md_body_size (putString k v m) = md_body_size m"
  "md_response_status (putString k v m) = md_response_status m"
  "md_operation_name (putString k v m) = md_operation_name m"
  by (simp_all add: putString_def put_def Let_def)

lemma put_fields [simp]:
  "md_origin_message (put k w m) = md_origin_message m"
  "md_message_type (put k w m) = md_message_type m"
  "md_request_id (put k w m) = md_request_id m"
  "md_stream_id (put k w m) = md_stream_id m"
  "md_header_size (put k w m) = md_header_size m"
  "md_body_size (put k w m) = md_body_size m"
  "md_headers (put k w m) = md_headers m"
  "md_response_status (put k w m) = md_response_status m"
  "md_operation_name (put k w m) = md_operation_name m"
  by (simp_all add: put_def)

section \<open>Copies\<close>

lemma foldl_put_properties:
  "foldl (\<lambda>c kv. put (fst kv) (snd kv) c) m kvs =
     m\<lparr>md_properties := smap.assign_all kvs (md_properties m)\<rparr>"
  by (induction kvs arbitrary: m) (simp_all add: put_def smap.assign_all_def)

text \<open>
  A copy made for a mirrored request carries the message bytes, type, status, sizes, ids and
  every property of the original; the operation name and the header view used for routing start
  empty.
\<close>

theorem clone_fields:
  assumes "map_ok (md_properties m)"
  shows "clone m = m\<lparr>md_operation_name := [], md_headers := [], md_response_headers := []\<rparr>"
  using smap.rebuild [OF assms]
  by (simp add: clone_def Let_def foldl_put_properties new_metadata_def)

text \<open>The hypothesis holds of a message that carries a service and a method.\<close>

theorem clone_fields_witness:
  "let m = putString ''service'' ''echo'' (putString ''method'' ''say'' new_metadata) :: unit metadata
   in map_ok (md_properties m)
      \<and> clone m = m\<lparr>md_operation_name := [], md_headers := [], md_response_headers := []\<rparr>"
proof -
  have "map_ok (md_properties (putString ''service'' ''echo''
      (putString ''method'' ''say'' new_metadata) :: unit metadata))"
    by (simp add: putString_def put_def Let_def new_metadata_def)
  from this clone_fields [OF this] show ?thesis
    unfolding Let_def by (rule conjI)
qed

text \<open>
  What a codec stores under a key for routing is what the code reads back: through
  \<^verbatim>\<open>getString\<close>, through the tracing context, and through the header map under the
  lower-case name; other keys, and other names, are left as they were.
\<close>

theorem putString_reads_back:
  "getString k (putString l v m) = (if k = l then Inr v else getString k m)
   \<and> ctx_get k (putString l v m) = (if k = l then (if v = [] then None else Some v) else ctx_get k m)
   \<and> map_of (md_headers (putString l v m)) n =
       (if n = LowerCaseString l then Some v else map_of (md_headers m) n)"
  by (simp add: headers_putString ctx_get_def getStringPointer_def)

end
