(* ===== verification/Decoder.thy ===== *)
theory Decoder
  imports Metadata
begin

text \<open>
  The message decoder of \<^verbatim>\<open>decoder.h\<close> and \<^verbatim>\<open>decoder.cc\<close>, and the loop of
  \<^verbatim>\<open>ConnectionManager::dispatch\<close> that drives it.

  A codec is its decoding function on an explicit codec state.  The user of a decoder (the
  connection manager, a response decoder) is the record \<^verbatim>\<open>callbacks\<close> over a state
  \<^typ>\<open>'s\<close>; a callback returns the state also when it throws, because the code that
  catches the exception goes on with it.  The locales \<^verbatim>\<open>framing\<close>,
  \<^verbatim>\<open>consuming\<close> and \<^verbatim>\<open>conserving\<close> state what the loop relies on from a
  codec; each codec theory says which of them its codec provides.
\<close>

section \<open>State\<close>

datatype protocol_state = PS_WaitForData | OnDecodeStreamData | PS_Done

type_synonym ('c, 'x) decode_fn =
  "'c \<Rightarrow> buffer \<Rightarrow> 'x metadata \<Rightarrow> (decode_status \<times> 'c \<times> buffer \<times> 'x metadata) res"

record ('s, 'h, 'x) callbacks =
  cb_newMessageHandler :: "'s \<Rightarrow> 'h \<times> 's"
  cb_onMessageDecoded :: "'h \<Rightarrow> 'x metadata \<Rightarrow> mutation \<Rightarrow> 's \<Rightarrow> unit res \<times> 's"
  cb_onHeartbeat :: "'x metadata \<Rightarrow> 's \<Rightarrow> bool res \<times> 's"

type_synonym ('h, 'x) active_stream = "'h \<times> 'x metadata \<times> mutation"

record ('c, 'h, 'x) decoder =
  d_codec :: 'c
  d_stream :: "('h, 'x) active_stream option"
  d_state_machine :: "protocol_state option"
  d_messageType :: message_type
  d_decode_started :: bool

definition new_decoder :: "'c \<Rightarrow> message_type \<Rightarrow> ('c, 'h, 'x) decoder" where
  "new_decoder c mt = \<lparr>d_codec = c, d_stream = None, d_state_machine = None,
     d_messageType = mt, d_decode_started = False\<rparr>"

section \<open>Operations\<close>

definition newStream ::
  "('s, 'h, 'x) callbacks \<Rightarrow> 'x metadata \<Rightarrow> mutation \<Rightarrow> ('c, 'h, 'x) decoder \<Rightarrow> 's
   \<Rightarrow> ('h, 'x) active_stream \<times> ('c, 'h, 'x) decoder \<times> 's" where
  "newStream cb md mut d s =
     (case cb_newMessageHandler cb s of
        (h, s') \<Rightarrow> ((h, md, mut), d\<lparr>d_stream := Some (h, md, mut)\<rparr>, s'))"

definition onStreamDecoded ::
  "('s, 'h, 'x) callbacks \<Rightarrow> ('h, 'x) active_stream \<Rightarrow> 's \<Rightarrow> unit res \<times> 's" where
  "onStreamDecoded cb st s = (case st of (h, md, mut) \<Rightarrow> cb_onMessageDecoded cb h md mut s)"

definition fresh_metadata :: "message_type \<Rightarrow> 'x metadata" where
  "fresh_metadata mt = new_metadata\<lparr>md_message_type := mt\<rparr>"

lemma fresh_metadata_simps [simp]:
  "md_origin_message (fresh_metadata mt) = []"
  "md_message_type (fresh_metadata mt) = mt"
  "metadata_ok (fresh_metadata mt)"
  using metadata_ok_new by (simp_all add: fresh_metadata_def new_metadata_def metadata_ok_def)

definition onDecodeStream ::
  "('c, 'x) decode_fn \<Rightarrow> ('s, 'h, 'x) callbacks \<Rightarrow> ('c, 'h, 'x) decoder \<Rightarrow> buffer \<Rightarrow> 's
   \<Rightarrow> (protocol_state \<times> ('c, 'h, 'x) decoder \<times> buffer) res \<times> 's" where
  "onDecodeStream decode cb d buf s =
     (case decode (d_codec d) buf (fresh_metadata (d_messageType d)) of
        Inl e \<Rightarrow> (Inl e, s)
      | Inr (status, c', buf', md) \<Rightarrow>
          let d1 = d\<lparr>d_codec := c'\<rparr> in
          if status = WaitForData then (Inr (PS_WaitForData, d1, buf'), s)
          else if md_message_type md = Heartbeat then
            (case cb_onHeartbeat cb md s of
               (Inl e, s') \<Rightarrow> (Inl e, s')
             | (Inr waitForResponse, s') \<Rightarrow>
                 (Inr (if waitForResponse then PS_WaitForData else PS_Done, d1, buf'), s'))
          else
            (case newStream cb md [] d1 s of
               (st, d2, s') \<Rightarrow>
                 (case onStreamDecoded cb st s' of
                    (Inl e, s'') \<Rightarrow> (Inl e, s'')
                  | (Inr _, s'') \<Rightarrow> (Inr (PS_Done, d2, buf'), s''))))"

definition run ::
  "('c, 'x) decode_fn \<Rightarrow> ('s, 'h, 'x) callbacks \<Rightarrow> ('c, 'h, 'x) decoder \<Rightarrow> buffer \<Rightarrow> 's
   \<Rightarrow> (protocol_state \<times> ('c, 'h, 'x) decoder \<times> buffer) res \<times> 's" where
  "run decode cb d buf s =
     (case onDecodeStream decode cb d buf s of
        (Inl e, s') \<Rightarrow> (Inl e, s')
      | (Inr (state, d', buf'), s') \<Rightarrow>
          (Inr (state, d'\<lparr>d_state_machine := Some state\<rparr>, buf'), s'))"

definition start :: "('c, 'h, 'x) decoder \<Rightarrow> ('c, 'h, 'x) decoder" where
  "start d = d\<lparr>d_state_machine := Some OnDecodeStreamData, d_decode_started := True\<rparr>"

definition complete :: "('c, 'h, 'x) decoder \<Rightarrow> ('c, 'h, 'x) decoder" where
  "complete d = d\<lparr>d_state_machine := None, d_stream := None, d_decode_started := False\<rparr>"

definition reset :: "('c, 'h, 'x) decoder \<Rightarrow> ('c, 'h, 'x) decoder" where
  "reset d = complete d"

text \<open>\<^verbatim>\<open>DecoderBase::onData\<close>: the first component is \<^verbatim>\<open>buffer_underflow\<close>.\<close>

definition onData ::
  "('c, 'x) decode_fn \<Rightarrow> ('s, 'h, 'x) callbacks \<Rightarrow> ('c, 'h, 'x) decoder \<Rightarrow> buffer \<Rightarrow> 's
   \<Rightarrow> (bool \<times> ('c, 'h, 'x) decoder \<times> buffer) res \<times> 's" where
  "onData decode cb d buf s =
     (let d0 = (if \<not> d_decode_started d then start d else d) in
      case run decode cb d0 buf s of
        (Inl e, s') \<Rightarrow> (Inl e, s')
      | (Inr (state, d', buf'), s') \<Rightarrow>
          (if state = PS_WaitForData then (Inr (True, d', buf'), s')
           else (Inr (length buf' = 0, complete d', buf'), s')))"

text \<open>The loop \<^verbatim>\<open>while (!underflow)\<close> of \<^verbatim>\<open>ConnectionManager::dispatch\<close>; None
  is a loop that never ends.\<close>

partial_function (option) dispatch_loop ::
  "('c, 'x) decode_fn \<Rightarrow> ('s, 'h, 'x) callbacks \<Rightarrow> ('c, 'h, 'x) decoder \<Rightarrow> buffer \<Rightarrow> 's
   \<Rightarrow> ((('c, 'h, 'x) decoder \<times> buffer) res \<times> 's) option" where
  "dispatch_loop decode cb d buf s =
     (case onData decode cb d buf s of
        (Inl e, s') \<Rightarrow> Some (Inl e, s')
      | (Inr (underflow, d', buf'), s') \<Rightarrow>
          (if underflow then Some (Inr (d', buf'), s')
           else dispatch_loop decode cb d' buf' s'))"

lemmas decoder_defs = onData_def run_def onDecodeStream_def newStream_def onStreamDecoded_def
  start_def complete_def Let_def

section \<open>One step of the decoder\<close>

text \<open>What a decoded message does to the user of the decoder; the result is whether to go on
  waiting for a response.\<close>

definition deliver ::
  "('s, 'h, 'x) callbacks \<Rightarrow> 'x metadata \<Rightarrow> 's \<Rightarrow> bool res \<times> 's" where
  "deliver cb md s =
     (if md_message_type md = Heartbeat then cb_onHeartbeat cb md s
      else case cb_newMessageHandler cb s of
        (h, s') \<Rightarrow> (case cb_onMessageDecoded cb h md [] s' of
                      (Inl e, s'') \<Rightarrow> (Inl e, s'')
                    | (Inr _, s'') \<Rightarrow> (Inr False, s'')))"

definition waiting :: "'c \<Rightarrow> ('c, 'h, 'x) decoder \<Rightarrow> ('c, 'h, 'x) decoder" where
  "waiting c d = d\<lparr>d_codec := c, d_state_machine := Some PS_WaitForData, d_decode_started := True\<rparr>"

definition idle :: "'c \<Rightarrow> ('c, 'h, 'x) decoder \<Rightarrow> ('c, 'h, 'x) decoder" where
  "idle c d = complete (d\<lparr>d_codec := c\<rparr>)"

lemma waiting_idle_simps [simp]:
  "d_codec (waiting c d) = c" "d_messageType (waiting c d) = d_messageType d"
  "d_codec (idle c d) = c" "d_messageType (idle c d) = d_messageType d"
  "waiting c2 (waiting c d) = waiting c2 d" "idle c2 (waiting c d) = idle c2 d"
  by (simp_all add: waiting_def idle_def complete_def)

lemma onData_throw:
  "decode (d_codec d) buf (fresh_metadata (d_messageType d)) = Inl e \<Longrightarrow>
     onData decode cb d buf s = (Inl e, s)"
  by (simp add: decoder_defs)

lemma onData_wait:
  "decode (d_codec d) buf (fresh_metadata (d_messageType d)) = Inr (WaitForData, c, buf', md) \<Longrightarrow>
     onData decode cb d buf s = (Inr (True, waiting c d, buf'), s)"
  by (simp add: decoder_defs waiting_def)

lemma onData_done:
  assumes "decode (d_codec d) buf (fresh_metadata (d_messageType d)) = Inr (Done, c, buf', md)"
  shows "onData decode cb d buf s =
    (case deliver cb md s of
       (Inl e, s') \<Rightarrow> (Inl e, s')
     | (Inr w, s') \<Rightarrow> (if w then (Inr (True, waiting c d, buf'), s')
                      else (Inr (buf' = [], idle c d, buf'), s')))"
proof (cases "md_message_type md = Heartbeat")
  case True
  then show ?thesis
    using assms by (cases "cb_onHeartbeat cb md s"; cases "fst (cb_onHeartbeat cb md s)")
      (simp_all add: decoder_defs deliver_def waiting_def idle_def)
next
  case False
  obtain h s1 where h: "cb_newMessageHandler cb s = (h, s1)" by fastforce
  obtain r s2 where r: "cb_onMessageDecoded cb h md [] s1 = (r, s2)" by fastforce
  from False assms h r show ?thesis
    by (cases r) (simp_all add: decoder_defs deliver_def idle_def)
qed

lemma onData_cases [consumes 1, case_names wait heartbeat deliver]:
  assumes "onData decode cb d buf s = (Inr (u, d', buf'), s')"
  obtains (wait) c md where
      "decode (d_codec d) buf (fresh_metadata (d_messageType d)) = Inr (WaitForData, c, buf', md)"
      "u" "d' = waiting c d" "s' = s"
    | (heartbeat) c md where
      "decode (d_codec d) buf (fresh_metadata (d_messageType d)) = Inr (Done, c, buf', md)"
      "deliver cb md s = (Inr True, s')" "u" "d' = waiting c d"
    | (deliver) c md where
      "decode (d_codec d) buf (fresh_metadata (d_messageType d)) = Inr (Done, c, buf', md)"
      "deliver cb md s = (Inr False, s')" "u \<longleftrightarrow> buf' = []" "d' = idle c d"
proof (cases "decode (d_codec d) buf (fresh_metadata (d_messageType d))")
  case (Inl e)
  with assms show thesis by (simp add: onData_throw)
next
  case (Inr r)
  obtain st c b md where r: "r = (st, c, b, md)" by (cases r)
  show thesis
  proof (cases st)
    case WaitForData
    with assms Inr r show thesis by (auto simp: onData_wait intro: wait)
  next
    case Done
    obtain w t where w: "deliver cb md s = (w, t)" by fastforce
    from assms Inr r Done w show thesis
      by (cases w) (auto simp: onData_done split: if_splits intro: heartbeat deliver)
  qed
qed

text \<open>A user of the decoder that answers every heartbeat at once.\<close>

definition never_waits :: "('s, 'h, 'x) callbacks \<Rightarrow> bool" where
  "never_waits cb \<longleftrightarrow> (\<forall>md s. fst (cb_onHeartbeat cb md s) \<noteq> Inr True)"

lemma deliver_never_waits:
  assumes "never_waits cb"
  shows "deliver cb md s \<noteq> (Inr True, s')"
proof (cases "md_message_type md = Heartbeat")
  case True
  have "fst (cb_onHeartbeat cb md s) \<noteq> Inr True"
    using assms by (simp add: never_waits_def)
  with True show ?thesis by (auto simp: deliver_def)
next
  case False
  obtain h s1 where h: "cb_newMessageHandler cb s = (h, s1)" by fastforce
  obtain r s2 where "cb_onMessageDecoded cb h md [] s1 = (r, s2)" by fastforce
  with h False show ?thesis by (cases r) (simp_all add: deliver_def)
qed

section \<open>The assertions of the decoder\<close>

text \<open>
  Between two calls no stream is held, a state machine exists exactly while a message is being
  decoded, and that machine is never in the state Done: the \<^verbatim>\<open>ASSERT\<close>s on
  \<^verbatim>\<open>stream_\<close>, \<^verbatim>\<open>state_machine_\<close> and \<^verbatim>\<open>state_\<close> hold.
\<close>

definition decoder_ok :: "('c, 'h, 'x) decoder \<Rightarrow> bool" where
  "decoder_ok d \<longleftrightarrow> d_stream d = None \<and> (d_decode_started d \<longleftrightarrow> d_state_machine d \<noteq> None)
     \<and> d_state_machine d \<noteq> Some PS_Done"

lemma decoder_ok_new [simp]: "decoder_ok (new_decoder c mt)"
  by (simp add: decoder_ok_def new_decoder_def)

lemma decoder_ok_complete [simp]: "decoder_ok (complete d)"
  by (simp add: decoder_ok_def complete_def)

lemma decoder_ok_waiting [simp]: "decoder_ok d \<Longrightarrow> decoder_ok (waiting c d)"
  by (simp add: decoder_ok_def waiting_def)

lemma decoder_ok_idle [simp]: "decoder_ok (idle c d)"
  by (simp add: idle_def)

lemma decoder_ok_onData:
  assumes "onData decode cb d buf s = (Inr (u, d', buf'), s')" and "decoder_ok d"
  shows "decoder_ok d'"
  using assms by (cases rule: onData_cases) simp_all

lemma dispatch_loop_induct [consumes 1, case_names throw stop loop]:
  assumes "dispatch_loop decode cb d buf s = Some (r, s')"
    and "\<And>d buf s e s'. onData decode cb d buf s = (Inl e, s') \<Longrightarrow> P d buf s (Inl e) s'"
    and "\<And>d buf s d' buf' s'. onData decode cb d buf s = (Inr (True, d', buf'), s')
           \<Longrightarrow> P d buf s (Inr (d', buf')) s'"
    and "\<And>d buf s d1 buf1 s1 r s'. onData decode cb d buf s = (Inr (False, d1, buf1), s1)
           \<Longrightarrow> dispatch_loop decode cb d1 buf1 s1 = Some (r, s') \<Longrightarrow> P d1 buf1 s1 r s'
           \<Longrightarrow> P d buf s r s'"
  shows "P d buf s r s'"
proof -
  let ?Q = "\<lambda>dc c d buf s rs. dc = decode \<longrightarrow> c = cb \<longrightarrow>
      P d buf s (fst rs) (snd rs) \<and> dispatch_loop decode cb d buf s = Some rs"
  have "?Q decode cb d buf s (r, s')"
    using assms(1)
  proof (rule dispatch_loop.raw_induct [where P = ?Q, rotated])
    fix f dc c d buf s y
    assume IH: "\<And>dc c d buf s y. f dc c d buf s = Some y \<Longrightarrow> ?Q dc c d buf s y"
      and body: "(case onData dc c d buf s of (Inl e, s') \<Rightarrow> Some (Inl e, s')
        | (Inr (u, d', buf'), s') \<Rightarrow> if u then Some (Inr (d', buf'), s') else f dc c d' buf' s')
        = Some y"
    show "?Q dc c d buf s y"
    proof (intro impI)
      assume eq: "dc = decode" "c = cb"
      obtain o1 s1 where o: "onData decode cb d buf s = (o1, s1)" by fastforce
      show "P d buf s (fst y) (snd y) \<and> dispatch_loop decode cb d buf s = Some y"
      proof (cases o1)
        case (Inl e)
        with body o eq assms(2) show ?thesis by (subst dispatch_loop.simps) auto
      next
        case (Inr x)
        obtain u d1 buf1 where x: "x = (u, d1, buf1)" by (cases x)
        show ?thesis
        proof (cases u)
          case True
          with body o eq Inr x assms(3) show ?thesis by (subst dispatch_loop.simps) auto
        next
          case False
          with body o eq Inr x have "f decode cb d1 buf1 s1 = Some y" by simp
          from IH [OF this] have "P d1 buf1 s1 (fst y) (snd y)"
            "dispatch_loop decode cb d1 buf1 s1 = Some y" by simp_all
          with o Inr x False assms(4) [of d buf s d1 buf1 s1 "fst y" "snd y"]
          show ?thesis by (subst dispatch_loop.simps) simp
        qed
      qed
    qed
  qed
  then show ?thesis by simp
qed

text \<open>A loop whose steps never ask to stop and never fail does not return.\<close>

lemma dispatch_loop_diverges:
  assumes step: "\<And>d buf s. I d buf s \<Longrightarrow>
      \<exists>d' buf' s'. onData decode cb d buf s = (Inr (False, d', buf'), s') \<and> I d' buf' s'"
    and init: "I d buf s"
  shows "dispatch_loop decode cb d buf s = None"
proof (rule ccontr)
  assume "dispatch_loop decode cb d buf s \<noteq> None"
  then obtain r s' where "dispatch_loop decode cb d buf s = Some (r, s')" by auto
  then have "I d buf s \<longrightarrow> False"
    by (induction rule: dispatch_loop_induct) (use step in fastforce)+
  with init show False by simp
qed

text \<open>A user of the decoder that keeps what it is given, for concrete runs.\<close>

definition recorder :: "('x metadata list, unit, 'x) callbacks" where
  "recorder = \<lparr>cb_newMessageHandler = (\<lambda>s. ((), s)),
     cb_onMessageDecoded = (\<lambda>h md mut s. (Inr (), s @ [md])),
     cb_onHeartbeat = (\<lambda>md s. (Inr False, s @ [md]))\<rparr>"

lemma recorder_deliver [simp]: "deliver recorder md s = (Inr False, s @ [md])"
  by (simp add: deliver_def recorder_def)

lemma recorder_never_waits [simp]: "never_waits recorder"
  by (simp add: never_waits_def recorder_def)

section \<open>Invariants of the user of a decoder\<close>

text \<open>A property that the callbacks keep is kept by reading.\<close>

locale kept_by_callbacks =
  fixes cb :: "('s, 'h, 'x) callbacks" and I :: "'s \<Rightarrow> bool"
  assumes new_kept: "I s \<Longrightarrow> cb_newMessageHandler cb s = (h, s') \<Longrightarrow> I s'"
    and decoded_kept: "I s \<Longrightarrow> cb_onMessageDecoded cb h md mut s = (r, s') \<Longrightarrow> I s'"
    and heartbeat_kept: "I s \<Longrightarrow> cb_onHeartbeat cb md s = (w, s') \<Longrightarrow> I s'"
begin

lemma deliver_kept: "I s \<Longrightarrow> deliver cb md s = (w, s') \<Longrightarrow> I s'"
  by (auto simp: deliver_def split: if_splits prod.splits sum.splits
      intro: heartbeat_kept dest: new_kept decoded_kept)

lemma onData_kept:
  assumes "I s" "onData decode cb d buf s = (r, s')"
  shows "I s'"
proof (cases "decode (d_codec d) buf (fresh_metadata (d_messageType d))")
  case (Inl e)
  with assms show ?thesis by (simp add: onData_throw)
next
  case (Inr x)
  obtain st c b md where x: "x = (st, c, b, md)" by (cases x)
  obtain w t where w: "deliver cb md s = (w, t)" by fastforce
  with assms(1) have "I t" by (rule deliver_kept)
  with assms Inr x w show ?thesis
    by (cases st; cases w) (auto simp: onData_wait onData_done split: if_splits)
qed

lemma dispatch_loop_kept:
  "dispatch_loop decode cb d buf s = Some (r, s') \<Longrightarrow> I s \<Longrightarrow> I s'"
  by (induction rule: dispatch_loop_induct) (auto dest: onData_kept)

end

section \<open>What the loop relies on from a codec\<close>

text \<open>The states a codec can be in between two calls.\<close>

locale codec_state =
  fixes decode :: "('c, 'x) decode_fn"
    and ready :: "'c \<Rightarrow> bool"
  assumes ready_step:
      "ready c \<Longrightarrow> decode c buf md = Inr (st, c', buf', md') \<Longrightarrow> ready c'"
begin

lemma onData_ready:
  assumes "onData decode cb d buf s = (Inr (u, d', buf'), s')" "ready (d_codec d)"
  shows "ready (d_codec d')"
  using assms by (cases rule: onData_cases) (auto dest: ready_step)

end

text \<open>
  Framing: the outcome of decoding does not depend on how the bytes were cut into reads.  A codec
  that asked for more data resumes as if it had seen all of it at once; a message, or an error, is
  not changed by the bytes that follow (an undefined access to the buffer is left out).
\<close>

locale framing = codec_state +
  assumes wait_resume:
      "ready c \<Longrightarrow> decode c buf md = Inr (WaitForData, c', buf', md') \<Longrightarrow> ext \<noteq> [] \<Longrightarrow>
         decode c (buf @ ext) md = decode c' (buf' @ ext) md"
    and done_stable:
      "ready c \<Longrightarrow> decode c buf md = Inr (Done, c', buf', md') \<Longrightarrow>
         decode c (buf @ ext) md = Inr (Done, c', buf' @ ext, md')"
    and throw_stable:
      "ready c \<Longrightarrow> decode c buf md = Inl e \<Longrightarrow> \<forall>u. e \<noteq> Undefined u \<Longrightarrow>
         decode c (buf @ ext) md = Inl e"
begin

lemma onData_throw_stable:
  assumes "onData decode cb d buf s = (Inl e, s')" "ready (d_codec d)" "\<forall>u. e \<noteq> Undefined u"
  shows "onData decode cb d (buf @ ext) s = (Inl e, s')"
proof (cases "decode (d_codec d) buf (fresh_metadata (d_messageType d))")
  case (Inl e')
  with assms show ?thesis by (simp add: onData_throw throw_stable)
next
  case (Inr r)
  obtain st c b md where r: "r = (st, c, b, md)" by (cases r)
  obtain w t where w: "deliver cb md s = (w, t)" by fastforce
  from assms Inr r w show ?thesis
    by (cases st; cases w)
      (auto simp: onData_wait onData_done done_stable split: if_splits)
qed

text \<open>
  Serving a connection: reading the bytes in two pieces, or in one, leads to the same deliveries
  and the same state, as long as no heartbeat asks to go on waiting.
\<close>

lemma dispatch_loop_append:
  assumes "dispatch_loop decode cb d buf s = Some (r, s')"
    and "ready (d_codec d)" "ext \<noteq> []" "never_waits cb" "\<forall>u. r \<noteq> Inl (Undefined u)"
  shows "dispatch_loop decode cb d (buf @ ext) s =
    (case r of Inl e \<Rightarrow> Some (Inl e, s') | Inr (d', buf') \<Rightarrow> dispatch_loop decode cb d' (buf' @ ext) s')"
  using assms(1,2,5)
proof (induction rule: dispatch_loop_induct)
  case (throw d buf s e s')
  then show ?case by (subst dispatch_loop.simps) (simp add: onData_throw_stable)
next
  case (stop d buf s d' buf' s')
  from stop(1) show ?case
  proof (cases rule: onData_cases)
    case (wait c md)
    then have eq: "decode (d_codec d) (buf @ ext) (fresh_metadata (d_messageType d)) =
        decode c (buf' @ ext) (fresh_metadata (d_messageType d))"
      using stop(2) assms(3) by (blast intro: wait_resume)
    have "onData decode cb d (buf @ ext) s = onData decode cb d' (buf' @ ext) s'"
    proof (cases "decode c (buf' @ ext) (fresh_metadata (d_messageType d))")
      case (Inl e)
      with wait eq show ?thesis by (simp add: onData_throw)
    next
      case (Inr r)
      obtain st c2 b md2 where r: "r = (st, c2, b, md2)" by (cases r)
      from wait eq Inr r show ?thesis
        by (cases st) (simp_all add: onData_wait onData_done split: prod.split sum.split)
    qed
    then show ?thesis
      by (subst (1 2) dispatch_loop.simps) simp
  next
    case (heartbeat c md)
    with deliver_never_waits [OF assms(4)] show ?thesis by blast
  next
    case (deliver c md)
    with stop(2) have "decode (d_codec d) (buf @ ext) (fresh_metadata (d_messageType d)) =
        Inr (Done, c, ext, md)" by (simp add: done_stable)
    with deliver assms(3) have "onData decode cb d (buf @ ext) s = (Inr (False, d', ext), s')"
      by (simp add: onData_done)
    with deliver show ?thesis by (subst dispatch_loop.simps) simp
  qed
next
  case (loop d buf s d1 buf1 s1 r s')
  from loop(1) obtain c md where c:
      "decode (d_codec d) buf (fresh_metadata (d_messageType d)) = Inr (Done, c, buf1, md)"
      "deliver cb md s = (Inr False, s1)" "buf1 \<noteq> []" "d1 = idle c d"
    by (cases rule: onData_cases) auto
  have "ready (d_codec d1)" using onData_ready [OF loop(1,4)] .
  moreover have "decode (d_codec d) (buf @ ext) (fresh_metadata (d_messageType d)) =
      Inr (Done, c, buf1 @ ext, md)"
    using loop(4) c(1) by (rule done_stable)
  then have "onData decode cb d (buf @ ext) s = (Inr (False, d1, buf1 @ ext), s1)"
    using c by (simp add: onData_done)
  ultimately show ?case using loop(3,5) by (subst dispatch_loop.simps) simp
qed

end

text \<open>
  Consuming: a decoded message shortens what is left to decode, counting what the codec keeps
  aside.  It is what makes the dispatch loop end.
\<close>

locale consuming = codec_state +
  fixes weight :: "'a \<Rightarrow> nat"
  assumes done_consumes:
    "ready c \<Longrightarrow> md_origin_message md = [] \<Longrightarrow> decode c buf md = Inr (Done, c', buf', md') \<Longrightarrow>
       weight c' + length buf' < weight c + length buf"
begin

lemma dispatch_loop_returns:
  "ready (d_codec d) \<Longrightarrow> \<exists>r. dispatch_loop decode cb d buf s = Some r"
proof (induction "weight (d_codec d) + length buf" arbitrary: d buf s rule: less_induct)
  case less
  obtain o1 s1 where o: "onData decode cb d buf s = (o1, s1)" by fastforce
  show ?case
  proof (cases o1)
    case (Inl e)
    with o show ?thesis by (subst dispatch_loop.simps) simp
  next
    case (Inr x)
    obtain u d1 buf1 where x: "x = (u, d1, buf1)" by (cases x)
    with Inr o have step: "onData decode cb d buf s = (Inr (u, d1, buf1), s1)" by simp
    show ?thesis
    proof (cases u)
      case True
      with step show ?thesis by (subst dispatch_loop.simps) simp
    next
      case False
      with step obtain c md where
        c: "decode (d_codec d) buf (fresh_metadata (d_messageType d)) = Inr (Done, c, buf1, md)"
           "d1 = idle c d"
        by (auto elim: onData_cases)
      from done_consumes [OF less(2) _ c(1)] c(2) onData_ready [OF step less(2)]
      have "\<exists>r. dispatch_loop decode cb d1 buf1 s1 = Some r" by (intro less(1)) simp_all
      with step False show ?thesis by (subst dispatch_loop.simps) simp
    qed
  qed
qed

end

section \<open>The messages in a buffer\<close>

inductive frames ::
  "('c, 'x) decode_fn \<Rightarrow> message_type \<Rightarrow> 'c \<Rightarrow> buffer \<Rightarrow> 'x metadata list \<Rightarrow> 'c \<Rightarrow> buffer \<Rightarrow> bool"
  for decode mt where
  frames_wait:
    "decode c buf (fresh_metadata mt) = Inr (WaitForData, c', buf', md) \<Longrightarrow>
       frames decode mt c buf [] c' buf'"
| frames_last:
    "decode c buf (fresh_metadata mt) = Inr (Done, c', [], md) \<Longrightarrow>
       frames decode mt c buf [md] c' []"
| frames_more:
    "decode c buf (fresh_metadata mt) = Inr (Done, c1, buf1, md) \<Longrightarrow> buf1 \<noteq> [] \<Longrightarrow>
       frames decode mt c1 buf1 mds c' buf' \<Longrightarrow> frames decode mt c buf (md # mds) c' buf'"

fun deliver_all ::
  "('s, 'h, 'x) callbacks \<Rightarrow> 'x metadata list \<Rightarrow> 's \<Rightarrow> unit res \<times> 's" where
  "deliver_all cb [] s = (Inr (), s)"
| "deliver_all cb (md # mds) s =
     (case deliver cb md s of
        (Inl e, s') \<Rightarrow> (Inl e, s')
      | (Inr _, s') \<Rightarrow> deliver_all cb mds s')"

lemma dispatch_loop_frames:
  assumes "dispatch_loop decode cb d buf s = Some (r, s')" "never_waits cb" "r = Inr (d', buf')"
  shows "\<exists>mds. frames decode (d_messageType d) (d_codec d) buf mds (d_codec d') buf'
           \<and> deliver_all cb mds s = (Inr (), s') \<and> d_messageType d' = d_messageType d"
  using assms(1,3)
proof (induction rule: dispatch_loop_induct)
  case (stop d buf s d1 buf1 s1)
  from stop(1) show ?case
  proof (cases rule: onData_cases)
    case (wait c md)
    with stop(2) show ?thesis by (intro exI [of _ "[]"]) (auto intro: frames_wait)
  next
    case (heartbeat c md)
    with deliver_never_waits [OF assms(2)] show ?thesis by blast
  next
    case (deliver c md)
    with stop(2) show ?thesis by (intro exI [of _ "[md]"]) (auto intro: frames_last)
  qed
next
  case (loop d buf s d1 buf1 s1 r s2)
  from loop(1) obtain c md where c:
      "decode (d_codec d) buf (fresh_metadata (d_messageType d)) = Inr (Done, c, buf1, md)"
      "deliver cb md s = (Inr False, s1)" "buf1 \<noteq> []" "d1 = idle c d"
    by (cases rule: onData_cases) auto
  from loop(3,4) obtain mds where
    "frames decode (d_messageType d1) (d_codec d1) buf1 mds (d_codec d') buf'"
    "deliver_all cb mds s1 = (Inr (), s2)" "d_messageType d' = d_messageType d1" by blast
  with c show ?case by (intro exI [of _ "md # mds"]) (auto intro: frames_more)
qed simp

text \<open>
  Conserving: every byte read is in the message delivered, in what the codec keeps aside, or still
  in the buffer, in this order.
\<close>

locale conserving = codec_state +
  fixes pending :: "'a \<Rightarrow> buffer"
  assumes wait_keeps:
      "ready c \<Longrightarrow> md_origin_message md = [] \<Longrightarrow>
         decode c buf md = Inr (WaitForData, c', buf', md') \<Longrightarrow>
         pending c' @ buf' = pending c @ buf"
    and done_keeps:
      "ready c \<Longrightarrow> md_origin_message md = [] \<Longrightarrow>
         decode c buf md = Inr (Done, c', buf', md') \<Longrightarrow>
         md_origin_message md' @ pending c' @ buf' = pending c @ buf"
begin

lemma frames_conserve:
  "frames decode mt c buf mds c' buf' \<Longrightarrow> ready c \<Longrightarrow>
     concat (map md_origin_message mds) @ pending c' @ buf' = pending c @ buf"
proof (induction rule: frames.induct)
  case (frames_wait c buf c' buf' md)
  then show ?case using wait_keeps [OF _ _ frames_wait(1)] by simp
next
  case (frames_last c buf c' md)
  then show ?case using done_keeps [OF _ _ frames_last(1)]
    by simp
next
  case (frames_more c buf c1 buf1 md mds c' buf')
  then show ?case using done_keeps [OF _ _ frames_more(1)] ready_step [OF _ frames_more(1)]
    by simp
qed

end

text \<open>A codec that conserves the bytes and never delivers an empty message consumes.\<close>

locale conserving_nonempty = conserving +
  assumes done_nonempty:
    "ready c \<Longrightarrow> md_origin_message md = [] \<Longrightarrow> decode c buf md = Inr (Done, c', buf', md') \<Longrightarrow>
       md_origin_message md' \<noteq> []"

sublocale conserving_nonempty \<subseteq> consuming decode ready "\<lambda>c. length (pending c)"
proof
  fix c buf md c' buf' md'
  assume a: "ready c" "md_origin_message md = []" "decode c buf md = Inr (Done, c', buf', md')"
  from arg_cong [OF done_keeps [OF a], of length] done_nonempty [OF a]
  show "length (pending c') + length buf' < length (pending c) + length buf"
    by (cases "md_origin_message md'") simp_all
qed

end
