(* ===== verification/Brpc.thy ===== *)
theory Brpc
  imports Decoder
begin

text \<open>
  The bRPC codec: \<^verbatim>\<open>application_protocols/brpc/protocol.h\<close>, \<^verbatim>\<open>protocol.cc\<close>,
  \<^verbatim>\<open>brpc_codec.h\<close> and \<^verbatim>\<open>brpc_codec.cc\<close>.  The generated class of the message
  \<^verbatim>\<open>RpcMeta\<close> is a parameter: \<^verbatim>\<open>parse\<close> gives the object left by
  \<^verbatim>\<open>ParseFromArray\<close>, whose result the codec ignores.  \<^verbatim>\<open>linearize\<close> of more
  bytes than the buffer holds is undefined.
\<close>

section \<open>Header\<close>

definition HEADER_SIZE :: u32 where
  "HEADER_SIZE = 12"

text \<open>\<^verbatim>\<open>MAGIC\<close> reads the characters PRPC as an integer in the byte order of the
  machine, which is little-endian on the platforms the proxy is built for.\<close>

definition MAGIC :: u32 where
  "MAGIC = word_of_nat (be_get (rev (bytes_of_chars ''PRPC'')))"

record brpc_header =
  bh_body_len :: u32
  bh_meta_len :: u32

definition brpc_header_decode :: "buffer \<Rightarrow> brpc_header \<Rightarrow> (bool \<times> brpc_header) res" where
  "brpc_header_decode buffer h =
     (if length buffer < unat HEADER_SIZE then Inr (False, h)
      else bindr (peekBEInt 4 buffer) (\<lambda>body_len.
           bindr (peekBEInt 8 buffer) (\<lambda>meta_len.
             Inr (True, h\<lparr>bh_body_len := body_len, bh_meta_len := meta_len\<rparr>))))"

definition brpc_header_encode :: "brpc_header \<Rightarrow> buffer" where
  "brpc_header_encode h = be_bytes MAGIC @ be_bytes (bh_body_len h) @ be_bytes (bh_meta_len h)"

section \<open>Codec\<close>

datatype brpc_status = B_DecodeHeader | B_DecodePayload | B_DecodeDone | B_WaitForData

record 'm brpc_codec =
  b_decode_status :: brpc_status
  b_messageType :: message_type
  b_header :: brpc_header
  b_meta :: 'm
  b_origin_msg :: "buffer option"

definition brpc_new :: "brpc_header \<Rightarrow> 'm \<Rightarrow> message_type \<Rightarrow> 'm brpc_codec" where
  "brpc_new h m mt = \<lparr>b_decode_status = B_DecodeHeader, b_messageType = mt, b_header = h,
     b_meta = m, b_origin_msg = None\<rparr>"

definition brpc_decodeHeader ::
  "'m brpc_codec \<Rightarrow> buffer \<Rightarrow> (brpc_status \<times> 'm brpc_codec \<times> buffer) res" where
  "brpc_decodeHeader c buffer =
     (if length buffer < unat HEADER_SIZE then Inr (B_WaitForData, c, buffer)
      else bindr (brpc_header_decode buffer (b_header c)) (\<lambda>(ok, h).
        if \<not> ok then Inl (EnvoyException ''brpc header invalid'')
        else Inr (B_DecodePayload, c\<lparr>b_header := h\<rparr>, buffer)))"

definition brpc_decodeBody ::
  "(buffer \<Rightarrow> 'm) \<Rightarrow> 'm brpc_codec \<Rightarrow> buffer \<Rightarrow> (brpc_status \<times> 'm brpc_codec \<times> buffer) res" where
  "brpc_decodeBody parse c buffer =
     (let total = HEADER_SIZE + bh_body_len (b_header c);
          lin = HEADER_SIZE + bh_meta_len (b_header c) in
      if length buffer < unat total then Inr (B_WaitForData, c, buffer)
      else if length buffer < unat lin then Inl (Undefined ''linearize'')
      else if unat lin < unat HEADER_SIZE then Inl (Undefined ''meta beyond linearized bytes'')
      else Inr (B_DecodeDone,
             c\<lparr>b_meta := parse (take (unat (bh_meta_len (b_header c))) (drop (unat HEADER_SIZE) buffer)),
               b_origin_msg := Some (take (unat total) buffer)\<rparr>,
             drop (unat total) buffer))"

definition brpc_handleState ::
  "(buffer \<Rightarrow> 'm) \<Rightarrow> 'm brpc_codec \<Rightarrow> buffer \<Rightarrow> (brpc_status \<times> 'm brpc_codec \<times> buffer) res" where
  "brpc_handleState parse c buffer =
     (case b_decode_status c of
        B_DecodeHeader \<Rightarrow> brpc_decodeHeader c buffer
      | B_DecodePayload \<Rightarrow> brpc_decodeBody parse c buffer
      | _ \<Rightarrow> Inl (Panic ''not reached''))"

definition brpc_rank :: "brpc_status \<Rightarrow> nat" where
  "brpc_rank st = (case st of B_DecodeHeader \<Rightarrow> 2 | B_DecodePayload \<Rightarrow> 1 | _ \<Rightarrow> 0)"

lemma brpc_handleState_rank:
  "brpc_handleState parse c buffer = Inr (st, c', buffer') \<Longrightarrow>
     brpc_rank st < brpc_rank (b_decode_status c)"
  by (auto simp: brpc_handleState_def brpc_decodeHeader_def brpc_decodeBody_def brpc_rank_def
      Let_def bindr_eq_Inr split: brpc_status.splits if_splits prod.splits)

text \<open>The loop of \<^verbatim>\<open>BrpcCodec::decode\<close>: the status of every step, also that of a
  step that needs more data, is stored in the codec.\<close>

function brpc_loop ::
  "(buffer \<Rightarrow> 'm) \<Rightarrow> 'm brpc_codec \<Rightarrow> buffer \<Rightarrow> (decode_status \<times> 'm brpc_codec \<times> buffer) res" where
  "brpc_loop parse c buffer =
     (if b_decode_status c = B_DecodeDone then Inr (Done, c, buffer)
      else bindr (brpc_handleState parse c buffer) (\<lambda>(st, c', buffer').
        let c'' = c'\<lparr>b_decode_status := st\<rparr> in
        if st = B_WaitForData then Inr (WaitForData, c'', buffer')
        else brpc_loop parse c'' buffer'))"
  by auto
termination
  by (relation "measure (\<lambda>(p, c, b). brpc_rank (b_decode_status c))")
    (auto dest: brpc_handleState_rank)

declare brpc_loop.simps [simp del]

definition brpc_toMetadata :: "'m brpc_codec \<Rightarrow> 'x metadata \<Rightarrow> ('m brpc_codec \<times> 'x metadata) res" where
  "brpc_toMetadata c md =
     (case b_origin_msg c of
        None \<Rightarrow> Inl (Undefined ''origin_msg_ is null'')
      | Some msg \<Rightarrow> Inr (c\<lparr>b_origin_msg := Some []\<rparr>,
                        md\<lparr>md_origin_message := md_origin_message md @ msg\<rparr>))"

definition brpc_decode :: "(buffer \<Rightarrow> 'm) \<Rightarrow> ('m brpc_codec, 'x) decode_fn" where
  "brpc_decode parse c buffer md =
     bindr (brpc_loop parse (c\<lparr>b_messageType := md_message_type md\<rparr>) buffer) (\<lambda>(st, c1, buffer').
       if st = WaitForData then Inr (WaitForData, c1, buffer', md)
       else bindr (brpc_toMetadata c1 md) (\<lambda>(c2, md').
         Inr (Done, c2\<lparr>b_decode_status := B_DecodeHeader\<rparr>, buffer', md')))"

definition brpc_encode :: "'x metadata \<Rightarrow> mutation \<Rightarrow> buffer \<Rightarrow> buffer res" where
  "brpc_encode md mut buffer = Inr buffer"

definition brpc_onError :: "'x metadata \<Rightarrow> error \<Rightarrow> buffer \<Rightarrow> buffer res" where
  "brpc_onError md err buffer = Inr buffer"

lemmas brpc_defs = brpc_decode_def brpc_handleState_def brpc_decodeHeader_def brpc_decodeBody_def
  brpc_header_decode_def brpc_toMetadata_def HEADER_SIZE_def Let_def

section \<open>The loop in closed form\<close>

lemma brpc_decodeBody_cases:
  "brpc_decodeBody parse c buf = Inr (st, c', buf') \<Longrightarrow>
     st = B_WaitForData \<and> c' = c \<and> buf' = buf \<or>
     st = B_DecodeDone \<and> (\<exists>m. b_origin_msg c' = Some m \<and> m @ buf' = buf)"
  by (auto simp: brpc_decodeBody_def Let_def split: if_splits)

lemma brpc_loop_done: "b_decode_status c = B_DecodeDone \<Longrightarrow> brpc_loop parse c buf = Inr (Done, c, buf)"
  by (subst brpc_loop.simps) simp

lemma brpc_loop_payload:
  assumes "b_decode_status c = B_DecodePayload"
  shows "brpc_loop parse c buf = bindr (brpc_decodeBody parse c buf) (\<lambda>(st, c', buf').
     Inr (if st = B_WaitForData then WaitForData else Done, c'\<lparr>b_decode_status := st\<rparr>, buf'))"
proof (cases "brpc_decodeBody parse c buf")
  case (Inl e)
  with assms show ?thesis by (subst brpc_loop.simps) (simp add: brpc_handleState_def)
next
  case (Inr x)
  obtain st c' buf' where x: "x = (st, c', buf')" by (cases x)
  with Inr assms brpc_decodeBody_cases [of parse c buf st c' buf'] show ?thesis
    by (subst brpc_loop.simps)
      (auto simp: brpc_handleState_def Let_def brpc_loop_done)
qed

lemma brpc_loop_header:
  assumes "b_decode_status c = B_DecodeHeader"
  shows "brpc_loop parse c buf =
    (if length buf < 12 then Inr (WaitForData, c\<lparr>b_decode_status := B_WaitForData\<rparr>, buf)
     else bindr (peekBEInt 4 buf) (\<lambda>body_len. bindr (peekBEInt 8 buf) (\<lambda>meta_len.
       brpc_loop parse (c\<lparr>b_header := (b_header c)\<lparr>bh_body_len := body_len, bh_meta_len := meta_len\<rparr>,
         b_decode_status := B_DecodePayload\<rparr>) buf)))"
  using assms
  by (subst brpc_loop.simps)
    (simp add: brpc_handleState_def brpc_decodeHeader_def brpc_header_decode_def HEADER_SIZE_def
      bindr_def Let_def split: sum.split)

lemma brpc_loop_other:
  "b_decode_status c = B_WaitForData \<Longrightarrow> brpc_loop parse c buf = Inl (Panic ''not reached'')"
  by (subst brpc_loop.simps) (simp add: brpc_handleState_def)

lemma brpc_loop_payload_outcome:
  assumes "brpc_loop parse c buf = Inr (st, c', buf')" "b_decode_status c = B_DecodePayload"
  shows "st = WaitForData \<and> b_decode_status c' = B_WaitForData \<and> buf' = buf \<or>
         st = Done \<and> (\<exists>m. b_origin_msg c' = Some m \<and> m @ buf' = buf)"
  using assms brpc_decodeBody_cases [of parse c buf]
  by (fastforce simp: brpc_loop_payload bindr_eq_Inr split: if_splits)

lemma brpc_loop_outcome:
  assumes "brpc_loop parse c buf = Inr (st, c', buf')" "b_decode_status c \<noteq> B_DecodeDone"
  shows "st = WaitForData \<and> b_decode_status c' = B_WaitForData \<and> buf' = buf \<or>
         st = Done \<and> (\<exists>m. b_origin_msg c' = Some m \<and> m @ buf' = buf)"
proof (cases "b_decode_status c")
  case B_DecodeHeader
  with assms show ?thesis
    by (auto simp: brpc_loop_header bindr_eq_Inr split: if_splits
        dest!: brpc_loop_payload_outcome)
next
  case B_DecodePayload
  with assms(1) show ?thesis by (rule brpc_loop_payload_outcome)
qed (use assms brpc_loop_other [of c parse buf] in auto)

definition brpc_ready :: "'m brpc_codec \<Rightarrow> bool" where
  "brpc_ready c \<longleftrightarrow> b_decode_status c \<noteq> B_DecodeDone"

interpretation brpc: conserving "brpc_decode parse" brpc_ready "\<lambda>_. []" for parse
proof (unfold_locales, goal_cases)
  case (1 c buf md st c' buf' md')
  then show ?case using brpc_loop_outcome [of parse "c\<lparr>b_messageType := md_message_type md\<rparr>" buf]
    by (auto simp: brpc_decode_def brpc_ready_def bindr_eq_Inr split: if_splits)
next
  case (2 c md buf c' buf' md')
  then show ?case using brpc_loop_outcome [of parse "c\<lparr>b_messageType := md_message_type md\<rparr>" buf]
    by (auto simp: brpc_decode_def brpc_ready_def bindr_eq_Inr split: if_splits)
next
  case (3 c md buf c' buf' md')
  then show ?case using brpc_loop_outcome [of parse "c\<lparr>b_messageType := md_message_type md\<rparr>" buf]
    by (auto simp: brpc_decode_def brpc_ready_def brpc_toMetadata_def bindr_eq_Inr
        split: if_splits option.splits)
qed

section \<open>Properties\<close>

text \<open>
  C35: a bRPC message that arrives whole is cut out of the buffer exactly: header and body become
  the message, the bytes after it stay, and the codec is ready for the next one.
\<close>

theorem brpc_decode_frame:
  fixes body_len meta_len :: u32
  assumes "b_decode_status c = B_DecodeHeader" "length magic = 4"
    and "unat body_len + 12 < 2 ^ 32" "length body = unat body_len" "unat meta_len \<le> unat body_len"
  shows "\<exists>c'. brpc_decode parse c (magic @ be_bytes body_len @ be_bytes meta_len @ body @ rest) md =
      Inr (Done, c', rest, md\<lparr>md_origin_message := md_origin_message md
             @ magic @ be_bytes body_len @ be_bytes meta_len @ body\<rparr>)
    \<and> b_decode_status c' = B_DecodeHeader
    \<and> b_meta c' = parse (take (unat meta_len) body)"
proof -
  let ?buf = "magic @ be_bytes body_len @ be_bytes meta_len @ body @ rest"
  have p4: "peekBEInt 4 ?buf = Inr body_len"
    using assms(2) by (intro peekBEInt_at) simp_all
  have p8: "peekBEInt 8 ?buf = Inr meta_len"
    using assms(2) by (intro peekBEInt_at) simp_all
  have tot: "unat (12 + body_len) = 12 + unat body_len" "unat (12 + meta_len) = 12 + unat meta_len"
    using assms(3,5) by (simp_all add: unat_word_ariths)
  show ?thesis
    using assms tot
    by (simp add: brpc_decode_def brpc_loop_header brpc_loop_payload p4 p8 brpc_decodeBody_def
        Let_def HEADER_SIZE_def brpc_toMetadata_def)
qed

theorem brpc_decode_frame_witness:
  "\<exists>c'. brpc_decode id (brpc_new \<lparr>bh_body_len = 0, bh_meta_len = 0\<rparr> [] Request)
       ([80, 82, 80, 67] @ be_bytes (3 :: u32) @ be_bytes (1 :: u32) @ [8, 1, 2] @ [9])
       (new_metadata :: unit metadata) =
     Inr (Done, c', [9], new_metadata\<lparr>md_origin_message := md_origin_message (new_metadata :: unit metadata)
       @ [80, 82, 80, 67] @ be_bytes (3 :: u32) @ be_bytes (1 :: u32) @ [8, 1, 2]\<rparr>)
     \<and> b_decode_status c' = B_DecodeHeader \<and> b_meta c' = id (take (unat (1 :: u32)) [8, 1, 2])"
  by (rule brpc_decode_frame) (simp_all add: brpc_new_def)

text \<open>
  C36: the bRPC codec does not survive a message that arrives in pieces: when it asks for more data
  the status it stored makes the next call, whatever data it is given, end in the
  \<^verbatim>\<open>PANIC\<close> of \<^verbatim>\<open>handleState\<close>.
\<close>

theorem brpc_wait_then_panic:
  assumes "b_decode_status c \<noteq> B_DecodeDone"
    and "brpc_decode parse c buf md = Inr (WaitForData, c', buf', md')"
  shows "brpc_decode parse c' next_buf md2 = Inl (Panic ''not reached'')"
proof -
  from assms have "b_decode_status c' = B_WaitForData"
    using brpc_loop_outcome [of parse "c\<lparr>b_messageType := md_message_type md\<rparr>" buf]
    by (auto simp: brpc_decode_def bindr_eq_Inr split: if_splits)
  then show ?thesis by (simp add: brpc_decode_def brpc_loop_other)
qed

theorem brpc_wait_then_panic_witness:
  "brpc_decode id (brpc_new \<lparr>bh_body_len = 0, bh_meta_len = 0\<rparr> [] Request) [80, 82, 80, 67]
     (new_metadata :: unit metadata) =
     Inr (WaitForData, (brpc_new \<lparr>bh_body_len = 0, bh_meta_len = 0\<rparr> [] Request)
       \<lparr>b_messageType := Request, b_decode_status := B_WaitForData\<rparr>, [80, 82, 80, 67], new_metadata)
   \<and> brpc_decode id ((brpc_new \<lparr>bh_body_len = 0, bh_meta_len = 0\<rparr> [] Request)
       \<lparr>b_messageType := Request, b_decode_status := B_WaitForData\<rparr>)
       [80, 82, 80, 67, 0, 0, 0, 0, 0, 0, 0, 0] (new_metadata :: unit metadata) =
     Inl (Panic ''not reached'')"
proof -
  let ?c = "brpc_new \<lparr>bh_body_len = 0, bh_meta_len = 0\<rparr> [] Request"
  have st: "b_decode_status ?c \<noteq> B_DecodeDone" by (simp add: brpc_new_def)
  have w: "brpc_decode id ?c [80, 82, 80, 67] (new_metadata :: unit metadata) =
     Inr (WaitForData, ?c\<lparr>b_messageType := Request, b_decode_status := B_WaitForData\<rparr>,
       [80, 82, 80, 67], new_metadata)"
    by (simp add: brpc_decode_def brpc_loop_header brpc_new_def new_metadata_def)
  from w brpc_wait_then_panic [OF st w] show ?thesis by blast
qed

text \<open>
  C37: the length check of the bRPC codec is done in 32 bits.  A header that announces a body of
  \<^verbatim>\<open>2^32 - 12\<close> bytes makes the frame size wrap to zero: a message is delivered
  without a byte being consumed, and the dispatch loop of the connection never returns.
\<close>

theorem brpc_wrapped_length_diverges:
  fixes cb :: "('s, 'h, 'x) callbacks" and parse :: "buffer \<Rightarrow> 'm"
  assumes "\<And>md s. \<exists>s'. deliver cb md s = (Inr False, s')"
    and "length magic = 4" "b_decode_status (d_codec d) = B_DecodeHeader"
  shows "dispatch_loop (brpc_decode parse) cb d
           (magic @ be_bytes (- 12 :: u32) @ be_bytes (0 :: u32)) s = None"
proof (rule dispatch_loop_diverges
    [where I = "\<lambda>d buf s. b_decode_status (d_codec d) = B_DecodeHeader
       \<and> buf = magic @ be_bytes (- 12 :: u32) @ be_bytes (0 :: u32)"])
  fix d :: "('m brpc_codec, 'h, 'x) decoder" and buf :: buffer and s :: 's
  let ?buf = "magic @ be_bytes (- 12 :: u32) @ be_bytes (0 :: u32)"
  assume I: "b_decode_status (d_codec d) = B_DecodeHeader \<and> buf = ?buf"
  have p4: "peekBEInt 4 ?buf = Inr (- 12 :: u32)"
    using assms(2) by (intro peekBEInt_at) simp_all
  have p8: "peekBEInt 8 ?buf = Inr (0 :: u32)"
    using assms(2) by (intro peekBEInt_at [where post = "[]"]) simp_all
  have "\<exists>c' md'. brpc_decode parse (d_codec d) buf (fresh_metadata (d_messageType d) :: 'x metadata) =
      Inr (Done, c', buf, md') \<and> b_decode_status c' = B_DecodeHeader"
    using I assms(2)
    by (simp add: brpc_decode_def brpc_loop_header brpc_loop_payload p4 p8 brpc_decodeBody_def
        Let_def HEADER_SIZE_def brpc_toMetadata_def)
  then obtain c' md' where dec: "brpc_decode parse (d_codec d) buf
        (fresh_metadata (d_messageType d) :: 'x metadata) =
      Inr (Done, c', buf, md')" "b_decode_status c' = B_DecodeHeader" by blast
  obtain s' where "deliver cb md' s = (Inr False, s')" using assms(1) by blast
  moreover have "magic \<noteq> []" using assms(2) by auto
  ultimately show "\<exists>d' buf' s'. onData (brpc_decode parse) cb d buf s = (Inr (False, d', buf'), s') \<and>
      b_decode_status (d_codec d') = B_DecodeHeader \<and> buf' = ?buf"
    using dec I by (auto simp: onData_done)
qed (use assms in simp)

theorem brpc_wrapped_length_diverges_witness:
  "dispatch_loop (brpc_decode id) (recorder :: (unit metadata list, unit, unit) callbacks)
     (new_decoder (brpc_new \<lparr>bh_body_len = 0, bh_meta_len = 0\<rparr> [] Request) Request)
     ([80, 82, 80, 67] @ be_bytes (- 12 :: u32) @ be_bytes (0 :: u32)) [] = None"
  by (rule brpc_wrapped_length_diverges) (simp_all add: new_decoder_def brpc_new_def)

text \<open>
  C38: the two lengths survive a write and a read of the header, but the four bytes written first
  are CPRP, the magic number of the protocol reversed.
\<close>

theorem brpc_header_roundtrip:
  "brpc_header_decode (brpc_header_encode h @ rest) h0 =
     Inr (True, h0\<lparr>bh_body_len := bh_body_len h, bh_meta_len := bh_meta_len h\<rparr>)
   \<and> chars_of_bytes (take 4 (brpc_header_encode h @ rest)) = ''CPRP''"
proof -
  have p4: "peekBEInt 4 (brpc_header_encode h @ rest) = Inr (bh_body_len h)"
    by (intro peekBEInt_at) (simp_all add: brpc_header_encode_def)
  have p8: "peekBEInt 8 (brpc_header_encode h @ rest) = Inr (bh_meta_len h)"
    by (intro peekBEInt_at) (simp_all add: brpc_header_encode_def)
  have m: "MAGIC = 0x43505250"
    by (simp add: MAGIC_def be_get_def bytes_of_chars_def)
  have "be_bytes MAGIC = [67, 80, 82, 80]"
    unfolding m by (simp add: be_bytes_def)
  then have "chars_of_bytes (be_bytes MAGIC) = ''CPRP''"
    by (simp add: chars_of_bytes_def char_of_def bit_Suc_0_iff)
  with p4 p8 show ?thesis
    by (simp add: brpc_header_decode_def HEADER_SIZE_def brpc_header_encode_def)
qed

end
