(* ===== verification/Trpc.thy ===== *)
theory Trpc
  imports Decoder
begin

text \<open>
  The tRPC codec: \<^verbatim>\<open>application_protocols/trpc\<close>, that is the fixed header and the
  \<^verbatim>\<open>Protocol\<close> template (\<^verbatim>\<open>protocol.h\<close>, \<^verbatim>\<open>protocol.cc\<close>), the frame
  checker (\<^verbatim>\<open>codec_checker.h\<close>, \<^verbatim>\<open>codec_checker.cc\<close>), the codec
  (\<^verbatim>\<open>trpc_codec.h\<close>, \<^verbatim>\<open>trpc_codec.cc\<close>) and the host name of
  \<^verbatim>\<open>metadata.cc\<close>.

  The messages of \<^verbatim>\<open>trpc.proto\<close> are records.  The code protobuf generates for them is
  the parameter \<^verbatim>\<open>trpc_pb\<close>: \<^verbatim>\<open>ParseFromString\<close> (None when it returns
  false) and \<^verbatim>\<open>SerializeAsString\<close>, whose length is \<^verbatim>\<open>ByteSizeLong\<close>.
\<close>

section \<open>Messages\<close>

definition TRPC_MAGIC_VALUE :: u16 where "TRPC_MAGIC_VALUE = 0x930"

definition TRPC_STREAM_FRAME :: byte where "TRPC_STREAM_FRAME = 1"

definition TRPC_UNARY :: byte where "TRPC_UNARY = 0"
definition TRPC_STREAM_FRAME_INIT :: byte where "TRPC_STREAM_FRAME_INIT = 1"
definition TRPC_STREAM_FRAME_DATA :: byte where "TRPC_STREAM_FRAME_DATA = 2"
definition TRPC_STREAM_FRAME_FEEDBACK :: byte where "TRPC_STREAM_FRAME_FEEDBACK = 3"
definition TRPC_STREAM_FRAME_CLOSE :: byte where "TRPC_STREAM_FRAME_CLOSE = 4"

lemmas frame_type_defs = TRPC_UNARY_def TRPC_STREAM_FRAME_INIT_def TRPC_STREAM_FRAME_DATA_def
  TRPC_STREAM_FRAME_FEEDBACK_def TRPC_STREAM_FRAME_CLOSE_def

type_synonym trans_info = "(string, string) std_map"

record trpc_request =
  rq_version :: u32
  rq_call_type :: u32
  rq_request_id :: u32
  rq_timeout :: u32
  rq_caller :: string
  rq_callee :: string
  rq_func :: string
  rq_message_type :: u32
  rq_trans_info :: trans_info
  rq_content_type :: u32
  rq_content_encoding :: u32
  rq_attachment_size :: u32

record trpc_response =
  rs_version :: u32
  rs_call_type :: u32
  rs_request_id :: u32
  rs_ret :: int
  rs_func_ret :: int
  rs_error_msg :: string
  rs_message_type :: u32
  rs_trans_info :: trans_info
  rs_content_type :: u32
  rs_content_encoding :: u32
  rs_attachment_size :: u32

record init_request_meta =
  ir_caller :: string
  ir_callee :: string
  ir_func :: string
  ir_message_type :: u32
  ir_trans_info :: trans_info

record init_response_meta =
  is_ret :: int
  is_error_msg :: string

record stream_init =
  si_request_meta :: init_request_meta
  si_response_meta :: init_response_meta
  si_init_window_size :: u32
  si_content_type :: u32
  si_content_encoding :: u32

record stream_close =
  sc_close_type :: int
  sc_ret :: int
  sc_msg :: string
  sc_message_type :: u32
  sc_trans_info :: trans_info
  sc_func_ret :: int

text \<open>A message as its constructor leaves it.\<close>

definition empty_request :: trpc_request where
  "empty_request = \<lparr>rq_version = 0, rq_call_type = 0, rq_request_id = 0, rq_timeout = 0,
     rq_caller = [], rq_callee = [], rq_func = [], rq_message_type = 0, rq_trans_info = [],
     rq_content_type = 0, rq_content_encoding = 0, rq_attachment_size = 0\<rparr>"

definition empty_response :: trpc_response where
  "empty_response = \<lparr>rs_version = 0, rs_call_type = 0, rs_request_id = 0, rs_ret = 0,
     rs_func_ret = 0, rs_error_msg = [], rs_message_type = 0, rs_trans_info = [],
     rs_content_type = 0, rs_content_encoding = 0, rs_attachment_size = 0\<rparr>"

definition empty_init :: stream_init where
  "empty_init = \<lparr>si_request_meta = \<lparr>ir_caller = [], ir_callee = [], ir_func = [],
       ir_message_type = 0, ir_trans_info = []\<rparr>,
     si_response_meta = \<lparr>is_ret = 0, is_error_msg = []\<rparr>,
     si_init_window_size = 0, si_content_type = 0, si_content_encoding = 0\<rparr>"

definition empty_close :: stream_close where
  "empty_close = \<lparr>sc_close_type = 0, sc_ret = 0, sc_msg = [], sc_message_type = 0,
     sc_trans_info = [], sc_func_ret = 0\<rparr>"

record trpc_pb =
  parse_request :: "buffer \<Rightarrow> trpc_request option"
  ser_request :: "trpc_request \<Rightarrow> buffer"
  parse_response :: "buffer \<Rightarrow> trpc_response option"
  ser_response :: "trpc_response \<Rightarrow> buffer"
  parse_init :: "buffer \<Rightarrow> stream_init option"
  ser_init :: "stream_init \<Rightarrow> buffer"
  parse_close :: "buffer \<Rightarrow> stream_close option"

section \<open>Fixed header\<close>

definition PREFIX_SPACE :: nat where "PREFIX_SPACE = 16"

record fixed_header =
  fh_magic_value :: u16
  fh_data_frame_type :: byte
  fh_stream_frame_type :: byte
  fh_data_frame_size :: u32
  fh_pb_header_size :: u16
  fh_stream_id :: u32
  fh_reserved :: buffer

definition new_fixed_header :: fixed_header where
  "new_fixed_header = \<lparr>fh_magic_value = TRPC_MAGIC_VALUE, fh_data_frame_type = 0,
     fh_stream_frame_type = 0, fh_data_frame_size = 0, fh_pb_header_size = 0,
     fh_stream_id = 0, fh_reserved = [0, 0]\<rparr>"

text \<open>\<^verbatim>\<open>TrpcFixedHeader::decode\<close>: on another magic number only that field of the
  header has been written.\<close>

definition fixed_header_decode ::
  "buffer \<Rightarrow> bool \<Rightarrow> fixed_header \<Rightarrow> (bool \<times> fixed_header \<times> buffer) res" where
  "fixed_header_decode buff drain h =
     (if length buff < PREFIX_SPACE then Inr (False, h, buff)
      else bindr (peekBEInt 0 buff) (\<lambda>magic.
        if magic \<noteq> TRPC_MAGIC_VALUE then Inr (False, h\<lparr>fh_magic_value := magic\<rparr>, buff)
        else bindr (peekBEInt 2 buff) (\<lambda>dft.
             bindr (peekBEInt 3 buff) (\<lambda>sft.
             bindr (peekBEInt 4 buff) (\<lambda>size.
             bindr (peekBEInt 8 buff) (\<lambda>hsize.
             bindr (peekBEInt 10 buff) (\<lambda>sid.
             bindr (copyOut 14 2 buff) (\<lambda>res.
               Inr (True,
                 h\<lparr>fh_magic_value := magic, fh_data_frame_type := dft, fh_stream_frame_type := sft,
                   fh_data_frame_size := size, fh_pb_header_size := hsize, fh_stream_id := sid,
                   fh_reserved := res\<rparr>,
                 if drain then drop 16 buff else buff)))))))))"

definition fixed_header_encode :: "fixed_header \<Rightarrow> buffer" where
  "fixed_header_encode h = be_bytes (fh_magic_value h) @ be_bytes (fh_data_frame_type h)
     @ be_bytes (fh_stream_frame_type h) @ be_bytes (fh_data_frame_size h)
     @ be_bytes (fh_pb_header_size h) @ be_bytes (fh_stream_id h) @ fh_reserved h"

definition getHeaderSize :: "fixed_header \<Rightarrow> u32" where
  "getHeaderSize h = ucast (fh_pb_header_size h) + 16"

definition getPayloadSize :: "fixed_header \<Rightarrow> u32" where
  "getPayloadSize h = fh_data_frame_size h - getHeaderSize h"

section \<open>The Protocol template\<close>

text \<open>\<^verbatim>\<open>Protocol<T>\<close>: the serialized header of type T is an argument of the
  operations through its parser and serializer.\<close>

record 'h protocol =
  pr_fixed_header :: fixed_header
  pr_protocol_header :: 'h
  pr_body :: buffer

definition protocol_decode ::
  "(buffer \<Rightarrow> 'h option) \<Rightarrow> buffer \<Rightarrow> 'h protocol \<Rightarrow> (bool \<times> 'h protocol \<times> buffer) res" where
  "protocol_decode parse buff p =
     bindr (fixed_header_decode buff True (pr_fixed_header p)) (\<lambda>(ok, fh, buff1).
       let p1 = p\<lparr>pr_fixed_header := fh\<rparr> in
       if \<not> ok then Inr (False, p1, buff1)
       else if length buff < unat (fh_data_frame_size fh) then Inr (False, p1, buff1)
       else bindr (copyOut PREFIX_SPACE (unat (fh_pb_header_size fh)) buff1) (\<lambda>header_raw.
         let buff2 = drop (unat (fh_pb_header_size fh)) buff1 in
         case parse header_raw of
           None \<Rightarrow> Inr (False, p1, buff2)
         | Some hdr \<Rightarrow>
             let n = unat (getPayloadSize fh) in
             Inr (True, p1\<lparr>pr_protocol_header := hdr, pr_body := pr_body p @ take n buff2\<rparr>,
                  drop n buff2)))"

definition protocol_encode :: "('h \<Rightarrow> buffer) \<Rightarrow> 'h protocol \<Rightarrow> 'h protocol \<times> buffer" where
  "protocol_encode ser p =
     (let fh1 = (pr_fixed_header p)\<lparr>fh_magic_value := TRPC_MAGIC_VALUE,
            fh_pb_header_size := word_of_nat (length (ser (pr_protocol_header p)))\<rparr>;
          fh2 = fh1\<lparr>fh_data_frame_size := getHeaderSize fh1 + word_of_nat (length (pr_body p))\<rparr>
      in (p\<lparr>pr_fixed_header := fh2\<rparr>,
          fixed_header_encode fh2 @ ser (pr_protocol_header p) @ pr_body p))"

definition mutateHeader ::
  "(buffer \<Rightarrow> 'h option) \<Rightarrow> ('h \<Rightarrow> buffer) \<Rightarrow> (mutation \<Rightarrow> 'h \<Rightarrow> 'h) \<Rightarrow> buffer \<Rightarrow> mutation
   \<Rightarrow> fixed_header \<Rightarrow> (bool \<times> buffer) res" where
  "mutateHeader parse ser assign_trans buff mut fh0 =
     bindr (fixed_header_decode buff True fh0) (\<lambda>(ok, fh, buff1).
       if \<not> ok then Inr (False, buff1)
       else if length buff < unat (fh_data_frame_size fh) then Inr (False, buff1)
       else bindr (copyOut 0 (unat (fh_pb_header_size fh)) buff1) (\<lambda>header_raw.
         let buff2 = drop (unat (fh_pb_header_size fh)) buff1 in
         case parse header_raw of
           None \<Rightarrow> Inr (False, buff2)
         | Some hdr \<Rightarrow>
             let n = unat (getPayloadSize fh);
                 body = take n buff2;
                 buff3 = drop n buff2;
                 hdr' = assign_trans mut hdr;
                 fh1 = fh\<lparr>fh_pb_header_size := word_of_nat (length (ser hdr'))\<rparr>;
                 fh2 = fh1\<lparr>fh_data_frame_size := getHeaderSize fh1 + word_of_nat (length body)\<rparr>
             in Inr (True, buff3 @ fixed_header_encode fh2 @ ser hdr' @ body)))"

definition request_assign_trans :: "mutation \<Rightarrow> trpc_request \<Rightarrow> trpc_request" where
  "request_assign_trans mut hdr =
     hdr\<lparr>rq_trans_info := foldl (\<lambda>t kv. map_assign (fst kv) (snd kv) t) (rq_trans_info hdr) mut\<rparr>"

definition response_assign_trans :: "mutation \<Rightarrow> trpc_response \<Rightarrow> trpc_response" where
  "response_assign_trans mut hdr =
     hdr\<lparr>rs_trans_info := foldl (\<lambda>t kv. map_assign (fst kv) (snd kv) t) (rs_trans_info hdr) mut\<rparr>"

section \<open>Codec state\<close>

datatype stage = kDecodeFixedHeader | kDecodeUnaryProtocolHeader | KDecodeStreamFrame
  | kDecodePayload | kDecodeDone | kWaitForData

record trpc_codec =
  t_decode_stage :: stage
  t_total_size :: u32
  t_protocol_header_size :: u16
  t_fixed_header :: "fixed_header option"
  t_requestHeader :: trpc_request
  t_responseHeader :: trpc_response
  t_streamInitMeta :: stream_init
  t_streamCloseMeta :: stream_close
  t_origin_msg :: "buffer option"
  t_messageType :: message_type

definition trpc_new :: trpc_codec where
  "trpc_new = \<lparr>t_decode_stage = kDecodeFixedHeader, t_total_size = 0, t_protocol_header_size = 0,
     t_fixed_header = None, t_requestHeader = empty_request, t_responseHeader = empty_response,
     t_streamInitMeta = empty_init, t_streamCloseMeta = empty_close, t_origin_msg = None,
     t_messageType = Request\<rparr>"

section \<open>The frame checker and its callbacks\<close>

definition onFixedHeaderDecoded :: "fixed_header \<Rightarrow> trpc_codec \<Rightarrow> trpc_codec" where
  "onFixedHeaderDecoded fh c = c\<lparr>t_fixed_header := Some fh\<rparr>"

definition onUnaryHeader :: "trpc_pb \<Rightarrow> buffer \<Rightarrow> trpc_codec \<Rightarrow> bool \<times> trpc_codec" where
  "onUnaryHeader pb header_raw c =
     (if t_messageType c = Request then
        (case parse_request pb header_raw of
           Some h \<Rightarrow> (True, c\<lparr>t_requestHeader := h\<rparr>) | None \<Rightarrow> (False, c))
      else
        (case parse_response pb header_raw of
           Some h \<Rightarrow> (True, c\<lparr>t_responseHeader := h\<rparr>) | None \<Rightarrow> (False, c)))"

definition onStreamFrame :: "trpc_pb \<Rightarrow> buffer \<Rightarrow> trpc_codec \<Rightarrow> (bool \<times> trpc_codec) res" where
  "onStreamFrame pb header_raw c =
     (case t_fixed_header c of
        None \<Rightarrow> Inl (Undefined ''fixed_header_ is null'')
      | Some fh \<Rightarrow>
          (let ft = fh_stream_frame_type fh in
           if ft = TRPC_STREAM_FRAME_INIT then
             (case parse_init pb header_raw of
                Some h \<Rightarrow> Inr (True, c\<lparr>t_streamInitMeta := h\<rparr>) | None \<Rightarrow> Inr (False, c))
           else if ft = TRPC_STREAM_FRAME_CLOSE then
             (case parse_close pb header_raw of
                Some h \<Rightarrow> Inr (True, c\<lparr>t_streamCloseMeta := h\<rparr>) | None \<Rightarrow> Inr (False, c))
           else if ft = TRPC_STREAM_FRAME_DATA \<or> ft = TRPC_STREAM_FRAME_FEEDBACK then Inr (True, c)
           else Inl (Panic ''not reached'')))"

definition onCompleted :: "buffer \<Rightarrow> trpc_codec \<Rightarrow> trpc_codec" where
  "onCompleted msg c = c\<lparr>t_origin_msg := Some msg\<rparr>"

definition decodeFixedHeader :: "trpc_codec \<Rightarrow> buffer \<Rightarrow> (stage \<times> trpc_codec \<times> buffer) res" where
  "decodeFixedHeader c buffer =
     (if length buffer < PREFIX_SPACE then Inr (kWaitForData, c, buffer)
      else bindr (fixed_header_decode buffer False new_fixed_header) (\<lambda>(ok, fh, buffer').
        if \<not> ok then Inl (EnvoyException ''protocol invalid'')
        else
          let c1 = c\<lparr>t_total_size := fh_data_frame_size fh,
                t_protocol_header_size := fh_pb_header_size fh\<rparr>;
              c2 = onFixedHeaderDecoded fh c1
          in if fh_stream_frame_type fh = TRPC_UNARY then
               Inr (kDecodeUnaryProtocolHeader, c2, buffer')
             else Inr (KDecodeStreamFrame, c2, buffer')))"

definition decodeUnaryProtocolHeader ::
  "trpc_pb \<Rightarrow> trpc_codec \<Rightarrow> buffer \<Rightarrow> (stage \<times> trpc_codec \<times> buffer) res" where
  "decodeUnaryProtocolHeader pb c buffer =
     (if length buffer < PREFIX_SPACE + unat (t_protocol_header_size c) then
        Inr (kWaitForData, c, buffer)
      else bindr (copyOut PREFIX_SPACE (unat (t_protocol_header_size c)) buffer) (\<lambda>header_raw.
        case onUnaryHeader pb header_raw c of
          (ok, c') \<Rightarrow>
            if \<not> ok then Inl (EnvoyException ''parse header failed'')
            else Inr (kDecodePayload, c', buffer)))"

text \<open>\<^verbatim>\<open>frame_size\<close> is computed in 32 bits.\<close>

definition decodeStreamFrame ::
  "trpc_pb \<Rightarrow> trpc_codec \<Rightarrow> buffer \<Rightarrow> (stage \<times> trpc_codec \<times> buffer) res" where
  "decodeStreamFrame pb c buffer =
     (if length buffer < unat (t_total_size c) then Inr (kWaitForData, c, buffer)
      else
        let frame_size = t_total_size c - 16 in
        bindr (copyOut PREFIX_SPACE (unat frame_size) buffer) (\<lambda>header_raw.
        bindr (onStreamFrame pb header_raw c) (\<lambda>(ok, c').
          if \<not> ok then Inl (EnvoyException ''parse header failed'')
          else Inr (kDecodePayload, c', buffer))))"

definition decodePayload :: "trpc_codec \<Rightarrow> buffer \<Rightarrow> (stage \<times> trpc_codec \<times> buffer) res" where
  "decodePayload c buffer =
     (if length buffer < unat (t_total_size c) then Inr (kWaitForData, c, buffer)
      else Inr (kDecodeDone, onCompleted (take (unat (t_total_size c)) buffer) c,
                drop (unat (t_total_size c)) buffer))"

definition trpc_handleState ::
  "trpc_pb \<Rightarrow> trpc_codec \<Rightarrow> buffer \<Rightarrow> (stage \<times> trpc_codec \<times> buffer) res" where
  "trpc_handleState pb c buffer =
     (case t_decode_stage c of
        kDecodeFixedHeader \<Rightarrow> decodeFixedHeader c buffer
      | kDecodeUnaryProtocolHeader \<Rightarrow> decodeUnaryProtocolHeader pb c buffer
      | KDecodeStreamFrame \<Rightarrow> decodeStreamFrame pb c buffer
      | kDecodePayload \<Rightarrow> decodePayload c buffer
      | _ \<Rightarrow> Inl (Panic ''not reached''))"

definition checker_reset :: "trpc_codec \<Rightarrow> trpc_codec" where
  "checker_reset c = c\<lparr>t_decode_stage := kDecodeFixedHeader, t_total_size := 0,
     t_protocol_header_size := 0\<rparr>"

definition stage_rank :: "stage \<Rightarrow> nat" where
  "stage_rank st = (case st of kDecodeFixedHeader \<Rightarrow> 3 | kDecodeUnaryProtocolHeader \<Rightarrow> 2
     | KDecodeStreamFrame \<Rightarrow> 2 | kDecodePayload \<Rightarrow> 1 | _ \<Rightarrow> 0)"

lemmas handle_defs = trpc_handleState_def decodeFixedHeader_def decodeUnaryProtocolHeader_def
  decodeStreamFrame_def decodePayload_def onCompleted_def Let_def

lemma trpc_handleState_rank:
  "trpc_handleState pb c buffer = Inr (st, c', buffer') \<Longrightarrow>
     stage_rank st < stage_rank (t_decode_stage c)"
  by (auto simp: handle_defs stage_rank_def bindr_eq_Inr case_prod_unfold split: stage.splits if_splits)

function checker_loop ::
  "trpc_pb \<Rightarrow> trpc_codec \<Rightarrow> buffer \<Rightarrow> (stage \<times> trpc_codec \<times> buffer) res" where
  "checker_loop pb c buffer =
     (if t_decode_stage c = kDecodeDone then Inr (kDecodeDone, checker_reset c, buffer)
      else bindr (trpc_handleState pb c buffer) (\<lambda>(st, c', buffer').
        if st = kWaitForData then Inr (kWaitForData, c', buffer')
        else checker_loop pb (c'\<lparr>t_decode_stage := st\<rparr>) buffer'))"
  by auto
termination
  by (relation "measure (\<lambda>(p, c, b). stage_rank (t_decode_stage c))")
    (auto dest: trpc_handleState_rank)

declare checker_loop.simps [simp del]

section \<open>The codec\<close>

definition put_trans_info :: "trans_info \<Rightarrow> 'x metadata \<Rightarrow> 'x metadata" where
  "put_trans_info ti md = foldl (\<lambda>m kv. putString (fst kv) (snd kv) m) md ti"

definition trpc_toMetadata :: "trpc_codec \<Rightarrow> 'x metadata \<Rightarrow> (trpc_codec \<times> 'x metadata) res" where
  "trpc_toMetadata c md0 =
     (case (t_fixed_header c, t_origin_msg c) of
        (Some fh, Some msg) \<Rightarrow>
          let md = md0\<lparr>md_header_size := ucast (getHeaderSize fh),
                      md_body_size := ucast (getPayloadSize fh)\<rparr>;
              ft = fh_stream_frame_type fh;
              sid = ucast (fh_stream_id fh);
              md1 =
               (if ft = TRPC_UNARY then
                  if t_messageType c = Request then
                    let r = t_requestHeader c in
                    put_trans_info (rq_trans_info r)
                      (put ''content_encoding'' (AnyUint32 (rq_content_encoding r))
                      (put ''content_type'' (AnyUint32 (rq_content_type r))
                      (put ''version'' (AnyUint32 (rq_version r))
                      (put ''call_type'' (AnyUint32 (rq_call_type r))
                      (putString ''func'' (rq_func r)
                      (putString ''callee'' (rq_callee r)
                      (putString ''caller'' (rq_caller r)
                         (md\<lparr>md_request_id := ucast (rq_request_id r)\<rparr>))))))))
                  else
                    let r = t_responseHeader c in
                    put_trans_info (rs_trans_info r)
                      (putString ''error_msg'' (rs_error_msg r)
                         (md\<lparr>md_request_id := ucast (rs_request_id r)\<rparr>))
                else if ft = TRPC_STREAM_FRAME_INIT then
                  let r = si_request_meta (t_streamInitMeta c) in
                  put_trans_info (ir_trans_info r)
                    (putString ''func'' (ir_func r)
                    (putString ''callee'' (ir_callee r)
                    (putString ''caller'' (ir_caller r)
                       (md\<lparr>md_message_type := Stream_Init, md_stream_id := sid\<rparr>))))
                else if ft = TRPC_STREAM_FRAME_DATA then
                  md\<lparr>md_message_type := Stream_Data, md_stream_id := sid\<rparr>
                else if ft = TRPC_STREAM_FRAME_FEEDBACK then
                  md\<lparr>md_message_type := Stream_Data, md_stream_id := sid\<rparr>
                else if ft = TRPC_STREAM_FRAME_CLOSE then
                  (if sc_close_type (t_streamCloseMeta c) = 0 then
                     md\<lparr>md_message_type := Stream_Close_One_Way, md_stream_id := sid\<rparr>
                   else md\<lparr>md_message_type := Stream_Close_Two_Way, md_stream_id := sid\<rparr>)
                else md)
          in Inr (c\<lparr>t_origin_msg := Some []\<rparr>,
                  md1\<lparr>md_origin_message := md_origin_message md1 @ msg\<rparr>)
      | _ \<Rightarrow> Inl (Undefined ''null pointer''))"

definition trpc_decode :: "trpc_pb \<Rightarrow> (trpc_codec, 'x) decode_fn" where
  "trpc_decode pb c buffer md =
     bindr (checker_loop pb (c\<lparr>t_messageType := md_message_type md\<rparr>) buffer) (\<lambda>(st, c1, buffer').
       if st = kWaitForData then Inr (WaitForData, c1, buffer', md)
       else bindr (trpc_toMetadata c1 md) (\<lambda>(c2, md').
         Inr (Done, c2, buffer', md')))"

definition trpc_encode :: "trpc_pb \<Rightarrow> 'x metadata \<Rightarrow> mutation \<Rightarrow> buffer \<Rightarrow> buffer res" where
  "trpc_encode pb md mut buffer =
     (if length mut < 1 then Inr buffer
      else if md_message_type md = Request then
        bindr (mutateHeader (parse_request pb) (ser_request pb) request_assign_trans buffer mut
            new_fixed_header) (\<lambda>(ok, buffer').
          if \<not> ok then Inl (EnvoyException ''encode request failed'') else Inr buffer')
      else if md_message_type md = Response then
        bindr (mutateHeader (parse_response pb) (ser_response pb) response_assign_trans buffer mut
            new_fixed_header) (\<lambda>(ok, buffer').
          if \<not> ok then Inl (EnvoyException ''encode response failed'') else Inr buffer')
      else Inr buffer)"

definition trpc_err_code :: "error_type \<Rightarrow> int" where
  "trpc_err_code t = (if t = RouteNotFound then 11 else 31)"

definition trpc_onError :: "trpc_pb \<Rightarrow> 'x metadata \<Rightarrow> error \<Rightarrow> buffer \<Rightarrow> buffer res" where
  "trpc_onError pb md err buffer =
     (let errCode = trpc_err_code (err_type err) in
      if md_message_type md = Stream_Init then
        let p = \<lparr>pr_fixed_header = new_fixed_header\<lparr>fh_stream_id := ucast (md_stream_id md),
                   fh_data_frame_type := TRPC_STREAM_FRAME,
                   fh_stream_frame_type := TRPC_STREAM_FRAME_INIT\<rparr>,
                 pr_protocol_header = empty_init\<lparr>si_response_meta :=
                   \<lparr>is_ret = errCode, is_error_msg = err_message err\<rparr>\<rparr>,
                 pr_body = []\<rparr>
        in Inr (buffer @ snd (protocol_encode (ser_init pb) p))
      else
        let p = \<lparr>pr_fixed_header = new_fixed_header\<lparr>fh_data_frame_type := TRPC_UNARY\<rparr>,
                 pr_protocol_header = empty_response\<lparr>rs_request_id := ucast (md_request_id md),
                   rs_error_msg := err_message err, rs_ret := errCode, rs_func_ret := errCode\<rparr>,
                 pr_body = []\<rparr>
        in Inr (buffer @ snd (protocol_encode (ser_response pb) p)))"

section \<open>Host name of a callee\<close>

text \<open>\<^verbatim>\<open>convertCalleeToHost\<close>: a name with an interface, that is with four dots, is
  cut at the last one.\<close>

definition convertCalleeToHost :: "string \<Rightarrow> string" where
  "convertCalleeToHost callee =
     (if count_list callee (CHR ''.'') \<noteq> 4 then callee
      else rev (tl (dropWhile (\<lambda>c. c \<noteq> CHR ''.'') (rev callee))))"

section \<open>Steps of the checker\<close>

lemma fixed_header_decode_append:
  "PREFIX_SPACE \<le> length buf \<Longrightarrow> fixed_header_decode (buf @ ext) False h =
     bindr (fixed_header_decode buf False h) (\<lambda>(ok, h', b). Inr (ok, h', b @ ext))"
  by (simp add: fixed_header_decode_def PREFIX_SPACE_def peekBEInt_def copyOut_def)

lemma fixed_header_decode_buffer:
  "fixed_header_decode buf False h = Inr (ok, h', b) \<Longrightarrow> b = buf"
  by (auto simp: fixed_header_decode_def bindr_eq_Inr split: if_splits)

lemma onUnaryHeader_keeps [simp]:
  "t_fixed_header (snd (onUnaryHeader pb raw c)) = t_fixed_header c"
  "t_decode_stage (snd (onUnaryHeader pb raw c)) = t_decode_stage c"
  "t_total_size (snd (onUnaryHeader pb raw c)) = t_total_size c"
  "t_messageType (snd (onUnaryHeader pb raw c)) = t_messageType c"
  by (simp_all add: onUnaryHeader_def split: option.split)

lemma onStreamFrame_keeps:
  "onStreamFrame pb raw c = Inr (ok, c') \<Longrightarrow> t_fixed_header c' = t_fixed_header c
     \<and> t_decode_stage c' = t_decode_stage c \<and> t_total_size c' = t_total_size c
     \<and> t_messageType c' = t_messageType c"
  by (auto simp: onStreamFrame_def Let_def split: if_splits option.splits)

text \<open>What a step that waits, a step that advances and a step that completes the frame do.\<close>

lemma handle_wait:
  "trpc_handleState pb c buf = Inr (kWaitForData, c', buf') \<Longrightarrow> c' = c \<and> buf' = buf"
  by (auto simp: handle_defs bindr_eq_Inr case_prod_unfold split: stage.splits if_splits)

definition trpc_ready :: "trpc_codec \<Rightarrow> bool" where
  "trpc_ready c \<longleftrightarrow> t_decode_stage c \<notin> {kDecodeDone, kWaitForData}
     \<and> (t_decode_stage c \<noteq> kDecodeFixedHeader \<longrightarrow> t_fixed_header c \<noteq> None)"

lemma handle_advance:
  assumes "trpc_handleState pb c buf = Inr (st, c', buf')" "trpc_ready c"
    and "st \<noteq> kWaitForData" "st \<noteq> kDecodeDone"
  shows "buf' = buf \<and> trpc_ready (c'\<lparr>t_decode_stage := st\<rparr>)"
proof (cases "t_decode_stage c")
  case kDecodeFixedHeader
  with assms show ?thesis
    by (auto simp: handle_defs trpc_ready_def bindr_eq_Inr onFixedHeaderDecoded_def
        split: if_splits dest: fixed_header_decode_buffer)
next
  case kDecodeUnaryProtocolHeader
  with assms show ?thesis
    by (auto simp: handle_defs trpc_ready_def bindr_eq_Inr case_prod_unfold
        split: if_splits)
next
  case KDecodeStreamFrame
  with assms show ?thesis
    by (auto simp: handle_defs trpc_ready_def bindr_eq_Inr
        split: if_splits dest: onStreamFrame_keeps)
next
  case kDecodePayload
  with assms show ?thesis by (auto simp: handle_defs split: if_splits)
qed (use assms in \<open>auto simp: trpc_ready_def\<close>)

lemma handle_done:
  assumes "trpc_handleState pb c buf = Inr (kDecodeDone, c', buf')" "trpc_ready c"
  shows "t_decode_stage c = kDecodePayload \<and> unat (t_total_size c) \<le> length buf
     \<and> c' = c\<lparr>t_origin_msg := Some (take (unat (t_total_size c)) buf)\<rparr>
     \<and> buf' = drop (unat (t_total_size c)) buf"
  using assms
  by (cases "t_decode_stage c")
    (auto simp: handle_defs trpc_ready_def bindr_eq_Inr case_prod_unfold split: if_splits)

lemma handle_messageType:
  assumes "trpc_handleState pb c buf = Inr (st, c', buf')"
  shows "t_messageType c' = t_messageType c"
  using assms by (cases "t_decode_stage c")
    (auto simp: handle_defs bindr_eq_Inr onFixedHeaderDecoded_def case_prod_unfold
      split: if_splits dest: onStreamFrame_keeps)

lemma handle_append:
  assumes "trpc_handleState pb c buf = Inr (st, c', buf')" "st \<noteq> kWaitForData"
  shows "trpc_handleState pb c (buf @ ext) = Inr (st, c', buf' @ ext)"
proof (cases "t_decode_stage c")
  case kDecodeFixedHeader
  with assms show ?thesis
    by (auto simp: handle_defs fixed_header_decode_append bindr_eq_Inr bindr_assoc
        split: if_splits dest: fixed_header_decode_buffer)
next
  case kDecodeUnaryProtocolHeader
  with assms show ?thesis
    by (auto simp: handle_defs copyOut_append bindr_eq_Inr case_prod_unfold split: if_splits)
next
  case KDecodeStreamFrame
  with assms show ?thesis
    by (auto simp: handle_defs copyOut_def bindr_eq_Inr split: if_splits)
qed (use assms in \<open>auto simp: handle_defs split: if_splits\<close>)

lemma handle_throw:
  assumes "trpc_handleState pb c buf = Inl e" "\<forall>u. e \<noteq> Undefined u"
  shows "trpc_handleState pb c (buf @ ext) = Inl e"
proof (cases "t_decode_stage c")
  case kDecodeFixedHeader
  with assms show ?thesis
    by (auto simp: handle_defs fixed_header_decode_append bindr_eq_Inl bindr_assoc
        split: if_splits)
next
  case kDecodeUnaryProtocolHeader
  with assms show ?thesis
    by (auto simp: handle_defs copyOut_append copyOut_def bindr_eq_Inl case_prod_unfold split: if_splits)
next
  case KDecodeStreamFrame
  with assms show ?thesis
    by (auto simp: handle_defs copyOut_def bindr_eq_Inl split: if_splits)
qed (use assms in \<open>auto simp: handle_defs split: if_splits\<close>)

section \<open>The loop of the checker\<close>

lemma checker_loop_wait:
  "checker_loop pb c buf = Inr (kWaitForData, c', buf') \<Longrightarrow> trpc_ready c \<Longrightarrow>
     buf' = buf \<and> trpc_ready c' \<and> t_messageType c' = t_messageType c \<and> checker_loop pb c (buf @ ext) = checker_loop pb c' (buf @ ext)"
proof (induction pb c buf rule: checker_loop.induct)
  case (1 pb c buf)
  have nd: "t_decode_stage c \<noteq> kDecodeDone" using 1(3) by (simp add: trpc_ready_def)
  with 1(2) obtain st c1 b1 where h: "trpc_handleState pb c buf = Inr (st, c1, b1)"
    by (subst (asm) checker_loop.simps) (auto simp: bindr_eq_Inr)
  show ?case
  proof (cases "st = kWaitForData")
    case True
    with 1(2,3) nd h handle_wait [of pb c buf c1 b1] show ?thesis
      by (subst (asm) checker_loop.simps) auto
  next
    case False
    from 1(2) nd h False have rest:
      "checker_loop pb (c1\<lparr>t_decode_stage := st\<rparr>) b1 = Inr (kWaitForData, c', buf')"
      by (subst (asm) checker_loop.simps) simp
    have "st \<noteq> kDecodeDone" using rest by (subst (asm) checker_loop.simps) auto
    with h False 1(3) have adv: "b1 = buf" "trpc_ready (c1\<lparr>t_decode_stage := st\<rparr>)"
      using handle_advance by blast+
    have mt: "t_messageType c1 = t_messageType c" using handle_messageType [OF h] .
    from 1(1) [OF nd h refl refl False] rest adv
    have "buf' = buf \<and> trpc_ready c' \<and> t_messageType c' = t_messageType c1 \<and>
        checker_loop pb (c1\<lparr>t_decode_stage := st\<rparr>) (buf @ ext) = checker_loop pb c' (buf @ ext)"
      by simp
    moreover have "checker_loop pb c (buf @ ext) =
        checker_loop pb (c1\<lparr>t_decode_stage := st\<rparr>) (buf @ ext)"
      using nd handle_append [OF h False, of ext] False adv(1)
      by (subst checker_loop.simps) simp
    ultimately show ?thesis by (simp add: mt)
  qed
qed

lemma checker_loop_outcomes:
  "checker_loop pb c buf = Inr (st, c', buf') \<Longrightarrow> st = kWaitForData \<or> st = kDecodeDone"
  by (induction pb c buf rule: checker_loop.induct)
    (subst (asm) (2) checker_loop.simps, auto simp: bindr_eq_Inr split: if_splits)

lemma checker_loop_done:
  "checker_loop pb c buf = Inr (kDecodeDone, c', buf') \<Longrightarrow> trpc_ready c \<Longrightarrow>
     trpc_ready c' \<and> t_fixed_header c' \<noteq> None
     \<and> (\<exists>m. t_origin_msg c' = Some m \<and> m @ buf' = buf)
     \<and> checker_loop pb c (buf @ ext) = Inr (kDecodeDone, c', buf' @ ext)"
proof (induction pb c buf rule: checker_loop.induct)
  case (1 pb c buf)
  have nd: "t_decode_stage c \<noteq> kDecodeDone" using 1(3) by (simp add: trpc_ready_def)
  with 1(2) obtain st c1 b1 where h: "trpc_handleState pb c buf = Inr (st, c1, b1)"
    by (subst (asm) checker_loop.simps) (auto simp: bindr_eq_Inr)
  have nw: "st \<noteq> kWaitForData" using 1(2) nd h by (subst (asm) checker_loop.simps) auto
  from 1(2) nd h nw have rest:
    "checker_loop pb (c1\<lparr>t_decode_stage := st\<rparr>) b1 = Inr (kDecodeDone, c', buf')"
    by (subst (asm) checker_loop.simps) simp
  have step: "checker_loop pb c (buf @ ext) =
      checker_loop pb (c1\<lparr>t_decode_stage := st\<rparr>) (b1 @ ext)"
    using nd handle_append [OF h nw, of ext] nw by (subst checker_loop.simps) simp
  show ?case
  proof (cases "st = kDecodeDone")
    case True
    with h 1(3) have d: "t_decode_stage c = kDecodePayload"
      "c1 = c\<lparr>t_origin_msg := Some (take (unat (t_total_size c)) buf)\<rparr>"
      "b1 = drop (unat (t_total_size c)) buf" using handle_done by blast+
    have l: "checker_loop pb (c1\<lparr>t_decode_stage := kDecodeDone\<rparr>) b =
        Inr (kDecodeDone, checker_reset (c1\<lparr>t_decode_stage := kDecodeDone\<rparr>), b)" for b
      by (subst checker_loop.simps) simp
    from rest True l have "c' = checker_reset (c1\<lparr>t_decode_stage := kDecodeDone\<rparr>)" "buf' = b1"
      by simp_all
    with d 1(3) step l True show ?thesis by (auto simp: checker_reset_def trpc_ready_def)
  next
    case False
    with h nw 1(3) have adv: "b1 = buf" "trpc_ready (c1\<lparr>t_decode_stage := st\<rparr>)"
      using handle_advance by blast+
    from 1(1) [OF nd h refl refl nw] rest adv step show ?thesis by simp
  qed
qed

lemma checker_loop_throw:
  "checker_loop pb c buf = Inl e \<Longrightarrow> \<forall>u. e \<noteq> Undefined u \<Longrightarrow> checker_loop pb c (buf @ ext) = Inl e"
proof (induction pb c buf rule: checker_loop.induct)
  case (1 pb c buf)
  have nd: "t_decode_stage c \<noteq> kDecodeDone" using 1(2) by (subst (asm) checker_loop.simps) auto
  show ?case
  proof (cases "trpc_handleState pb c buf")
    case (Inl e')
    with 1(2,3) nd handle_throw [of pb c buf e' ext] show ?thesis
      by (subst (asm) checker_loop.simps, subst checker_loop.simps) auto
  next
    case (Inr x)
    obtain st c1 b1 where x: "x = (st, c1, b1)" by (cases x)
    with Inr have h: "trpc_handleState pb c buf = Inr (st, c1, b1)" by simp
    have nw: "st \<noteq> kWaitForData" using 1(2) nd h by (subst (asm) checker_loop.simps) auto
    from 1(2) nd h nw have rest: "checker_loop pb (c1\<lparr>t_decode_stage := st\<rparr>) b1 = Inl e"
      by (subst (asm) checker_loop.simps) simp
    from 1(1) [OF nd h refl refl nw] rest 1(3)
    have "checker_loop pb (c1\<lparr>t_decode_stage := st\<rparr>) (b1 @ ext) = Inl e" by simp
    then show ?thesis
      using nd handle_append [OF h nw, of ext] nw by (subst checker_loop.simps) simp
  qed
qed

lemma put_trans_info_fields [simp]:
  "md_origin_message (put_trans_info ti md) = md_origin_message md"
  "md_message_type (put_trans_info ti md) = md_message_type md"
  "md_request_id (put_trans_info ti md) = md_request_id md"
  "md_stream_id (put_trans_info ti md) = md_stream_id md"
  "md_header_size (put_trans_info ti md) = md_header_size md"
  "md_body_size (put_trans_info ti md) = md_body_size md"
  unfolding put_trans_info_def by (induction ti arbitrary: md) simp_all

lemma trpc_toMetadata_total:
  "t_fixed_header c \<noteq> None \<Longrightarrow> t_origin_msg c = Some m \<Longrightarrow>
     \<exists>md'. trpc_toMetadata c md = Inr (c\<lparr>t_origin_msg := Some []\<rparr>, md')
        \<and> md_origin_message md' = md_origin_message md @ m"
  by (auto simp: trpc_toMetadata_def Let_def)

interpretation trpc: framing "trpc_decode pb" trpc_ready for pb
proof (unfold_locales, goal_cases)
  case (1 c buf md st c' buf' md')
  let ?c = "c\<lparr>t_messageType := md_message_type md\<rparr>"
  have r: "trpc_ready ?c" using 1(1) by (simp add: trpc_ready_def)
  from 1(2) obtain s1 c1 b1 where l: "checker_loop pb ?c buf = Inr (s1, c1, b1)"
    by (auto simp: trpc_decode_def bindr_eq_Inr)
  show ?case
  proof (cases "s1 = kWaitForData")
    case True
    with 1(2) l r checker_loop_wait [of pb ?c buf c1 b1] show ?thesis
      by (simp add: trpc_decode_def)
  next
    case False
    with l checker_loop_outcomes have "s1 = kDecodeDone" by blast
    with l r checker_loop_done [of pb ?c buf c1 b1] have
      d: "trpc_ready c1" "t_fixed_header c1 \<noteq> None" "\<exists>m. t_origin_msg c1 = Some m" by auto
    then obtain m where "t_origin_msg c1 = Some m" by blast
    with trpc_toMetadata_total [OF d(2) this, of md] 1(2) l False d(1) show ?thesis
      by (auto simp: trpc_decode_def trpc_ready_def)
  qed
next
  case (2 c buf md c' buf' md' ext)
  let ?c = "c\<lparr>t_messageType := md_message_type md\<rparr>"
  have r: "trpc_ready ?c" using 2(1) by (simp add: trpc_ready_def)
  from 2(2) have l: "checker_loop pb ?c buf = Inr (kWaitForData, c', buf')"
    by (auto simp: trpc_decode_def bindr_eq_Inr split: if_splits)
  from checker_loop_wait [OF l r, of ext] have w: "buf' = buf"
    "t_messageType c' = md_message_type md"
    "checker_loop pb ?c (buf @ ext) = checker_loop pb c' (buf @ ext)" by simp_all
  have eq: "c'\<lparr>t_messageType := md_message_type md\<rparr> = c'" using w(2) by simp
  show ?case unfolding trpc_decode_def by (simp only: w(1,3) eq)
next
  case (3 c buf md c' buf' md' ext)
  let ?c = "c\<lparr>t_messageType := md_message_type md\<rparr>"
  have r: "trpc_ready ?c" using 3(1) by (simp add: trpc_ready_def)
  from 3(2) obtain c1 s1 where l: "checker_loop pb ?c buf = Inr (s1, c1, buf')" "s1 \<noteq> kWaitForData"
      "bindr (trpc_toMetadata c1 md) (\<lambda>(c2, md'). Inr (Done, c2, buf', md')) = Inr (Done, c', buf', md')"
    by (fastforce simp: trpc_decode_def bindr_eq_Inr split: if_splits)
  with checker_loop_outcomes have "s1 = kDecodeDone" by blast
  with l checker_loop_done [of pb ?c buf c1 buf', OF _ r, of ext] show ?case
    by (auto simp: trpc_decode_def bindr_eq_Inr)
next
  case (4 c buf md e ext)
  let ?c = "c\<lparr>t_messageType := md_message_type md\<rparr>"
  have r: "trpc_ready ?c" using 4(1) by (simp add: trpc_ready_def)
  show ?case
  proof (cases "checker_loop pb ?c buf")
    case (Inl e')
    with 4 checker_loop_throw [of pb ?c buf e' ext] show ?thesis by (simp add: trpc_decode_def)
  next
    case (Inr x)
    obtain s1 c1 b1 where x: "x = (s1, c1, b1)" by (cases x)
    with 4(2) Inr have nw: "s1 \<noteq> kWaitForData" by (auto simp: trpc_decode_def)
    with Inr x checker_loop_outcomes have "s1 = kDecodeDone" by blast
    with Inr x checker_loop_done [of pb ?c buf c1 b1, OF _ r, of "[]"]
    obtain m where d: "t_fixed_header c1 \<noteq> None" "t_origin_msg c1 = Some m" by auto
    with trpc_toMetadata_total [OF this, of md] 4(2) Inr x nw show ?thesis
      by (auto simp: trpc_decode_def)
  qed
qed

interpretation trpc: conserving "trpc_decode pb" trpc_ready "\<lambda>_. []" for pb
proof (unfold_locales, goal_cases)
  case (1 c md buf c' buf' md')
  let ?c = "c\<lparr>t_messageType := md_message_type md\<rparr>"
  have r: "trpc_ready ?c" using 1(1) by (simp add: trpc_ready_def)
  from 1(3) have "checker_loop pb ?c buf = Inr (kWaitForData, c', buf')"
    by (auto simp: trpc_decode_def bindr_eq_Inr split: if_splits)
  from checker_loop_wait [OF this r] show ?case by simp
next
  case (2 c md buf c' buf' md')
  let ?c = "c\<lparr>t_messageType := md_message_type md\<rparr>"
  have r: "trpc_ready ?c" using 2(1) by (simp add: trpc_ready_def)
  from 2(3) obtain c1 s1 where l: "checker_loop pb ?c buf = Inr (s1, c1, buf')" "s1 \<noteq> kWaitForData"
      "trpc_toMetadata c1 md = Inr (c', md')"
    by (fastforce simp: trpc_decode_def bindr_eq_Inr split: if_splits)
  with checker_loop_outcomes have "s1 = kDecodeDone" by blast
  with l(1) checker_loop_done [of pb ?c buf c1 buf', OF _ r] obtain m where
    d: "t_fixed_header c1 \<noteq> None" "t_origin_msg c1 = Some m" "m @ buf' = buf" by auto
  with trpc_toMetadata_total [OF d(1,2), of md] l(3) 2(2) show ?case by auto
qed

definition fixed_header_ok :: "fixed_header \<Rightarrow> bool" where
  "fixed_header_ok h \<longleftrightarrow> fh_magic_value h = TRPC_MAGIC_VALUE \<and> length (fh_reserved h) = 2"

lemma length_fixed_header_encode [simp]:
  "fixed_header_ok h \<Longrightarrow> length (fixed_header_encode h) = 16"
  by (simp add: fixed_header_encode_def fixed_header_ok_def)

lemma fixed_header_decode_encode:
  assumes "fixed_header_ok h"
  shows "fixed_header_decode (fixed_header_encode h @ rest) dr h0 =
     Inr (True, h, if dr then rest else fixed_header_encode h @ rest)"
proof -
  let ?b = "fixed_header_encode h @ rest"
  from assms have m: "fh_magic_value h = TRPC_MAGIC_VALUE" "length (fh_reserved h) = 2"
    by (simp_all add: fixed_header_ok_def)
  have p: "peekBEInt 0 ?b = Inr (fh_magic_value h)" "peekBEInt 2 ?b = Inr (fh_data_frame_type h)"
    "peekBEInt 3 ?b = Inr (fh_stream_frame_type h)" "peekBEInt 4 ?b = Inr (fh_data_frame_size h)"
    "peekBEInt 8 ?b = Inr (fh_pb_header_size h)" "peekBEInt 10 ?b = Inr (fh_stream_id h)"
    by (intro peekBEInt_at, simp_all add: fixed_header_encode_def)+
  have r: "copyOut 14 2 ?b = Inr (fh_reserved h)"
    using m by (simp add: copyOut_def fixed_header_encode_def)
  have d: "drop 16 ?b = rest" using assms by simp
  show ?thesis
    using m by (simp add: fixed_header_decode_def p r d PREFIX_SPACE_def assms)
qed

section \<open>Whole frames\<close>

lemma checker_loop_fixed:
  assumes "t_decode_stage c = kDecodeFixedHeader" "fixed_header_ok h"
  shows "checker_loop pb c (fixed_header_encode h @ rest) =
    checker_loop pb (c\<lparr>t_total_size := fh_data_frame_size h,
        t_protocol_header_size := fh_pb_header_size h, t_fixed_header := Some h,
        t_decode_stage := (if fh_stream_frame_type h = TRPC_UNARY then kDecodeUnaryProtocolHeader
                           else KDecodeStreamFrame)\<rparr>)
      (fixed_header_encode h @ rest)"
  using assms
  by (subst checker_loop.simps)
    (simp add: trpc_handleState_def decodeFixedHeader_def fixed_header_decode_encode
      PREFIX_SPACE_def onFixedHeaderDecoded_def Let_def)

lemma checker_loop_payload:
  assumes "t_decode_stage c = kDecodePayload"
  shows "checker_loop pb c buf =
    (if length buf < unat (t_total_size c) then Inr (kWaitForData, c, buf)
     else Inr (kDecodeDone, checker_reset (c\<lparr>t_origin_msg := Some (take (unat (t_total_size c)) buf)\<rparr>),
            drop (unat (t_total_size c)) buf))"
  using assms
  by (subst checker_loop.simps, subst checker_loop.simps)
    (simp add: trpc_handleState_def decodePayload_def onCompleted_def checker_reset_def)

lemma checker_loop_unary:
  assumes "t_decode_stage c = kDecodeUnaryProtocolHeader"
    and "16 + unat (t_protocol_header_size c) \<le> length buf"
    and "onUnaryHeader pb (take (unat (t_protocol_header_size c)) (drop 16 buf)) c = (True, c')"
  shows "checker_loop pb c buf = checker_loop pb (c'\<lparr>t_decode_stage := kDecodePayload\<rparr>) buf"
  using assms
  by (subst checker_loop.simps)
    (simp add: trpc_handleState_def decodeUnaryProtocolHeader_def copyOut_def PREFIX_SPACE_def)

lemma put_trans_info_getString:
  "map_ok ti \<Longrightarrow> getString k (put_trans_info ti md) =
     (case map_find ti k of Some v \<Rightarrow> Inr v | None \<Rightarrow> getString k md)"
proof (induction ti arbitrary: md)
  case (Cons kv ti)
  obtain l v where kv: "kv = (l, v)" by (cases kv)
  with Cons(2) have ok: "map_ok ti" and out: "map_find ti l = None"
    by (auto simp: map_find_out)
  have "put_trans_info (kv # ti) md = put_trans_info ti (putString l v md)"
    by (simp add: kv put_trans_info_def)
  with Cons(1) [OF ok] kv out show ?case by (auto split: option.split)
qed (simp add: put_trans_info_def)

lemma checker_unary_frame:
  assumes "t_decode_stage c = kDecodeFixedHeader" "fixed_header_ok h"
    and "fh_stream_frame_type h = TRPC_UNARY"
    and "unat (fh_pb_header_size h) = length hdr"
    and "unat (fh_data_frame_size h) = 16 + length hdr + length body"
    and "onUnaryHeader pb hdr (c\<lparr>t_total_size := fh_data_frame_size h,
      t_protocol_header_size := fh_pb_header_size h, t_fixed_header := Some h,
      t_decode_stage := kDecodeUnaryProtocolHeader\<rparr>) = (True, c2)"
  shows "checker_loop pb c (fixed_header_encode h @ hdr @ body @ rest) =
    Inr (kDecodeDone, checker_reset (c2\<lparr>t_origin_msg := Some (fixed_header_encode h @ hdr @ body)\<rparr>), rest)"
proof -
  let ?buf = "fixed_header_encode h @ hdr @ body @ rest"
  let ?c1 = "c\<lparr>t_total_size := fh_data_frame_size h,
      t_protocol_header_size := fh_pb_header_size h, t_fixed_header := Some h,
      t_decode_stage := kDecodeUnaryProtocolHeader\<rparr>"
  have sz: "length (fixed_header_encode h) = 16" using assms(2) by simp
  have keep: "t_total_size c2 = fh_data_frame_size h"
    using onUnaryHeader_keeps(3) [of pb hdr ?c1] assms(6) by simp
  have "checker_loop pb c ?buf = checker_loop pb ?c1 ?buf"
    using assms(1-3) by (subst checker_loop_fixed) simp_all
  also have "\<dots> = checker_loop pb (c2\<lparr>t_decode_stage := kDecodePayload\<rparr>) ?buf"
    using assms(4,6) sz by (intro checker_loop_unary) simp_all
  also have "\<dots> = Inr (kDecodeDone,
      checker_reset (c2\<lparr>t_origin_msg := Some (fixed_header_encode h @ hdr @ body)\<rparr>), rest)"
    using assms(5) sz keep by (subst checker_loop_payload) (simp_all add: checker_reset_def)
  finally show ?thesis .
qed

lemma frame_sizes:
  assumes "unat (fh_pb_header_size h) = length hdr"
    and "unat (fh_data_frame_size h) = 16 + length hdr + length body"
  shows "unat (getHeaderSize h) = 16 + length hdr" "unat (getPayloadSize h) = length body"
proof -
  show hs: "unat (getHeaderSize h) = 16 + length hdr"
    using unat_bound16 [of "fh_pb_header_size h"] assms(1)
    by (simp add: getHeaderSize_def unat_word_ariths)
  show "unat (getPayloadSize h) = length body"
    using assms(2) hs by (simp add: getPayloadSize_def unat_sub word_le_nat_alt)
qed

text \<open>
  C20: a tRPC unary request that is whole in the buffer is decoded to one message: it carries exactly
  the bytes of the frame, its sizes and request id are those of the headers, the transparent
  information is readable by key, and caller, callee and func are those of the header unless the
  transparent information uses the same key.
\<close>

theorem trpc_decode_unary_request:
  assumes "trpc_ready c" "t_decode_stage c = kDecodeFixedHeader" "fixed_header_ok h"
    and "fh_stream_frame_type h = TRPC_UNARY"
    and "unat (fh_pb_header_size h) = length hdr"
    and "unat (fh_data_frame_size h) = 16 + length hdr + length body"
    and "parse_request pb hdr = Some r" "map_ok (rq_trans_info r)" "md_message_type md = Request"
  shows "\<exists>c' md'. trpc_decode pb c (fixed_header_encode h @ hdr @ body @ rest) md =
       Inr (Done, c', rest, md')
     \<and> md_origin_message md' = md_origin_message md @ fixed_header_encode h @ hdr @ body
     \<and> md_request_id md' = ucast (rq_request_id r)
     \<and> md_message_type md' = Request
     \<and> unat (md_header_size md') = 16 + length hdr
     \<and> unat (md_body_size md') = length body
     \<and> (\<forall>k v. map_find (rq_trans_info r) k = Some v \<longrightarrow> getString k md' = Inr v)
     \<and> (map_find (rq_trans_info r) ''callee'' = None \<longrightarrow> getString ''callee'' md' = Inr (rq_callee r))
     \<and> (map_find (rq_trans_info r) ''func'' = None \<longrightarrow> getString ''func'' md' = Inr (rq_func r))"
proof -
  have "checker_loop pb (c\<lparr>t_messageType := Request\<rparr>) (fixed_header_encode h @ hdr @ body @ rest) =
    Inr (kDecodeDone, checker_reset (c\<lparr>t_messageType := Request, t_total_size := fh_data_frame_size h,
      t_protocol_header_size := fh_pb_header_size h, t_fixed_header := Some h,
      t_decode_stage := kDecodeUnaryProtocolHeader, t_requestHeader := r,
      t_origin_msg := Some (fixed_header_encode h @ hdr @ body)\<rparr>), rest)"
    using assms(2-7) by (subst checker_unary_frame) (simp_all add: onUnaryHeader_def)
  then show ?thesis
    using assms(4,8,9) frame_sizes [OF assms(5,6)]
    by (auto simp: trpc_decode_def trpc_toMetadata_def checker_reset_def Let_def
        put_trans_info_getString split: option.splits)
qed

text \<open>A stand-in for the generated protobuf code, for concrete runs.\<close>

definition echo_pb :: trpc_pb where
  "echo_pb = \<lparr>parse_request = (\<lambda>b. Some (empty_request\<lparr>rq_callee := chars_of_bytes b,
       rq_request_id := 7\<rparr>)),
     ser_request = (\<lambda>r. bytes_of_chars (rq_callee r)
       @ concat (map (\<lambda>kv. bytes_of_chars (fst kv @ snd kv)) (rq_trans_info r))),
     parse_response = (\<lambda>b. Some (empty_response\<lparr>rs_error_msg := chars_of_bytes b,
       rs_request_id := 7, rs_ret := 11, rs_func_ret := 11\<rparr>)),
     ser_response = (\<lambda>r. bytes_of_chars (rs_error_msg r)),
     parse_init = (\<lambda>b. Some empty_init), ser_init = (\<lambda>r. []),
     parse_close = (\<lambda>b. Some empty_close)\<rparr>"

theorem trpc_decode_unary_request_witness:
  "let h = new_fixed_header\<lparr>fh_data_frame_size := 21, fh_pb_header_size := 3\<rparr>;
       r = empty_request\<lparr>rq_callee := chars_of_bytes [97, 46, 98], rq_request_id := 7\<rparr>;
       md = fresh_metadata Request :: unit metadata in
   \<exists>c' md'. trpc_decode echo_pb trpc_new (fixed_header_encode h @ [97, 46, 98] @ [1, 2] @ [9]) md =
       Inr (Done, c', [9], md')
     \<and> md_origin_message md' = md_origin_message md @ fixed_header_encode h @ [97, 46, 98] @ [1, 2]
     \<and> md_request_id md' = ucast (rq_request_id r)
     \<and> md_message_type md' = Request
     \<and> unat (md_header_size md') = 16 + length [97, 46, 98 :: byte]
     \<and> unat (md_body_size md') = length [1, 2 :: byte]
     \<and> (\<forall>k v. map_find (rq_trans_info r) k = Some v \<longrightarrow> getString k md' = Inr v)
     \<and> (map_find (rq_trans_info r) ''callee'' = None \<longrightarrow> getString ''callee'' md' = Inr (rq_callee r))
     \<and> (map_find (rq_trans_info r) ''func'' = None \<longrightarrow> getString ''func'' md' = Inr (rq_func r))"
  unfolding Let_def
  by (rule trpc_decode_unary_request)
    (simp_all add: trpc_ready_def trpc_new_def fixed_header_ok_def new_fixed_header_def
      TRPC_UNARY_def echo_pb_def empty_request_def)

text \<open>
  C21: a local error reply to a unary request is one well-formed tRPC response: the client's decoder
  takes it whole out of its buffer and finds the id of the request (32 bits of it are sent) and the
  error message.  The protobuf code must read back what it wrote, and the serialized header must
  fit the 16-bit length field.
\<close>

theorem trpc_error_reply_decodes:
  assumes "hdr = empty_response\<lparr>rs_request_id := ucast (md_request_id md),
      rs_error_msg := err_message err, rs_ret := trpc_err_code (err_type err),
      rs_func_ret := trpc_err_code (err_type err)\<rparr>"
    and "parse_response pb (ser_response pb hdr) = Some hdr" "length (ser_response pb hdr) < 65536"
    and "md_message_type md \<noteq> Stream_Init"
  shows "\<exists>reply c' md'. trpc_onError pb md err [] = Inr reply
     \<and> trpc_decode pb trpc_new (reply @ rest) (fresh_metadata Response) = Inr (Done, c', rest, md')
     \<and> md_origin_message md' = reply
     \<and> md_request_id md' = ucast (ucast (md_request_id md) :: u32)
     \<and> getString ''error_msg'' md' = Inr (err_message err)"
proof -
  define fh where "fh = new_fixed_header\<lparr>fh_data_frame_type := TRPC_UNARY,
      fh_pb_header_size := word_of_nat (length (ser_response pb hdr))\<rparr>"
  define h where "h = fh\<lparr>fh_data_frame_size := getHeaderSize fh\<rparr>"
  define ser where "ser = ser_response pb hdr"
  have hs: "unat (fh_pb_header_size h) = length ser"
    using assms(3) by (simp add: h_def fh_def ser_def unat_of_nat)
  then have ds: "unat (fh_data_frame_size h) = 16 + length ser + length ([] :: buffer)"
    using assms(3) by (simp add: h_def ser_def getHeaderSize_def unat_word_ariths)
  have ok: "fixed_header_ok h" "fh_stream_frame_type h = TRPC_UNARY"
    by (simp_all add: h_def fh_def fixed_header_ok_def new_fixed_header_def TRPC_UNARY_def)
  have reply: "trpc_onError pb md err [] = Inr (fixed_header_encode h @ ser)"
    using assms(4) by (simp add: trpc_onError_def protocol_encode_def Let_def assms(1)
        h_def fh_def ser_def fixed_header_encode_def new_fixed_header_def)
  let ?c = "trpc_new\<lparr>t_messageType := Response\<rparr>"
  let ?c1 = "?c\<lparr>t_total_size := fh_data_frame_size h, t_protocol_header_size := fh_pb_header_size h,
      t_fixed_header := Some h, t_decode_stage := kDecodeUnaryProtocolHeader\<rparr>"
  have u: "onUnaryHeader pb ser ?c1 = (True, ?c1\<lparr>t_responseHeader := hdr\<rparr>)"
    using assms(2) by (simp add: onUnaryHeader_def ser_def)
  have "t_decode_stage ?c = kDecodeFixedHeader" by (simp add: trpc_new_def)
  from checker_unary_frame [OF this ok hs ds u, of rest] ok reply show ?thesis
    by (simp add: trpc_decode_def trpc_toMetadata_def checker_reset_def Let_def
        put_trans_info_def assms(1) empty_response_def)
qed

theorem trpc_error_reply_decodes_witness:
  "let md = (fresh_metadata Request :: unit metadata)\<lparr>md_request_id := 7\<rparr>;
       err = Error RouteNotFound ''no'' in
   \<exists>reply c' md'. trpc_onError echo_pb md err [] = Inr reply
     \<and> trpc_decode echo_pb trpc_new (reply @ [5]) (fresh_metadata Response :: unit metadata) =
         Inr (Done, c', [5], md')
     \<and> md_origin_message md' = reply
     \<and> md_request_id md' = ucast (ucast (md_request_id md) :: u32)
     \<and> getString ''error_msg'' md' = Inr (err_message err)"
  unfolding Let_def
  by (rule trpc_error_reply_decodes [OF refl])
    (simp_all add: echo_pb_def trpc_err_code_def empty_response_def)

text \<open>
  C19: changing the transparent information of a request re-encodes a consistent frame: both length
  fields of the new fixed header are the lengths of what follows, the body and the other fields are
  untouched, and the new header holds the mutation over the old entries.
\<close>

theorem trpc_mutate_request:
  assumes "fixed_header_ok h" "unat (fh_pb_header_size h) = length hdr"
    and "unat (fh_data_frame_size h) = 16 + length hdr + length body"
    and "parse_request pb hdr = Some r" "map_ok (rq_trans_info r)"
    and "mut \<noteq> []" "md_message_type md = Request" "r' = request_assign_trans mut r"
    and "length (ser_request pb r') < 65536"
    and "16 + length (ser_request pb r') + length body < 2 ^ 32"
  shows "\<exists>h'. trpc_encode pb md mut (fixed_header_encode h @ hdr @ body) =
       Inr (fixed_header_encode h' @ ser_request pb r' @ body)
     \<and> fixed_header_ok h' \<and> unat (fh_pb_header_size h') = length (ser_request pb r')
     \<and> unat (fh_data_frame_size h') = 16 + length (ser_request pb r') + length body
     \<and> fh_stream_id h' = fh_stream_id h \<and> fh_stream_frame_type h' = fh_stream_frame_type h
     \<and> map_find (rq_trans_info r') = map_find (rq_trans_info r) ++ map_of (rev mut)
     \<and> rq_request_id r' = rq_request_id r"
proof -
  define h1 where "h1 = h\<lparr>fh_pb_header_size := word_of_nat (length (ser_request pb r'))\<rparr>"
  define h2 where "h2 = h1\<lparr>fh_data_frame_size := getHeaderSize h1 + word_of_nat (length body)\<rparr>"
  have sz: "length (fixed_header_encode h) = 16" using assms(1) by simp
  have p: "unat (fh_pb_header_size h1) = length (ser_request pb r')"
    using assms(9) by (simp add: h1_def unat_of_nat)
  then have "unat (getHeaderSize h1) = 16 + length (ser_request pb r')"
    using assms(9) by (simp add: getHeaderSize_def unat_word_ariths)
  then have d: "unat (fh_data_frame_size h2) = 16 + length (ser_request pb r') + length body"
    using assms(10) by (simp add: h2_def unat_word_ariths unat_of_nat)
  have "mutateHeader (parse_request pb) (ser_request pb) request_assign_trans
      (fixed_header_encode h @ hdr @ body) mut new_fixed_header =
      Inr (True, fixed_header_encode h2 @ ser_request pb r' @ body)"
    using assms(1-4,8) sz frame_sizes [OF assms(2,3)]
    by (simp add: mutateHeader_def fixed_header_decode_encode copyOut_def Let_def h1_def h2_def)
  then have "trpc_encode pb md mut (fixed_header_encode h @ hdr @ body) =
      Inr (fixed_header_encode h2 @ ser_request pb r' @ body)"
    using assms(6,7) by (simp add: trpc_encode_def Suc_le_eq)
  moreover have "map_find (rq_trans_info r') = map_find (rq_trans_info r) ++ map_of (rev mut)"
    using smap.lookup_assign_all [OF assms(5), of mut]
    by (simp add: assms(8) request_assign_trans_def smap.assign_all_def)
  ultimately show ?thesis
    using assms(1,8) p d
    by (intro exI [of _ h2]) (simp add: h1_def h2_def fixed_header_ok_def request_assign_trans_def)
qed

theorem trpc_mutate_request_witness:
  "let h = new_fixed_header\<lparr>fh_data_frame_size := 21, fh_pb_header_size := 3\<rparr>;
       r = empty_request\<lparr>rq_callee := chars_of_bytes [97, 46, 98], rq_request_id := 7\<rparr>;
       mut = [(''k'', ''v'')]; r' = request_assign_trans mut r in
   \<exists>h'. trpc_encode echo_pb (fresh_metadata Request :: unit metadata) mut
          (fixed_header_encode h @ [97, 46, 98] @ [1, 2]) =
       Inr (fixed_header_encode h' @ ser_request echo_pb r' @ [1, 2])
     \<and> fixed_header_ok h' \<and> unat (fh_pb_header_size h') = length (ser_request echo_pb r')
     \<and> unat (fh_data_frame_size h') = 16 + length (ser_request echo_pb r') + length [1, 2 :: byte]
     \<and> fh_stream_id h' = fh_stream_id h \<and> fh_stream_frame_type h' = fh_stream_frame_type h
     \<and> map_find (rq_trans_info r') = map_find (rq_trans_info r) ++ map_of (rev mut)
     \<and> rq_request_id r' = rq_request_id r"
  unfolding Let_def
  by (rule trpc_mutate_request [OF _ _ _ _ _ _ _ refl])
    (simp_all add: fixed_header_ok_def new_fixed_header_def echo_pb_def empty_request_def
      request_assign_trans_def)

text \<open>
  C27: a unary tRPC frame that announces a size of zero is delivered without consuming a byte, so the
  dispatch loop of the connection never returns: the codec does not check the announced size
  against the sixteen bytes of the fixed header.
\<close>

theorem trpc_zero_size_diverges:
  fixes cb :: "('s, 'h, 'x) callbacks"
  assumes "\<And>md s. \<exists>s'. deliver cb md s = (Inr False, s')"
    and "t_decode_stage (d_codec d) = kDecodeFixedHeader" "d_messageType d = Request"
    and "fixed_header_ok h" "fh_stream_frame_type h = TRPC_UNARY"
    and "fh_pb_header_size h = 0" "fh_data_frame_size h = 0"
    and "parse_request pb [] = Some r"
  shows "dispatch_loop (trpc_decode pb) cb d (fixed_header_encode h @ rest) s = None"
proof (rule dispatch_loop_diverges
    [where I = "\<lambda>d buf s. t_decode_stage (d_codec d) = kDecodeFixedHeader
       \<and> d_messageType d = Request \<and> buf = fixed_header_encode h @ rest"])
  fix d :: "(trpc_codec, 'h, 'x) decoder" and buf :: buffer and s :: 's
  assume I: "t_decode_stage (d_codec d) = kDecodeFixedHeader \<and> d_messageType d = Request
       \<and> buf = fixed_header_encode h @ rest"
  let ?c1 = "(d_codec d)\<lparr>t_messageType := Request, t_total_size := 0,
      t_protocol_header_size := 0, t_fixed_header := Some h,
      t_decode_stage := kDecodeUnaryProtocolHeader\<rparr>"
  have sz: "length (fixed_header_encode h) = 16" using assms(4) by simp
  have "checker_loop pb ((d_codec d)\<lparr>t_messageType := Request\<rparr>) buf = checker_loop pb ?c1 buf"
    using I assms(4-7) by (simp add: checker_loop_fixed)
  also have "\<dots> = checker_loop pb (?c1\<lparr>t_requestHeader := r, t_decode_stage := kDecodePayload\<rparr>) buf"
    using assms(8) sz I by (intro checker_loop_unary) (simp_all add: onUnaryHeader_def)
  also have "\<dots> = Inr (kDecodeDone, checker_reset (?c1\<lparr>t_requestHeader := r,
      t_decode_stage := kDecodePayload, t_origin_msg := Some []\<rparr>), buf)"
    by (subst checker_loop_payload) simp_all
  finally obtain c' md' where dec: "trpc_decode pb (d_codec d) buf
      (fresh_metadata (d_messageType d) :: 'x metadata) = Inr (Done, c', buf, md')"
      "t_decode_stage c' = kDecodeFixedHeader"
    using I assms(5) by (simp add: trpc_decode_def trpc_toMetadata_def checker_reset_def Let_def)
  obtain s' where "deliver cb md' s = (Inr False, s')" using assms(1) by blast
  moreover have "buf \<noteq> []" using I sz by auto
  ultimately show "\<exists>d' buf' s'. onData (trpc_decode pb) cb d buf s = (Inr (False, d', buf'), s') \<and>
      t_decode_stage (d_codec d') = kDecodeFixedHeader \<and> d_messageType d' = Request
      \<and> buf' = fixed_header_encode h @ rest"
    using dec I by (auto simp: onData_done)
qed (use assms in simp)

theorem trpc_zero_size_diverges_witness:
  "dispatch_loop (trpc_decode echo_pb) (recorder :: (unit metadata list, unit, unit) callbacks)
     (new_decoder trpc_new Request) (fixed_header_encode new_fixed_header @ [1]) [] = None"
  by (rule trpc_zero_size_diverges)
    (simp_all add: new_decoder_def trpc_new_def fixed_header_ok_def new_fixed_header_def
      TRPC_UNARY_def echo_pb_def)

section \<open>Stream frames\<close>

lemma checker_loop_stream:
  assumes "t_decode_stage c = kDecodeFixedHeader" "fixed_header_ok h"
    and "fh_stream_frame_type h \<noteq> TRPC_UNARY"
    and "unat (fh_data_frame_size h) = 16 + length payload"
  shows "checker_loop pb c (fixed_header_encode h @ payload @ rest) =
    bindr (onStreamFrame pb payload (c\<lparr>t_total_size := fh_data_frame_size h,
        t_protocol_header_size := fh_pb_header_size h, t_fixed_header := Some h,
        t_decode_stage := KDecodeStreamFrame\<rparr>)) (\<lambda>(ok, c').
      if \<not> ok then Inl (EnvoyException ''parse header failed'')
      else Inr (kDecodeDone, checker_reset (c'\<lparr>t_origin_msg :=
             Some (fixed_header_encode h @ payload)\<rparr>), rest))"
proof -
  let ?buf = "fixed_header_encode h @ payload @ rest"
  let ?c1 = "c\<lparr>t_total_size := fh_data_frame_size h,
        t_protocol_header_size := fh_pb_header_size h, t_fixed_header := Some h,
        t_decode_stage := KDecodeStreamFrame\<rparr>"
  have sz: "length (fixed_header_encode h) = 16" using assms(2) by simp
  have fs: "unat (fh_data_frame_size h - 16) = length payload"
    using assms(4) by (simp add: unat_sub word_le_nat_alt)
  have l: "checker_loop pb c ?buf = checker_loop pb ?c1 ?buf"
    using assms(1-3) by (subst checker_loop_fixed) simp_all
  have pay: "checker_loop pb (c'\<lparr>t_decode_stage := kDecodePayload\<rparr>) ?buf =
      Inr (kDecodeDone, checker_reset (c'\<lparr>t_origin_msg := Some (fixed_header_encode h @ payload)\<rparr>), rest)"
    if "onStreamFrame pb payload ?c1 = Inr (ok, c')" for c' ok
    using onStreamFrame_keeps [OF that] assms(4) sz
    by (subst checker_loop_payload) (simp_all add: checker_reset_def)
  show ?thesis
    unfolding l using sz fs assms(4)
    by (subst checker_loop.simps)
      (auto simp: trpc_handleState_def decodeStreamFrame_def copyOut_def PREFIX_SPACE_def Let_def
        bindr_def pay split: sum.split prod.split)
qed

text \<open>What the codec makes of the frame of a stream.\<close>

definition stream_message_type :: "fixed_header \<Rightarrow> stream_close \<Rightarrow> message_type" where
  "stream_message_type h sc =
     (if fh_stream_frame_type h = TRPC_STREAM_FRAME_INIT then Stream_Init
      else if fh_stream_frame_type h = TRPC_STREAM_FRAME_CLOSE then
        (if sc_close_type sc = 0 then Stream_Close_One_Way else Stream_Close_Two_Way)
      else Stream_Data)"

lemma stream_frame_decodes:
  assumes "t_decode_stage c = kDecodeFixedHeader" "fixed_header_ok h"
    and "unat (fh_data_frame_size h) = 16 + length payload"
    and "fh_stream_frame_type h = TRPC_STREAM_FRAME_DATA \<or> fh_stream_frame_type h = TRPC_STREAM_FRAME_FEEDBACK \<or>
      fh_stream_frame_type h = TRPC_STREAM_FRAME_INIT \<and> parse_init pb payload = Some si \<and> map_ok (ir_trans_info (si_request_meta si)) \<or>
      fh_stream_frame_type h = TRPC_STREAM_FRAME_CLOSE \<and> parse_close pb payload = Some sc"
  shows "\<exists>c' md'. trpc_decode pb c (fixed_header_encode h @ payload @ rest) md = Inr (Done, c', rest, md')
     \<and> t_decode_stage c' = kDecodeFixedHeader
     \<and> md_origin_message md' = md_origin_message md @ fixed_header_encode h @ payload
     \<and> md_stream_id md' = ucast (fh_stream_id h) \<and> md_message_type md' = stream_message_type h sc
     \<and> (fh_stream_frame_type h = TRPC_STREAM_FRAME_INIT \<longrightarrow> getString ''callee'' md' =
          Inr (case map_find (ir_trans_info (si_request_meta si)) ''callee'' of
                 Some v \<Rightarrow> v | None \<Rightarrow> ir_callee (si_request_meta si)))"
proof -
  have nu: "fh_stream_frame_type h \<noteq> TRPC_UNARY"
    using assms(4) by (auto simp: frame_type_defs)
  show ?thesis
    using assms nu
    by (auto simp: trpc_decode_def checker_loop_stream onStreamFrame_def trpc_toMetadata_def stream_message_type_def
        checker_reset_def Let_def put_trans_info_getString frame_type_defs split: option.split)
qed

text \<open>
  C29: every frame of a stream keeps its stream id and its bytes.  A data or feedback frame becomes stream data
  whatever its payload is; a close frame closes one way or both according to its close type; an init frame
  carries the callee for routing, which an entry of its transparent information of that name replaces.  An
  init or close frame whose payload cannot be parsed is refused with an exception.
\<close>

theorem trpc_decode_stream_frame:
  assumes "t_decode_stage c = kDecodeFixedHeader" "fixed_header_ok h"
    and "unat (fh_data_frame_size h) = 16 + length payload"
  shows "(fh_stream_frame_type h = TRPC_STREAM_FRAME_DATA \<or> fh_stream_frame_type h = TRPC_STREAM_FRAME_FEEDBACK \<or>
      fh_stream_frame_type h = TRPC_STREAM_FRAME_INIT \<and> parse_init pb payload = Some si \<and> map_ok (ir_trans_info (si_request_meta si)) \<or>
      fh_stream_frame_type h = TRPC_STREAM_FRAME_CLOSE \<and> parse_close pb payload = Some sc \<longrightarrow>
     (\<exists>c' md'. trpc_decode pb c (fixed_header_encode h @ payload @ rest) md = Inr (Done, c', rest, md')
       \<and> md_origin_message md' = md_origin_message md @ fixed_header_encode h @ payload
       \<and> md_stream_id md' = ucast (fh_stream_id h) \<and> md_message_type md' = stream_message_type h sc
       \<and> (fh_stream_frame_type h = TRPC_STREAM_FRAME_INIT \<longrightarrow> getString ''callee'' md' =
            Inr (case map_find (ir_trans_info (si_request_meta si)) ''callee'' of
                   Some v \<Rightarrow> v | None \<Rightarrow> ir_callee (si_request_meta si)))))
   \<and> (fh_stream_frame_type h = TRPC_STREAM_FRAME_INIT \<and> parse_init pb payload = None \<or>
      fh_stream_frame_type h = TRPC_STREAM_FRAME_CLOSE \<and> parse_close pb payload = None \<longrightarrow>
      trpc_decode pb c (fixed_header_encode h @ payload @ rest) md = Inl (EnvoyException ''parse header failed''))"
proof (intro conjI impI)
  assume "fh_stream_frame_type h = TRPC_STREAM_FRAME_INIT \<and> parse_init pb payload = None \<or>
      fh_stream_frame_type h = TRPC_STREAM_FRAME_CLOSE \<and> parse_close pb payload = None"
  moreover from this have "fh_stream_frame_type h \<noteq> TRPC_UNARY" by (auto simp: frame_type_defs)
  ultimately show "trpc_decode pb c (fixed_header_encode h @ payload @ rest) md = Inl (EnvoyException ''parse header failed'')"
    using assms by (auto simp: trpc_decode_def checker_loop_stream onStreamFrame_def Let_def frame_type_defs)
qed (use stream_frame_decodes [OF assms, of pb si sc rest md] in blast)

text \<open>A data frame with a payload that is neither an init nor a close message, and a close frame with it.\<close>

definition strict_pb :: trpc_pb where
  "strict_pb = echo_pb\<lparr>parse_init := (\<lambda>_. None), parse_close := (\<lambda>_. None)\<rparr>"

definition stream_header :: "byte \<Rightarrow> fixed_header" where
  "stream_header ft = new_fixed_header\<lparr>fh_data_frame_size := 18, fh_stream_frame_type := ft, fh_stream_id := 5\<rparr>"

lemma stream_header_ok [simp]:
  "fixed_header_ok (stream_header ft)" "fh_data_frame_size (stream_header ft) = 18"
  "fh_stream_frame_type (stream_header ft) = ft" "fh_stream_id (stream_header ft) = 5"
  by (simp_all add: stream_header_def fixed_header_ok_def new_fixed_header_def)

theorem trpc_decode_stream_frame_witness:
  "(\<exists>c' md'. trpc_decode strict_pb trpc_new (fixed_header_encode (stream_header TRPC_STREAM_FRAME_DATA) @ [1, 2] @ [9])
        (fresh_metadata Request :: unit metadata) = Inr (Done, c', [9], md')
      \<and> md_origin_message md' = fixed_header_encode (stream_header TRPC_STREAM_FRAME_DATA) @ [1, 2]
      \<and> md_stream_id md' = 5 \<and> md_message_type md' = Stream_Data)
   \<and> (\<exists>c' md'. trpc_decode echo_pb trpc_new (fixed_header_encode (stream_header TRPC_STREAM_FRAME_INIT) @ [1, 2] @ [9])
        (fresh_metadata Request :: unit metadata) = Inr (Done, c', [9], md')
      \<and> md_message_type md' = Stream_Init \<and> getString ''callee'' md' = Inr (ir_callee (si_request_meta empty_init)))
   \<and> trpc_decode strict_pb trpc_new (fixed_header_encode (stream_header TRPC_STREAM_FRAME_CLOSE) @ [1, 2] @ [9])
        (fresh_metadata Request :: unit metadata) = Inl (EnvoyException ''parse header failed'')"
proof -
  have c: "t_decode_stage trpc_new = kDecodeFixedHeader" by (simp add: trpc_new_def)
  note frame = trpc_decode_stream_frame [OF c stream_header_ok(1), of _ "[1, 2]"]
  have "map_ok (ir_trans_info (si_request_meta empty_init))" "map_find (ir_trans_info (si_request_meta empty_init)) ''callee'' = None"
    "parse_init echo_pb [1, 2] = Some empty_init" "parse_close strict_pb [1, 2] = None"
    by (simp_all add: empty_init_def echo_pb_def strict_pb_def)
  note view = this stream_message_type_def frame_type_defs
  have "\<exists>c' md'. trpc_decode strict_pb trpc_new (fixed_header_encode (stream_header TRPC_STREAM_FRAME_DATA) @ [1, 2] @ [9])
        (fresh_metadata Request :: unit metadata) = Inr (Done, c', [9], md')
      \<and> md_origin_message md' = fixed_header_encode (stream_header TRPC_STREAM_FRAME_DATA) @ [1, 2]
      \<and> md_stream_id md' = 5 \<and> md_message_type md' = Stream_Data"
    using frame [of TRPC_STREAM_FRAME_DATA strict_pb empty_init empty_close "[9]" "fresh_metadata Request :: unit metadata"]
    by (fastforce simp: view)
  moreover have "\<exists>c' md'. trpc_decode echo_pb trpc_new (fixed_header_encode (stream_header TRPC_STREAM_FRAME_INIT) @ [1, 2] @ [9])
        (fresh_metadata Request :: unit metadata) = Inr (Done, c', [9], md')
      \<and> md_message_type md' = Stream_Init \<and> getString ''callee'' md' = Inr (ir_callee (si_request_meta empty_init))"
    using frame [of TRPC_STREAM_FRAME_INIT echo_pb empty_init empty_close "[9]" "fresh_metadata Request :: unit metadata"]
    by (fastforce simp: view)
  moreover have "trpc_decode strict_pb trpc_new (fixed_header_encode (stream_header TRPC_STREAM_FRAME_CLOSE) @ [1, 2] @ [9])
        (fresh_metadata Request :: unit metadata) = Inl (EnvoyException ''parse header failed'')"
    using frame [of TRPC_STREAM_FRAME_CLOSE strict_pb empty_init empty_close "[9]" "fresh_metadata Request :: unit metadata"]
    by (simp add: view)
  ultimately show ?thesis by blast
qed

text \<open>
  A peer can abort the proxy with one tRPC frame: a complete frame whose stream frame type is
  none of the five of the protocol ends in the \<^verbatim>\<open>PANIC\<close> of
  \<^verbatim>\<open>onStreamFrame\<close> instead of an exception that closes the connection, whatever the rest of the header
  and the payload are.
\<close>

lemma trpc_bad_stream_frame:
  assumes "t_decode_stage c = kDecodeFixedHeader" "fixed_header_ok h"
    and "fh_stream_frame_type h \<notin> {TRPC_UNARY, TRPC_STREAM_FRAME_INIT, TRPC_STREAM_FRAME_DATA,
          TRPC_STREAM_FRAME_FEEDBACK, TRPC_STREAM_FRAME_CLOSE}"
    and "unat (fh_data_frame_size h) = 16 + length payload"
  shows "trpc_decode pb c (fixed_header_encode h @ payload @ rest) md = Inl (Panic ''not reached'')"
  using assms by (simp add: trpc_decode_def checker_loop_stream onStreamFrame_def Let_def)

lemma trpc_bad_stream_frame_example:
  "trpc_decode echo_pb trpc_new (fixed_header_encode (stream_header 9) @ [1, 2] @ [])
     (new_metadata :: unit metadata) = Inl (Panic ''not reached'')"
  by (rule trpc_bad_stream_frame) (simp_all add: trpc_new_def frame_type_defs)

section \<open>Serving a connection\<close>

text \<open>A connection that has sent three bytes of a header.\<close>

lemma trpc_short_read:
  "dispatch_loop (trpc_decode echo_pb) (recorder :: (unit metadata list, unit, unit) callbacks)
     (new_decoder trpc_new Request) [9, 48, 0] [] =
     Some (Inr (waiting trpc_new (new_decoder trpc_new Request), [9, 48, 0]), [])"
proof -
  have m: "trpc_new\<lparr>t_messageType := Request\<rparr> = trpc_new" by (simp add: trpc_new_def)
  have "checker_loop echo_pb trpc_new [9, 48, 0] = Inr (kWaitForData, trpc_new, [9, 48, 0])"
    by (subst checker_loop.simps)
      (simp add: trpc_handleState_def decodeFixedHeader_def PREFIX_SPACE_def trpc_new_def)
  then have "trpc_decode echo_pb trpc_new [9, 48, 0] (fresh_metadata Request :: unit metadata) =
      Inr (WaitForData, trpc_new, [9, 48, 0], fresh_metadata Request)"
    by (simp add: trpc_decode_def m)
  then have "onData (trpc_decode echo_pb) (recorder :: (unit metadata list, unit, unit) callbacks)
      (new_decoder trpc_new Request) [9, 48, 0] [] =
      (Inr (True, waiting trpc_new (new_decoder trpc_new Request), [9, 48, 0]), [])"
    by (intro onData_wait) (simp add: new_decoder_def)
  then show ?thesis by (subst dispatch_loop.simps) simp
qed

text \<open>
  C17: how a tRPC client's bytes are cut into reads does not matter: serving the bytes in one piece
  gives the deliveries, the state and the error that serving them in two pieces gives.
\<close>

theorem trpc_chunking:
  assumes "dispatch_loop (trpc_decode pb) cb d buf s = Some (r, s')"
    and "trpc_ready (d_codec d)" "ext \<noteq> []" "never_waits cb" "\<forall>u. r \<noteq> Inl (Undefined u)"
  shows "dispatch_loop (trpc_decode pb) cb d (buf @ ext) s =
    (case r of Inl e \<Rightarrow> Some (Inl e, s')
     | Inr (d', buf') \<Rightarrow> dispatch_loop (trpc_decode pb) cb d' (buf' @ ext) s')"
  using assms by (rule trpc.dispatch_loop_append)

theorem trpc_chunking_witness:
  "dispatch_loop (trpc_decode echo_pb) (recorder :: (unit metadata list, unit, unit) callbacks)
     (new_decoder trpc_new Request) ([9, 48, 0] @ [0, 0]) [] =
   dispatch_loop (trpc_decode echo_pb) recorder
     (waiting trpc_new (new_decoder trpc_new Request)) ([9, 48, 0] @ [0, 0]) []"
  using trpc_chunking [OF trpc_short_read, of "[0, 0]"]
  by (simp add: new_decoder_def trpc_new_def trpc_ready_def)

text \<open>
  C18: no byte of a tRPC connection is lost, repeated or reordered: the messages delivered, one
  after the other, followed by what is left in the buffer, are the bytes that were read.
\<close>

theorem trpc_bytes_conserved:
  assumes "dispatch_loop (trpc_decode pb) cb d buf s = Some (Inr (d', buf'), s')"
    and "never_waits cb" "trpc_ready (d_codec d)"
  shows "\<exists>mds. deliver_all cb mds s = (Inr (), s')
           \<and> concat (map md_origin_message mds) @ buf' = buf"
  using dispatch_loop_frames [OF assms(1,2) refl] trpc.frames_conserve assms(3) by fastforce

lemma trpc_decode_short:
  assumes "t_decode_stage c = kDecodeFixedHeader" "length buf < 16"
  shows "trpc_decode pb c buf md = Inr (WaitForData, c\<lparr>t_messageType := md_message_type md\<rparr>, buf, md)"
proof -
  have "checker_loop pb (c\<lparr>t_messageType := md_message_type md\<rparr>) buf = Inr (kWaitForData, c\<lparr>t_messageType := md_message_type md\<rparr>, buf)"
    using assms by (subst checker_loop.simps) (simp add: trpc_handleState_def decodeFixedHeader_def PREFIX_SPACE_def)
  then show ?thesis by (simp add: trpc_decode_def)
qed

text \<open>A connection that has sent a whole data frame and three bytes of the next header.\<close>

lemma trpc_one_frame:
  "\<exists>d' md. dispatch_loop (trpc_decode strict_pb) (recorder :: (unit metadata list, unit, unit) callbacks)
      (new_decoder trpc_new Request) (fixed_header_encode (stream_header TRPC_STREAM_FRAME_DATA) @ [1, 2] @ [9, 48, 0]) [] =
      Some (Inr (d', [9, 48, 0]), [md])
    \<and> md_origin_message md = fixed_header_encode (stream_header TRPC_STREAM_FRAME_DATA) @ [1, 2]"
proof -
  let ?buf = "fixed_header_encode (stream_header TRPC_STREAM_FRAME_DATA) @ [1, 2] @ [9, 48, 0]"
  let ?d = "new_decoder trpc_new Request :: (trpc_codec, unit, unit) decoder"
  have c: "t_decode_stage trpc_new = kDecodeFixedHeader" by (simp add: trpc_new_def)
  obtain c' and md :: "unit metadata" where d: "trpc_decode strict_pb trpc_new ?buf (fresh_metadata Request) = Inr (Done, c', [9, 48, 0], md)"
      "md_origin_message md = fixed_header_encode (stream_header TRPC_STREAM_FRAME_DATA) @ [1, 2]"
      "t_decode_stage c' = kDecodeFixedHeader"
    using stream_frame_decodes [of trpc_new "stream_header TRPC_STREAM_FRAME_DATA" "[1, 2]" strict_pb empty_init empty_close
        "[9, 48, 0]" "fresh_metadata Request :: unit metadata", OF c stream_header_ok(1)]
    by auto
  have "trpc_decode strict_pb (d_codec ?d) ?buf (fresh_metadata (d_messageType ?d)) = Inr (Done, c', [9, 48, 0], md)"
    using d(1) by (simp add: new_decoder_def)
  from onData_done [of "trpc_decode strict_pb" ?d ?buf c' "[9, 48, 0]" md recorder "[]", OF this] have 1: "onData (trpc_decode strict_pb) recorder ?d ?buf [] = (Inr (False, idle c' ?d, [9, 48, 0]), [md])"
    by simp
  have 2: "onData (trpc_decode strict_pb) recorder (idle c' ?d) [9, 48, 0] [md] =
      (Inr (True, waiting (c'\<lparr>t_messageType := Request\<rparr>) (idle c' ?d), [9, 48, 0]), [md])"
    using d(3) by (intro onData_wait) (simp add: trpc_decode_short new_decoder_def)
  show ?thesis
    using 1 2 d(2) by (subst dispatch_loop.simps, simp, subst dispatch_loop.simps) simp
qed

theorem trpc_bytes_conserved_witness:
  "\<exists>d' md mds. dispatch_loop (trpc_decode strict_pb) (recorder :: (unit metadata list, unit, unit) callbacks)
      (new_decoder trpc_new Request) (fixed_header_encode (stream_header TRPC_STREAM_FRAME_DATA) @ [1, 2] @ [9, 48, 0]) [] =
      Some (Inr (d', [9, 48, 0]), [md])
    \<and> deliver_all (recorder :: (unit metadata list, unit, unit) callbacks) mds [] = (Inr (), [md])
    \<and> concat (map md_origin_message mds) @ [9, 48, 0] =
        fixed_header_encode (stream_header TRPC_STREAM_FRAME_DATA) @ [1, 2] @ [9, 48, 0]
    \<and> mds \<noteq> []"
proof -
  from trpc_one_frame obtain d' md where l: "dispatch_loop (trpc_decode strict_pb) (recorder :: (unit metadata list, unit, unit) callbacks)
      (new_decoder trpc_new Request) (fixed_header_encode (stream_header TRPC_STREAM_FRAME_DATA) @ [1, 2] @ [9, 48, 0]) [] =
      Some (Inr (d', [9, 48, 0]), [md])" by blast
  have "trpc_ready (d_codec (new_decoder trpc_new Request :: (trpc_codec, unit, unit) decoder))"
    by (simp add: new_decoder_def trpc_new_def trpc_ready_def)
  with trpc_bytes_conserved [OF l] obtain mds where
    "deliver_all (recorder :: (unit metadata list, unit, unit) callbacks) mds [] = (Inr (), [md])"
    "concat (map md_origin_message mds) @ [9, 48, 0] =
        fixed_header_encode (stream_header TRPC_STREAM_FRAME_DATA) @ [1, 2] @ [9, 48, 0]" by auto
  moreover from this(1) have "mds \<noteq> []" by auto
  ultimately show ?thesis using l by blast
qed

end
