(* ===== verification/Dubbo_Protocol.thy ===== *)
theory Dubbo_Protocol
  imports Metadata
begin

unbundle bit_operations_syntax

text \<open>
  The Dubbo protocol below the codec: the data of \<^verbatim>\<open>application_protocols/dubbo\<close>
  (\<^verbatim>\<open>message.h\<close>, \<^verbatim>\<open>metadata.h\<close>, \<^verbatim>\<open>message_impl.h\<close>,
  \<^verbatim>\<open>message_impl.cc\<close>), the header and body of a message
  (\<^verbatim>\<open>dubbo_protocol_impl.cc\<close>), the Hessian serializer
  (\<^verbatim>\<open>dubbo_hessian2_serializer_impl.cc\<close>) and \<^verbatim>\<open>hessian_utils.cc\<close>.

  The Hessian2 library is the parameter \<^verbatim>\<open>hessian\<close>: a decoder reads a value of a
  type from a buffer at an offset and returns it (None for a null pointer) with the offset behind
  it; an encoder gives the bytes of a map.  An object of the library is a string, an untyped map
  (its entries in iteration order) or something else.
\<close>

section \<open>Enumerations\<close>

definition SER_Hessian2 :: byte where "SER_Hessian2 = 2"

datatype dubbo_type = D_Response | D_Request | D_Oneway | D_Exception | D_HeartbeatRequest
  | D_HeartbeatResponse

definition ST_Ok :: byte where "ST_Ok = 20"
definition ST_ClientTimeout :: byte where "ST_ClientTimeout = 30"
definition ST_ServerTimeout :: byte where "ST_ServerTimeout = 31"
definition ST_BadRequest :: byte where "ST_BadRequest = 40"
definition ST_BadResponse :: byte where "ST_BadResponse = 50"
definition ST_ServiceNotFound :: byte where "ST_ServiceNotFound = 60"
definition ST_ServiceError :: byte where "ST_ServiceError = 70"
definition ST_ServerError :: byte where "ST_ServerError = 80"
definition ST_ClientError :: byte where "ST_ClientError = 90"
definition ST_ServerThreadpoolExhaustedError :: byte where "ST_ServerThreadpoolExhaustedError = 100"

lemmas status_defs = ST_Ok_def ST_ClientTimeout_def ST_ServerTimeout_def ST_BadRequest_def
  ST_BadResponse_def ST_ServiceNotFound_def ST_ServiceError_def ST_ServerError_def
  ST_ClientError_def ST_ServerThreadpoolExhaustedError_def

definition RT_ResponseWithException :: byte where "RT_ResponseWithException = 0"
definition RT_ResponseWithValue :: byte where "RT_ResponseWithValue = 1"
definition RT_ResponseWithNullValue :: byte where "RT_ResponseWithNullValue = 2"
definition RT_ResponseWithExceptionWithAttachments :: byte where
  "RT_ResponseWithExceptionWithAttachments = 3"
definition RT_ResponseValueWithAttachments :: byte where "RT_ResponseValueWithAttachments = 4"
definition RT_ResponseNullValueWithAttachments :: byte where "RT_ResponseNullValueWithAttachments = 5"

lemmas response_type_defs = RT_ResponseWithException_def RT_ResponseWithValue_def
  RT_ResponseWithNullValue_def RT_ResponseWithExceptionWithAttachments_def
  RT_ResponseValueWithAttachments_def RT_ResponseNullValueWithAttachments_def

section \<open>Hessian objects\<close>

datatype hobject = HString string | HUntypedMap "(hobject \<times> hobject) list" | HOther nat

type_synonym untyped_map = "(hobject \<times> hobject) list"

fun toString :: "hobject \<Rightarrow> string option" where
  "toString (HString s) = Some s"
| "toString _ = None"

definition umap_find :: "string \<Rightarrow> untyped_map \<Rightarrow> hobject option" where
  "umap_find k m = map_of m (HString k)"

definition umap_erase :: "string \<Rightarrow> untyped_map \<Rightarrow> untyped_map" where
  "umap_erase k m = filter (\<lambda>kv. fst kv \<noteq> HString k) m"

definition umap_emplace :: "hobject \<Rightarrow> hobject \<Rightarrow> untyped_map \<Rightarrow> untyped_map" where
  "umap_emplace k v m = (if k \<in> fst ` set m then m else m @ [(k, v)])"

text \<open>The pairs of a map whose key and value are strings.\<close>

definition string_pairs :: "untyped_map \<Rightarrow> (string \<times> string) list" where
  "string_pairs m = List.map_filter
     (\<lambda>kv. case (toString (fst kv), toString (snd kv)) of
        (Some k, Some v) \<Rightarrow> Some (k, v) | _ \<Rightarrow> None) m"

record hessian =
  h_string :: "buffer \<Rightarrow> nat \<Rightarrow> string option \<times> nat"
  h_int32 :: "buffer \<Rightarrow> nat \<Rightarrow> int option \<times> nat"
  h_object :: "buffer \<Rightarrow> nat \<Rightarrow> hobject option \<times> nat"
  h_encode_map :: "untyped_map \<Rightarrow> buffer"

section \<open>Attachments\<close>

record attachment =
  at_updated :: bool
  at_map :: untyped_map
  at_offset :: u64
  at_headers :: header_map

definition new_attachment :: "untyped_map \<Rightarrow> u64 \<Rightarrow> attachment" where
  "new_attachment value offset =
     \<lparr>at_updated = False, at_map = value, at_offset = offset,
      at_headers = foldl (\<lambda>hs kv. hm_addCopy (LowerCaseString (fst kv)) (snd kv) hs) []
        (string_pairs value)\<rparr>"

definition attachment_insert :: "string \<Rightarrow> string \<Rightarrow> attachment \<Rightarrow> attachment" where
  "attachment_insert key value a =
     a\<lparr>at_updated := True,
       at_map := umap_emplace (HString key) (HString value) (at_map a),
       at_headers := hm_addCopy (LowerCaseString key) value
         (hm_remove (LowerCaseString key) (at_headers a))\<rparr>"

definition attachment_remove :: "string \<Rightarrow> attachment \<Rightarrow> attachment" where
  "attachment_remove key a =
     a\<lparr>at_updated := True, at_map := umap_erase key (at_map a),
       at_headers := hm_remove (LowerCaseString key) (at_headers a)\<rparr>"

definition attachment_lookup :: "string \<Rightarrow> attachment \<Rightarrow> string option" where
  "attachment_lookup key a =
     (case umap_find key (at_map a) of Some v \<Rightarrow> toString v | None \<Rightarrow> None)"

text \<open>\<^verbatim>\<open>HessianUtils::getParametersNumber\<close>: the parameters of a Java type
  descriptor.\<close>

fun count_params :: "string \<Rightarrow> u32 \<Rightarrow> bool \<Rightarrow> u32" where
  "count_params [] count nxt = count"
| "count_params (ch # s) count nxt =
     (if ch = CHR ''['' then count_params s count nxt
      else if nxt \<and> ch \<noteq> CHR '';'' then count_params s count nxt
      else if ch \<in> {CHR ''V'', CHR ''Z'', CHR ''B'', CHR ''C'', CHR ''D'', CHR ''F'', CHR ''I'',
                    CHR ''J'', CHR ''S''} then count_params s (count + 1) nxt
      else if ch = CHR ''L'' then count_params s (count + 1) True
      else if ch = CHR '';'' then count_params s count False
      else count_params s count nxt)"

definition getParametersNumber :: "string \<Rightarrow> u32" where
  "getParametersNumber parameters_type =
     (if parameters_type = [] then 0 else count_params parameters_type 0 False)"

section \<open>Messages\<close>

record dubbo_context =
  cx_header_size :: nat
  cx_body_size :: nat
  cx_heartbeat :: bool
  cx_origin_message :: buffer

definition new_context :: dubbo_context where
  "new_context = \<lparr>cx_header_size = 0, cx_body_size = 0, cx_heartbeat = False,
     cx_origin_message = []\<rparr>"

text \<open>An invocation: the parameters and the attachment are read when they are first asked
  for, by one decoder whose position is \<^verbatim>\<open>iv_offset\<close>.\<close>

record rpc_invocation =
  iv_service_name :: string
  iv_method_name :: string
  iv_service_version :: "string option"
  iv_group :: "string option"
  iv_offset :: nat
  iv_parameters :: "hobject list option"
  iv_attachment :: "attachment option"

record rpc_result =
  rr_has_exception :: bool
  rr_body :: string
  rr_attachment :: "attachment option"

record message_metadata =
  mm_is_two_way :: bool
  mm_message_type :: dubbo_type
  mm_response_status :: "byte option"
  mm_timeout :: "u32 option"
  mm_invocation_info :: "rpc_invocation option"
  mm_result_info :: "rpc_result option"
  mm_serialization_type :: byte
  mm_protocol_version :: byte
  mm_request_id :: u64

definition new_message_metadata :: message_metadata where
  "new_message_metadata = \<lparr>mm_is_two_way = False, mm_message_type = D_Request,
     mm_response_status = None, mm_timeout = None, mm_invocation_info = None,
     mm_result_info = None, mm_serialization_type = SER_Hessian2, mm_protocol_version = 1,
     mm_request_id = 0\<rparr>"

fun read_params :: "hessian \<Rightarrow> buffer \<Rightarrow> nat \<Rightarrow> nat \<Rightarrow> (hobject list \<times> nat) res" where
  "read_params H origin 0 off = Inr ([], off)"
| "read_params H origin (Suc n) off =
     (case h_object H origin off of
        (Some obj, off') \<Rightarrow>
          bindr (read_params H origin n off') (\<lambda>(ps, off''). Inr (obj # ps, off''))
      | (None, off') \<Rightarrow>
          Inl (EnvoyException ''Cannot parse RpcInvocation parameter from buffer''))"

definition assignParametersIfNeed :: "hessian \<Rightarrow> buffer \<Rightarrow> rpc_invocation \<Rightarrow> rpc_invocation res" where
  "assignParametersIfNeed H origin iv =
     (case iv_parameters iv of
        Some _ \<Rightarrow> Inr iv
      | None \<Rightarrow>
          (case h_string H origin (iv_offset iv) of
             (types, off) \<Rightarrow>
               (case types of
                  Some ts \<Rightarrow>
                    if ts \<noteq> [] then
                      bindr (read_params H origin (unat (getParametersNumber ts)) off) (\<lambda>(ps, off').
                        Inr (iv\<lparr>iv_parameters := Some ps, iv_offset := off'\<rparr>))
                    else Inr (iv\<lparr>iv_parameters := Some [], iv_offset := off\<rparr>)
                | None \<Rightarrow> Inr (iv\<lparr>iv_parameters := Some [], iv_offset := off\<rparr>))))"

definition assignAttachmentIfNeed :: "hessian \<Rightarrow> buffer \<Rightarrow> rpc_invocation \<Rightarrow> rpc_invocation res" where
  "assignAttachmentIfNeed H origin iv =
     (case iv_attachment iv of
        Some _ \<Rightarrow> Inr iv
      | None \<Rightarrow>
          bindr (assignParametersIfNeed H origin iv) (\<lambda>iv1.
            let offset = iv_offset iv1;
                (res, off') = h_object H origin offset;
                a = (case res of
                       Some (HUntypedMap m) \<Rightarrow> new_attachment m (word_of_nat offset)
                     | _ \<Rightarrow> new_attachment [] (word_of_nat offset));
                iv2 = iv1\<lparr>iv_attachment := Some a, iv_offset := off'\<rparr>
            in Inr (case attachment_lookup ''group'' a of
                      Some g \<Rightarrow> iv2\<lparr>iv_group := Some g\<rparr> | None \<Rightarrow> iv2)))"

section \<open>The Hessian serializer\<close>

definition deserializeRpcInvocation ::
  "hessian \<Rightarrow> buffer \<Rightarrow> dubbo_context \<Rightarrow> (rpc_invocation \<times> bool) res" where
  "deserializeRpcInvocation H buffer cx =
     (let (dubbo_version, o1) = h_string H buffer 0;
          (service_name, o2) = h_string H buffer o1;
          (service_version, o3) = h_string H buffer o2;
          (method_name, o4) = h_string H buffer o3
      in if cx_body_size cx < o4 then
           Inl (EnvoyException (''RpcInvocation size('' @ show_nat o4 @ '') larger than body size(''
                  @ show_nat (cx_body_size cx) @ '')''))
         else
           (case (dubbo_version, service_name, service_version, method_name) of
              (Some dv, Some sn, Some sv, Some mn) \<Rightarrow>
                Inr (\<lparr>iv_service_name = sn, iv_method_name = mn, iv_service_version = Some sv,
                      iv_group = None, iv_offset = cx_header_size cx + o4, iv_parameters = None,
                      iv_attachment = None\<rparr>, True)
            | _ \<Rightarrow> Inl (EnvoyException ''RpcInvocation has no request metadata'')))"

text \<open>What \<^verbatim>\<open>deserializeRpcResult\<close> reads for each response type: whether a value or
  an attachment is expected behind the type at all (\<^verbatim>\<open>has_value_or_attachment\<close>), the
  exception flag, and whether it reads a value and an attachment.  The case of a null value falls
  through to that of a null value with attachments.\<close>

definition result_shape :: "byte \<Rightarrow> (bool \<times> bool \<times> bool \<times> bool) res" where
  "result_shape t =
     (if t = RT_ResponseWithException then Inr (False, True, False, False)
      else if t = RT_ResponseWithExceptionWithAttachments then Inr (False, True, False, True)
      else if t = RT_ResponseWithNullValue then Inr (False, False, False, True)
      else if t = RT_ResponseNullValueWithAttachments then Inr (True, False, False, True)
      else if t = RT_ResponseWithValue then Inr (True, False, True, False)
      else if t = RT_ResponseValueWithAttachments then Inr (True, False, True, True)
      else Inl (EnvoyException (''not supported return type '' @ show_nat (unat t))))"

definition deserializeRpcResult ::
  "hessian \<Rightarrow> buffer \<Rightarrow> dubbo_context \<Rightarrow> (rpc_result \<times> bool) res" where
  "deserializeRpcResult H buffer cx =
     (case h_int32 H buffer 0 of
        (None, _) \<Rightarrow> Inl (EnvoyException ''Cannot parse RpcResult type from buffer'')
      | (Some type_value, o1) \<Rightarrow>
          bindr (result_shape (word_of_int type_value))
            (\<lambda>(has_value_or_attachment, exc, has_value, has_attachment).
          bindr (if has_value then
                   (case h_string H buffer o1 of
                      (Some body, o2) \<Rightarrow> Inr (body, o2)
                    | (None, _) \<Rightarrow> Inl (Undefined ''null response body''))
                 else Inr ([], o1)) (\<lambda>(body, o2).
          let att = (if has_attachment then
                       (let offset = word_of_nat (cx_header_size cx + o2) in
                        case fst (h_object H buffer o2) of
                          Some (HUntypedMap m) \<Rightarrow> Some (new_attachment m offset)
                        | _ \<Rightarrow> Some (new_attachment [] offset))
                     else None)
          in if cx_body_size cx < o1 then
               Inl (EnvoyException (''RpcResult size('' @ show_nat o1 @ '') large than body size(''
                      @ show_nat (cx_body_size cx) @ '')''))
             else if \<not> has_value_or_attachment \<and> cx_body_size cx \<noteq> o1 then
               Inl (EnvoyException (''RpcResult is no value, but the rest of the body size(''
                      @ show_nat (cx_body_size cx - o1) @ '') not equal 0''))
             else Inr (\<lparr>rr_has_exception = exc, rr_body = body, rr_attachment = att\<rparr>, True))))"

section \<open>The protocol\<close>

definition MagicNumber :: u16 where "MagicNumber = 0xdabb"
definition MessageTypeMask :: byte where "MessageTypeMask = 0x80"
definition EventMask :: byte where "EventMask = 0x20"
definition TwoWayMask :: byte where "TwoWayMask = 0x40"
definition SerializationTypeMask :: byte where "SerializationTypeMask = 0x1f"

definition MessageSize :: nat where "MessageSize = 16"
definition MaxBodySize :: int where "MaxBodySize = 16 * 1024 * 1024"

definition isValidSerializationType :: "byte \<Rightarrow> bool" where
  "isValidSerializationType t \<longleftrightarrow> t = SER_Hessian2"

definition isValidResponseStatus :: "byte \<Rightarrow> bool" where
  "isValidResponseStatus st \<longleftrightarrow> st \<in> {ST_Ok, ST_ClientTimeout, ST_ServerTimeout, ST_BadRequest,
     ST_BadResponse, ST_ServiceNotFound, ST_ServiceError, ST_ClientError,
     ST_ServerThreadpoolExhaustedError}"

definition parseRequestInfoFromBuffer :: "buffer \<Rightarrow> message_metadata \<Rightarrow> message_metadata res" where
  "parseRequestInfoFromBuffer data mm =
     bindr (peekBEInt 2 data) (\<lambda>flag :: byte.
       let is_two_way = (flag AND TwoWayMask = TwoWayMask);
           t = flag AND SerializationTypeMask
       in if \<not> isValidSerializationType t then
            Inl (EnvoyException (''invalid dubbo message serialization type '' @ show_nat (unat t)))
          else
            let mm1 = (if \<not> is_two_way \<and> mm_message_type mm \<noteq> D_HeartbeatRequest
                       then mm\<lparr>mm_message_type := D_Oneway\<rparr> else mm)
            in Inr (mm1\<lparr>mm_serialization_type := t\<rparr>))"

definition parseResponseInfoFromBuffer :: "buffer \<Rightarrow> message_metadata \<Rightarrow> message_metadata res" where
  "parseResponseInfoFromBuffer buffer mm =
     bindr (peekBEInt 3 buffer) (\<lambda>status :: byte.
       if \<not> isValidResponseStatus status then
         Inl (EnvoyException (''invalid dubbo message response status '' @ show_nat (unat status)))
       else Inr (mm\<lparr>mm_response_status := Some status\<rparr>))"

definition decodeHeader ::
  "buffer \<Rightarrow> message_metadata \<Rightarrow> (dubbo_context option \<times> message_metadata) res" where
  "decodeHeader buffer mm =
     (if length buffer < MessageSize then Inr (None, mm)
      else
        bindr (peekBEInt 0 buffer) (\<lambda>magic_number :: u16.
        if magic_number \<noteq> MagicNumber then
          Inl (EnvoyException (''invalid dubbo message magic number '' @ show_nat (unat magic_number)))
        else
        bindr (peekBEInt 2 buffer) (\<lambda>flag :: byte.
        bindr (peekBEInt 4 buffer) (\<lambda>request_id :: u64.
        bindr (peekBEInt 12 buffer) (\<lambda>size :: u32.
          let type = (if flag AND MessageTypeMask = MessageTypeMask then D_Request else D_Response);
              is_event = (flag AND EventMask = EventMask);
              body_size = sint size
          in if body_size > MaxBodySize \<or> body_size < 0 then
               Inl (EnvoyException (''invalid dubbo message size '' @ show_int body_size))
             else
               let mm1 = mm\<lparr>mm_request_id := request_id\<rparr> in
               bindr (if type = D_Request then
                        parseRequestInfoFromBuffer buffer
                          (mm1\<lparr>mm_message_type := (if is_event then D_HeartbeatRequest else type)\<rparr>)
                      else
                        parseResponseInfoFromBuffer buffer
                          (mm1\<lparr>mm_message_type := (if is_event then D_HeartbeatResponse else type)\<rparr>))
                 (\<lambda>mm2. Inr (Some (new_context\<lparr>cx_header_size := MessageSize,
                            cx_body_size := nat body_size, cx_heartbeat := is_event\<rparr>), mm2)))))))"

definition decodeData ::
  "hessian \<Rightarrow> buffer \<Rightarrow> dubbo_context \<Rightarrow> message_metadata \<Rightarrow> (bool \<times> message_metadata) res" where
  "decodeData H buffer cx mm =
     (if length buffer < cx_body_size cx then Inr (False, mm)
      else
        (case mm_message_type mm of
           D_Oneway \<Rightarrow>
             bindr (deserializeRpcInvocation H buffer cx) (\<lambda>(iv, ok).
               if \<not> ok then Inr (False, mm)
               else Inr (True, mm\<lparr>mm_invocation_info := Some iv\<rparr>))
         | D_Request \<Rightarrow>
             bindr (deserializeRpcInvocation H buffer cx) (\<lambda>(iv, ok).
               if \<not> ok then Inr (False, mm)
               else Inr (True, mm\<lparr>mm_invocation_info := Some iv\<rparr>))
         | D_Response \<Rightarrow>
             (case mm_response_status mm of
                None \<Rightarrow> Inl (Undefined ''response_status_ has no value'')
              | Some st \<Rightarrow>
                  if st \<noteq> ST_Ok then Inr (True, mm\<lparr>mm_message_type := D_Exception\<rparr>)
                  else bindr (deserializeRpcResult H buffer cx) (\<lambda>(rr, ok).
                    if \<not> ok then Inr (False, mm)
                    else
                      let mm1 = mm\<lparr>mm_result_info := Some rr\<rparr> in
                      Inr (True, if rr_has_exception rr then mm1\<lparr>mm_message_type := D_Exception\<rparr>
                                 else mm1)))
         | _ \<Rightarrow> Inl (Panic ''not handled'')))"

text \<open>
  The body shared by \<^verbatim>\<open>headerMutation\<close> and \<^verbatim>\<open>rspheaderMutation\<close>: keep the
  header and what precedes the attachment, write the new body size and the attachment.  The sizes
  are of type \<^verbatim>\<open>size_t\<close>.
\<close>

definition rewrite_attachment :: "hessian \<Rightarrow> attachment \<Rightarrow> nat \<Rightarrow> buffer \<Rightarrow> buffer" where
  "rewrite_attachment H a header_size buffer =
     (let hs = word_of_nat header_size :: u64;
          n1 = unat (hs - 4);
          origin = drop 4 (drop n1 buffer);
          attachment_buffer = h_encode_map H (at_map a);
          new_body_size = at_offset a - hs + word_of_nat (length attachment_buffer)
      in take n1 buffer @ be_bytes (ucast new_body_size :: u32)
         @ take (unat (at_offset a - hs)) origin @ attachment_buffer)"

definition headerMutation ::
  "hessian \<Rightarrow> buffer \<Rightarrow> message_metadata \<Rightarrow> dubbo_context \<Rightarrow> buffer" where
  "headerMutation H buffer mm cx =
     (case mm_invocation_info mm of
        None \<Rightarrow> buffer
      | Some iv \<Rightarrow>
          (case iv_attachment iv of
             None \<Rightarrow> buffer
           | Some a \<Rightarrow> if at_updated a then rewrite_attachment H a (cx_header_size cx) buffer
                      else buffer))"

definition rspheaderMutation ::
  "hessian \<Rightarrow> buffer \<Rightarrow> message_metadata \<Rightarrow> dubbo_context \<Rightarrow> buffer" where
  "rspheaderMutation H buffer mm cx =
     (case mm_result_info mm of
        None \<Rightarrow> buffer
      | Some rr \<Rightarrow>
          (case rr_attachment rr of
             None \<Rightarrow> buffer
           | Some a \<Rightarrow> rewrite_attachment H a (cx_header_size cx) buffer))"

definition dubbo_protocol_encode ::
  "hessian \<Rightarrow> buffer \<Rightarrow> message_metadata \<Rightarrow> dubbo_context \<Rightarrow> string \<Rightarrow> (bool \<times> buffer) res" where
  "dubbo_protocol_encode H buffer mm cx content =
     (case mm_message_type mm of
        D_HeartbeatResponse \<Rightarrow>
          (case mm_response_status mm of
             None \<Rightarrow> Inl (Undefined ''response_status_ has no value'')
           | Some st \<Rightarrow>
               Inr (True, be_bytes MagicNumber
                 @ [mm_serialization_type mm XOR EventMask, st]
                 @ be_bytes (mm_request_id mm) @ be_bytes (1 :: u32) @ bytes_of_chars ''N''))
      | D_Response \<Rightarrow>
          Inr (True, if content = ''addheader'' then rspheaderMutation H buffer mm cx else buffer)
      | D_Request \<Rightarrow> Inr (True, headerMutation H buffer mm cx)
      | _ \<Rightarrow> Inl (Panic ''not implemented''))"

section \<open>Header bytes\<close>

text \<open>The sixteen bytes of a Dubbo header.\<close>

definition dubbo_header :: "byte \<Rightarrow> byte \<Rightarrow> u64 \<Rightarrow> u32 \<Rightarrow> buffer" where
  "dubbo_header flag status request_id body_size =
     be_bytes MagicNumber @ [flag, status] @ be_bytes request_id @ be_bytes body_size"

lemma length_dubbo_header [simp]: "length (dubbo_header f st rid sz) = 16"
  by (simp add: dubbo_header_def)

lemma dubbo_header_fields:
  fixes f st :: byte and rid :: u64 and sz :: u32
  shows "peekBEInt 0 (dubbo_header f st rid sz @ rest) = Inr MagicNumber"
    "peekBEInt 2 (dubbo_header f st rid sz @ rest) = Inr f"
    "peekBEInt 3 (dubbo_header f st rid sz @ rest) = Inr st"
    "peekBEInt 4 (dubbo_header f st rid sz @ rest) = Inr rid"
    "peekBEInt 12 (dubbo_header f st rid sz @ rest) = Inr sz"
  by (intro peekBEInt_at, simp_all add: dubbo_header_def)+

lemma sint_body_size:
  fixes sz :: u32
  assumes "unat sz \<le> 16777216"
  shows "sint sz = uint sz" "\<not> 16777216 < uint sz"
proof -
  have u: "uint sz = int (unat sz)" by (rule uint_nat)
  with assms have u': "uint sz \<le> 16777216" by linarith
  have "sint sz = signed_take_bit 31 (uint sz)" using sint_uint [of sz] by simp
  also have "\<dots> = uint sz"
    using u' by (intro signed_take_bit_int_eq_self) (simp_all add: order_trans [OF _ uint_ge_0])
  finally show "sint sz = uint sz" .
  show "\<not> 16777216 < uint sz" using u' by simp
qed

lemma decodeHeader_request:
  fixes f st :: byte and rid :: u64 and sz :: u32
  assumes "f AND 0x80 = 0x80" "f AND 0x1f = 2" "unat sz \<le> 16777216"
  shows "decodeHeader (dubbo_header f st rid sz @ rest) mm =
     Inr (Some (new_context\<lparr>cx_header_size := 16, cx_body_size := unat sz,
                 cx_heartbeat := (f AND 0x20 = 0x20)\<rparr>),
       mm\<lparr>mm_request_id := rid, mm_serialization_type := SER_Hessian2,
          mm_message_type := (if f AND 0x20 = 0x20 then D_HeartbeatRequest
                              else if f AND 0x40 = 0x40 then D_Request else D_Oneway)\<rparr>)"
proof -
  note s = sint_body_size [OF assms(3)]
  show ?thesis
    using assms
    by (simp add: decodeHeader_def dubbo_header_fields MessageSize_def Let_def s MaxBodySize_def
      MessageTypeMask_def EventMask_def parseRequestInfoFromBuffer_def SerializationTypeMask_def
      TwoWayMask_def isValidSerializationType_def SER_Hessian2_def)
qed

lemma decodeHeader_heartbeat_response:
  fixes f :: byte and rid :: u64 and sz :: u32
  assumes "f AND 0x80 \<noteq> 0x80" "f AND 0x20 = 0x20" "unat sz \<le> 16777216"
  shows "decodeHeader (dubbo_header f ST_Ok rid sz @ rest) mm =
     Inr (Some (new_context\<lparr>cx_header_size := 16, cx_body_size := unat sz, cx_heartbeat := True\<rparr>),
       mm\<lparr>mm_request_id := rid, mm_message_type := D_HeartbeatResponse,
          mm_response_status := Some ST_Ok\<rparr>)"
proof -
  note s = sint_body_size [OF assms(3)]
  show ?thesis
    using assms
    by (simp add: decodeHeader_def dubbo_header_fields MessageSize_def Let_def s MaxBodySize_def
      MessageTypeMask_def EventMask_def parseResponseInfoFromBuffer_def isValidResponseStatus_def)
qed

end
