(* ===== verification/Dubbo_Codec.thy ===== *)
theory Dubbo_Codec
  imports Decoder Dubbo_Protocol
begin

text \<open>
  The Dubbo codec: \<^verbatim>\<open>dubbo_codec.h\<close> and \<^verbatim>\<open>dubbo_codec.cc\<close>.  The objects
  the codec keeps in the properties of a message are the datatype \<^verbatim>\<open>dubbo_obj\<close>.  An
  invocation is a shared object that encoding a request changes; the encoding functions return the
  metadata with the changed object next to the bytes.
\<close>

section \<open>State\<close>

datatype dubbo_obj =
    DInvocation "rpc_invocation option"
  | DResult "rpc_result option"
  | DProtocolType
  | DVersion byte
  | DMessageType dubbo_type
  | DTimeout "u32 option"
  | DSerialization byte
  | DStatus byte

datatype dubbo_state = DS_StopIteration | DS_WaitForData | OnDecodeStreamHeader
  | DS_OnDecodeStreamData | DS_Done

record dubbo_machine =
  sm_metadata :: message_metadata
  sm_context :: "dubbo_context option"
  sm_state :: dubbo_state

record dubbo_codec =
  dc_state_machine :: "dubbo_machine option"
  dc_decode_started :: bool

definition dubbo_new :: dubbo_codec where
  "dubbo_new = \<lparr>dc_state_machine = None, dc_decode_started = False\<rparr>"

section \<open>The state machine\<close>

definition onDecodeStreamHeader ::
  "dubbo_machine \<Rightarrow> buffer \<Rightarrow> (dubbo_state \<times> dubbo_machine \<times> buffer) res" where
  "onDecodeStreamHeader m buffer =
     bindr (decodeHeader buffer (sm_metadata m)) (\<lambda>(cx, mm).
       let m1 = m\<lparr>sm_metadata := mm\<rparr> in
       case cx of
         None \<Rightarrow> Inr (DS_WaitForData, m1, buffer)
       | Some c \<Rightarrow>
           let m2 = m1\<lparr>sm_context := Some c\<rparr>;
               total = cx_header_size c + cx_body_size c in
           if mm_message_type mm = D_HeartbeatRequest \<or> mm_message_type mm = D_HeartbeatResponse then
             (if length buffer < total then Inr (DS_WaitForData, m2, buffer)
              else Inr (DS_Done,
                     m2\<lparr>sm_context := Some (c\<lparr>cx_origin_message := cx_origin_message c @ take total buffer\<rparr>)\<rparr>,
                     drop total buffer))
           else Inr (DS_OnDecodeStreamData,
                  m2\<lparr>sm_context := Some (c\<lparr>cx_origin_message :=
                       cx_origin_message c @ take (cx_header_size c) buffer\<rparr>)\<rparr>,
                  drop (cx_header_size c) buffer))"

definition onDecodeStreamData ::
  "hessian \<Rightarrow> dubbo_machine \<Rightarrow> buffer \<Rightarrow> (dubbo_state \<times> dubbo_machine \<times> buffer) res" where
  "onDecodeStreamData H m buffer =
     (case sm_context m of
        None \<Rightarrow> Inl (Undefined ''context_ is null'')
      | Some c \<Rightarrow>
          bindr (decodeData H buffer c (sm_metadata m)) (\<lambda>(ok, mm).
            let m1 = m\<lparr>sm_metadata := mm\<rparr> in
            if \<not> ok then Inr (DS_WaitForData, m1, buffer)
            else Inr (DS_Done,
                   m1\<lparr>sm_context := Some (c\<lparr>cx_origin_message :=
                        cx_origin_message c @ take (cx_body_size c) buffer\<rparr>)\<rparr>,
                   drop (cx_body_size c) buffer)))"

definition dubbo_handleState ::
  "hessian \<Rightarrow> dubbo_machine \<Rightarrow> buffer \<Rightarrow> (dubbo_state \<times> dubbo_machine \<times> buffer) res" where
  "dubbo_handleState H m buffer =
     (case sm_state m of
        OnDecodeStreamHeader \<Rightarrow> onDecodeStreamHeader m buffer
      | DS_OnDecodeStreamData \<Rightarrow> onDecodeStreamData H m buffer
      | _ \<Rightarrow> Inl (Panic ''not reached''))"

definition dubbo_rank :: "dubbo_state \<Rightarrow> nat" where
  "dubbo_rank st = (case st of OnDecodeStreamHeader \<Rightarrow> 2 | DS_OnDecodeStreamData \<Rightarrow> 1 | _ \<Rightarrow> 0)"

lemmas dubbo_handle_defs = dubbo_handleState_def onDecodeStreamHeader_def onDecodeStreamData_def Let_def

lemma dubbo_handleState_rank:
  "dubbo_handleState H m buffer = Inr (st, m', buffer') \<Longrightarrow>
     dubbo_rank st < dubbo_rank (sm_state m)"
  by (auto simp: dubbo_handle_defs dubbo_rank_def bindr_eq_Inr
      split: dubbo_state.splits if_splits option.splits)

function dubbo_run ::
  "hessian \<Rightarrow> dubbo_machine \<Rightarrow> buffer \<Rightarrow> (dubbo_state \<times> dubbo_machine \<times> buffer) res" where
  "dubbo_run H m buffer =
     (if sm_state m = DS_Done then Inr (DS_Done, m, buffer)
      else bindr (dubbo_handleState H m buffer) (\<lambda>(st, m', buffer').
        if st = DS_WaitForData then Inr (DS_WaitForData, m', buffer')
        else dubbo_run H (m'\<lparr>sm_state := st\<rparr>) buffer'))"
  by auto
termination
  by (relation "measure (\<lambda>(H, m, b). dubbo_rank (sm_state m))")
    (auto dest: dubbo_handleState_rank)

declare dubbo_run.simps [simp del]

definition dubbo_start :: "dubbo_codec \<Rightarrow> dubbo_codec" where
  "dubbo_start c = c\<lparr>dc_state_machine := Some \<lparr>sm_metadata = new_message_metadata,
     sm_context = None, sm_state = OnDecodeStreamHeader\<rparr>, dc_decode_started := True\<rparr>"

definition dubbo_complete :: "dubbo_codec \<Rightarrow> dubbo_codec" where
  "dubbo_complete c = c\<lparr>dc_state_machine := None, dc_decode_started := False\<rparr>"

section \<open>To and from the metadata of the proxy\<close>

definition put_pairs :: "(string \<times> string) list \<Rightarrow> 'x metadata \<Rightarrow> 'x metadata" where
  "put_pairs kvs md = foldl (\<lambda>m kv. putString (fst kv) (snd kv) m) md kvs"

definition dubbo_message_type :: "dubbo_type \<Rightarrow> message_type" where
  "dubbo_message_type t =
     (case t of D_Request \<Rightarrow> Request | D_Response \<Rightarrow> Response | D_Oneway \<Rightarrow> Oneway
      | D_Exception \<Rightarrow> MT_Error | D_HeartbeatRequest \<Rightarrow> Heartbeat | D_HeartbeatResponse \<Rightarrow> Heartbeat)"

text \<open>\<^verbatim>\<open>toMetadata(msgMetadata, metadata)\<close>; \<^verbatim>\<open>origin\<close> is the message the
  lazy decoder of the invocation reads.\<close>

definition dubbo_invocationToMetadata ::
  "hessian \<Rightarrow> buffer \<Rightarrow> message_metadata \<Rightarrow> dubbo_obj metadata
   \<Rightarrow> (message_metadata \<times> dubbo_obj metadata) res" where
  "dubbo_invocationToMetadata H origin mm md =
     (case mm_invocation_info mm of
        None \<Rightarrow> Inr (mm, md)
      | Some iv \<Rightarrow>
          bindr (assignAttachmentIfNeed H origin iv) (\<lambda>iv'.
            case iv_attachment iv' of
              None \<Rightarrow> Inl (Undefined ''attachment_ is null'')
            | Some a \<Rightarrow>
                let md1 = (putString ''method'' (iv_method_name iv)
                      (putString ''interface'' (iv_service_name iv) md))
                      \<lparr>md_operation_name := iv_service_name iv @ ''/'' @ iv_method_name iv\<rparr>
                in Inr (mm\<lparr>mm_invocation_info := Some iv'\<rparr>, put_pairs (string_pairs (at_map a)) md1)))"

definition dubbo_fieldsToMetadata :: "message_metadata \<Rightarrow> dubbo_obj metadata \<Rightarrow> dubbo_obj metadata" where
  "dubbo_fieldsToMetadata mm md =
     (let md1 = put ''InvocationInfo'' (AnyObj (DInvocation (mm_invocation_info mm))) md;
          md2 = put ''ProtocolType'' (AnyObj DProtocolType) md1;
          md3 = put ''ProtocolVersion'' (AnyObj (DVersion (mm_protocol_version mm))) md2;
          md4 = put ''MessageType'' (AnyObj (DMessageType (mm_message_type mm))) md3;
          md5 = md4\<lparr>md_request_id := mm_request_id mm\<rparr>;
          md6 = (if mm_timeout mm \<noteq> None then put ''Timeout'' (AnyObj (DTimeout (mm_timeout mm))) md5
                 else md5);
          md7 = put ''TwoWay'' (AnyBool (mm_is_two_way mm)) md6;
          md8 = put ''SerializationType'' (AnyObj (DSerialization (mm_serialization_type mm))) md7
      in case mm_response_status mm of
           Some st \<Rightarrow> put ''ResponseStatus'' (AnyObj (DStatus st)) md8
         | None \<Rightarrow> md8)"

definition dubbo_resultToMetadata ::
  "message_metadata \<Rightarrow> dubbo_obj metadata \<Rightarrow> dubbo_obj metadata res" where
  "dubbo_resultToMetadata mm md =
     (case mm_result_info mm of
        None \<Rightarrow> Inr md
      | Some rr \<Rightarrow>
          (case rr_attachment rr of
             None \<Rightarrow> Inl (Undefined ''attachment_ is null'')
           | Some a \<Rightarrow> Inr (put ''RpcResultInfo'' (AnyObj (DResult (Some rr)))
                            (put_pairs (string_pairs (at_map a)) md))))"

definition dubbo_toMetadata ::
  "hessian \<Rightarrow> message_metadata \<Rightarrow> dubbo_context \<Rightarrow> dubbo_obj metadata \<Rightarrow> dubbo_obj metadata res" where
  "dubbo_toMetadata H mm cx md =
     bindr (dubbo_invocationToMetadata H (cx_origin_message cx) mm md) (\<lambda>(mm1, md1).
     bindr (dubbo_resultToMetadata mm1 (dubbo_fieldsToMetadata mm1 md1)) (\<lambda>md2.
       let md3 = md2\<lparr>md_message_type := dubbo_message_type (mm_message_type mm1)\<rparr>;
           md4 = (case mm_response_status mm1 of
                    Some st \<Rightarrow> md3\<lparr>md_response_status := (if st = ST_Ok then RS_Ok else RS_Error)\<rparr>
                  | None \<Rightarrow> md3)
       in Inr (md4\<lparr>md_header_size := word_of_nat (cx_header_size cx),
                   md_body_size := word_of_nat (cx_body_size cx),
                   md_origin_message := md_origin_message md4 @ cx_origin_message cx\<rparr>)))"

definition dubbo_decode :: "hessian \<Rightarrow> (dubbo_codec, dubbo_obj) decode_fn" where
  "dubbo_decode H c buffer md =
     (let c0 = (if \<not> dc_decode_started c then dubbo_start c else c) in
      case dc_state_machine c0 of
        None \<Rightarrow> Inl (Undefined ''state_machine_ is null'')
      | Some m \<Rightarrow>
          bindr (dubbo_run H m buffer) (\<lambda>(st, m', buffer').
            let c1 = c0\<lparr>dc_state_machine := Some m'\<rparr> in
            if st = DS_WaitForData then Inr (WaitForData, c1, buffer', md)
            else
              (case sm_context m' of
                 None \<Rightarrow> Inl (Undefined ''context_ is null'')
               | Some cx \<Rightarrow>
                   bindr (dubbo_toMetadata H (sm_metadata m') cx md) (\<lambda>md'.
                     Inr (Done, dubbo_complete c1, buffer', md')))))"

text \<open>\<^verbatim>\<open>toMsgMetadata\<close>: a missing entry is dereferenced (the assertions are compiled
  out in an optimised build); an entry of another type throws.\<close>

definition required :: "string \<Rightarrow> dubbo_obj metadata \<Rightarrow> (dubbo_obj \<Rightarrow> 'a option) \<Rightarrow> 'a res" where
  "required key md proj =
     (case getByKey key md of
        None \<Rightarrow> Inl (Undefined ''missing property'')
      | Some (AnyObj ob) \<Rightarrow> (case proj ob of Some x \<Rightarrow> Inr x | None \<Rightarrow> Inl BadAnyCast)
      | Some _ \<Rightarrow> Inl BadAnyCast)"

definition present :: "string \<Rightarrow> dubbo_obj metadata \<Rightarrow> (dubbo_obj \<Rightarrow> 'a option) \<Rightarrow> 'a option res" where
  "present key md proj =
     (case getByKey key md of
        None \<Rightarrow> Inr None
      | Some (AnyObj ob) \<Rightarrow> (case proj ob of Some x \<Rightarrow> Inr (Some x) | None \<Rightarrow> Inl BadAnyCast)
      | Some _ \<Rightarrow> Inl BadAnyCast)"

definition toMsgMetadata :: "dubbo_obj metadata \<Rightarrow> message_metadata res" where
  "toMsgMetadata md =
     bindr (present ''InvocationInfo'' md (\<lambda>ob. case ob of DInvocation i \<Rightarrow> Some i | _ \<Rightarrow> None)) (\<lambda>inv.
     bindr (present ''RpcResultInfo'' md (\<lambda>ob. case ob of DResult r \<Rightarrow> Some r | _ \<Rightarrow> None)) (\<lambda>res.
     bindr (required ''ProtocolType'' md (\<lambda>ob. case ob of DProtocolType \<Rightarrow> Some () | _ \<Rightarrow> None)) (\<lambda>_.
     bindr (required ''ProtocolVersion'' md (\<lambda>ob. case ob of DVersion v \<Rightarrow> Some v | _ \<Rightarrow> None)) (\<lambda>ver.
     bindr (required ''MessageType'' md (\<lambda>ob. case ob of DMessageType t \<Rightarrow> Some t | _ \<Rightarrow> None)) (\<lambda>mt.
     bindr (case getByKey ''Timeout'' md of
              None \<Rightarrow> Inr None
            | Some (AnyUint32 t) \<Rightarrow> Inr (Some t)
            | Some _ \<Rightarrow> Inl BadAnyCast) (\<lambda>tmo.
     bindr (getBool ''TwoWay'' md) (\<lambda>tw.
     bindr (required ''SerializationType'' md (\<lambda>ob. case ob of DSerialization s \<Rightarrow> Some s | _ \<Rightarrow> None)) (\<lambda>ser.
     bindr (present ''ResponseStatus'' md (\<lambda>ob. case ob of DStatus s \<Rightarrow> Some s | _ \<Rightarrow> None)) (\<lambda>st.
       Inr (new_message_metadata\<lparr>mm_request_id := md_request_id md,
              mm_invocation_info := (case inv of Some i \<Rightarrow> i | None \<Rightarrow> None),
              mm_result_info := (case res of Some r \<Rightarrow> r | None \<Rightarrow> None),
              mm_protocol_version := ver, mm_message_type := mt, mm_timeout := tmo,
              mm_is_two_way := tw, mm_serialization_type := ser,
              mm_response_status := st\<rparr>))))))))))"

section \<open>Encoding\<close>

text \<open>
  The mutations are written into the attachment of the invocation, an object shared with the
  metadata.  Asking an invocation without an attachment for it runs its lazy decoder on the origin
  message of the context, which was moved into the metadata when the message was decoded.
\<close>

definition mutate_attachment :: "mutation \<Rightarrow> attachment \<Rightarrow> attachment" where
  "mutate_attachment mut a =
     foldl (\<lambda>b kv. attachment_insert (fst kv) (snd kv) (attachment_remove (fst kv) b)) a mut"

definition encodeHeartbeat :: "hessian \<Rightarrow> dubbo_obj metadata \<Rightarrow> buffer \<Rightarrow> buffer res" where
  "encodeHeartbeat H md buffer =
     bindr (toMsgMetadata md) (\<lambda>mm.
     bindr (dubbo_protocol_encode H buffer (mm\<lparr>mm_response_status := Some ST_Ok,
              mm_message_type := D_HeartbeatResponse\<rparr>) new_context []) (\<lambda>(ok, buffer').
       if \<not> ok then Inl (EnvoyException ''failed to encode heartbeat message'') else Inr buffer'))"

definition metadata_context :: "dubbo_obj metadata \<Rightarrow> dubbo_context" where
  "metadata_context md = new_context\<lparr>cx_header_size := unat (md_header_size md),
     cx_body_size := unat (md_body_size md)\<rparr>"

definition encodeRequest ::
  "hessian \<Rightarrow> dubbo_obj metadata \<Rightarrow> mutation \<Rightarrow> buffer \<Rightarrow> (buffer \<times> dubbo_obj metadata) res" where
  "encodeRequest H md mut buffer =
     bindr (toMsgMetadata md) (\<lambda>mm.
     bindr (case mm_invocation_info mm of
              None \<Rightarrow> Inr (mm, md)
            | Some iv \<Rightarrow>
                if mut = [] then Inr (mm, md)
                else bindr (assignAttachmentIfNeed H [] iv) (\<lambda>iv1.
                  let iv2 = iv1\<lparr>iv_attachment := map_option (mutate_attachment mut) (iv_attachment iv1)\<rparr>
                  in Inr (mm\<lparr>mm_invocation_info := Some iv2\<rparr>,
                          put ''InvocationInfo'' (AnyObj (DInvocation (Some iv2))) md))) (\<lambda>(mm1, md1).
     bindr (dubbo_protocol_encode H buffer mm1 (metadata_context md) []) (\<lambda>(ok, buffer').
       if \<not> ok then Inl (EnvoyException ''failed to encode request message'')
       else Inr (buffer', md1))))"

definition encodeResponse ::
  "hessian \<Rightarrow> dubbo_obj metadata \<Rightarrow> mutation \<Rightarrow> buffer \<Rightarrow> (buffer \<times> dubbo_obj metadata) res" where
  "encodeResponse H md mut buffer =
     bindr (toMsgMetadata md) (\<lambda>mm.
     case mm_result_info mm of
       None \<Rightarrow> Inr (buffer, md)
     | Some rr \<Rightarrow>
         if mut = [] then Inr (buffer, md)
         else
           (case rr_attachment rr of
              None \<Rightarrow> Inl (Undefined ''attachment_ is null'')
            | Some a \<Rightarrow>
                let rr1 = rr\<lparr>rr_attachment := Some (mutate_attachment mut a)\<rparr> in
                bindr (dubbo_protocol_encode H buffer (mm\<lparr>mm_result_info := Some rr1\<rparr>)
                         (metadata_context md) ''addheader'') (\<lambda>(ok, buffer').
                  if \<not> ok then Inl (EnvoyException ''failed to encode request message'')
                  else Inr (buffer', put ''RpcResultInfo'' (AnyObj (DResult (Some rr1))) md))))"

definition dubbo_encode ::
  "hessian \<Rightarrow> dubbo_obj metadata \<Rightarrow> mutation \<Rightarrow> buffer \<Rightarrow> (buffer \<times> dubbo_obj metadata) res" where
  "dubbo_encode H md mut buffer =
     (case md_message_type md of
        Heartbeat \<Rightarrow> bindr (encodeHeartbeat H md buffer) (\<lambda>b. Inr (b, md))
      | Request \<Rightarrow> encodeRequest H md mut buffer
      | Response \<Rightarrow> encodeResponse H md mut buffer
      | MT_Error \<Rightarrow> Inr (buffer, md)
      | _ \<Rightarrow> Inl (Panic ''not reached''))"

definition dubbo_error_status :: "error_type \<Rightarrow> byte" where
  "dubbo_error_status t =
     (case t of RouteNotFound \<Rightarrow> ST_ServiceNotFound | BadResponse \<Rightarrow> ST_BadResponse
      | _ \<Rightarrow> ST_ServerError)"

definition dubbo_onError ::
  "hessian \<Rightarrow> dubbo_obj metadata \<Rightarrow> error \<Rightarrow> buffer \<Rightarrow> buffer res" where
  "dubbo_onError H md err buffer =
     bindr (toMsgMetadata md) (\<lambda>mm.
     bindr (dubbo_protocol_encode H buffer
              (mm\<lparr>mm_response_status := Some (dubbo_error_status (err_type err)),
                 mm_message_type := D_Response\<rparr>) new_context (err_message err)) (\<lambda>(ok, buffer').
       if \<not> ok then Inl (EnvoyException ''failed to encode heartbeat message'') else Inr buffer'))"

section \<open>The state machine keeps every byte\<close>

definition machine_ok :: "dubbo_machine \<Rightarrow> bool" where
  "machine_ok m \<longleftrightarrow>
     (case sm_state m of
        OnDecodeStreamHeader \<Rightarrow> True
      | DS_OnDecodeStreamData \<Rightarrow>
          (case sm_context m of Some cx \<Rightarrow> length (cx_origin_message cx) = MessageSize | None \<Rightarrow> False)
      | _ \<Rightarrow> False)"

definition machine_pending :: "dubbo_machine \<Rightarrow> buffer" where
  "machine_pending m =
     (case sm_state m of
        DS_OnDecodeStreamData \<Rightarrow> (case sm_context m of Some cx \<Rightarrow> cx_origin_message cx | None \<Rightarrow> [])
      | _ \<Rightarrow> [])"

lemma decodeHeader_context:
  assumes "decodeHeader buf mm = Inr (Some cx, mm')"
  shows "cx_origin_message cx = [] \<and> cx_header_size cx = 16 \<and> 16 \<le> length buf"
  using assms unfolding decodeHeader_def Let_def
  by (auto simp: new_context_def MessageSize_def elim!: bindr_InrE split: if_split_asm)

lemma onDecodeStreamHeader_cases:
  assumes "onDecodeStreamHeader m buf = Inr (st, m', buf')"
  shows "(st = DS_WaitForData \<and> buf' = buf \<and> sm_state m' = sm_state m)
    \<or> (st = DS_Done \<and> (\<exists>cx. sm_context m' = Some cx \<and> cx_origin_message cx @ buf' = buf
         \<and> 16 \<le> length (cx_origin_message cx)))
    \<or> (st = DS_OnDecodeStreamData \<and> (\<exists>cx. sm_context m' = Some cx \<and> cx_origin_message cx @ buf' = buf
         \<and> length (cx_origin_message cx) = 16))"
  using assms unfolding onDecodeStreamHeader_def Let_def
  by (auto elim!: bindr_InrE split: option.split_asm if_split_asm dest!: decodeHeader_context)

lemma onDecodeStreamData_cases:
  assumes "onDecodeStreamData H m buf = Inr (st, m', buf')"
  shows "\<exists>cx. sm_context m = Some cx \<and>
    ((st = DS_WaitForData \<and> buf' = buf \<and> sm_state m' = sm_state m \<and> sm_context m' = Some cx)
     \<or> (st = DS_Done \<and> (\<exists>cx'. sm_context m' = Some cx'
          \<and> cx_origin_message cx' @ buf' = cx_origin_message cx @ buf
          \<and> length (cx_origin_message cx) \<le> length (cx_origin_message cx'))))"
proof (cases "sm_context m")
  case (Some cx)
  with assms obtain ok mm where d: "decodeData H buf cx (sm_metadata m) = Inr (ok, mm)"
    by (auto simp: onDecodeStreamData_def elim!: bindr_InrE)
  with Some assms show ?thesis by (cases ok) (auto simp: onDecodeStreamData_def Let_def)
qed (use assms in \<open>simp add: onDecodeStreamData_def\<close>)

lemma dubbo_run_Done [simp]: "sm_state m = DS_Done \<Longrightarrow> dubbo_run H m buf = Inr (DS_Done, m, buf)"
  by (simp add: dubbo_run.simps)

lemma dubbo_run_step:
  assumes "dubbo_run H m buf = Inr (st, m', buf')" "sm_state m \<noteq> DS_Done"
  obtains s1 m1 b1 where "dubbo_handleState H m buf = Inr (s1, m1, b1)"
    "if s1 = DS_WaitForData then st = s1 \<and> m' = m1 \<and> buf' = b1
     else dubbo_run H (m1\<lparr>sm_state := s1\<rparr>) b1 = Inr (st, m', buf')"
  using assms by (subst (asm) dubbo_run.simps) (auto elim!: bindr_InrE split: if_split_asm)

lemma dubbo_run_data:
  assumes "dubbo_run H m buf = Inr (st, m', buf')" "sm_state m = DS_OnDecodeStreamData"
    "sm_context m = Some cx" "length (cx_origin_message cx) = 16"
  shows "(st = DS_WaitForData \<and> machine_ok m' \<and> machine_pending m' @ buf' = cx_origin_message cx @ buf)
    \<or> (st = DS_Done \<and> (\<exists>cx'. sm_context m' = Some cx'
         \<and> cx_origin_message cx' @ buf' = cx_origin_message cx @ buf
         \<and> 16 \<le> length (cx_origin_message cx')))"
proof -
  from assms(1,2) obtain s1 m1 b1 where
    h: "dubbo_handleState H m buf = Inr (s1, m1, b1)" and
    r: "if s1 = DS_WaitForData then st = s1 \<and> m' = m1 \<and> buf' = b1
     else dubbo_run H (m1\<lparr>sm_state := s1\<rparr>) b1 = Inr (st, m', buf')"
    by (auto elim: dubbo_run_step)
  from h assms(2) have "onDecodeStreamData H m buf = Inr (s1, m1, b1)"
    by (simp add: dubbo_handleState_def)
  from onDecodeStreamData_cases [OF this] r assms(2-4) show ?thesis
    by (auto simp: machine_ok_def machine_pending_def MessageSize_def)
qed

lemma dubbo_run_cases:
  assumes "dubbo_run H m buf = Inr (st, m', buf')" "machine_ok m"
  shows "(st = DS_WaitForData \<and> machine_ok m' \<and> machine_pending m' @ buf' = machine_pending m @ buf)
    \<or> (st = DS_Done \<and> (\<exists>cx'. sm_context m' = Some cx'
         \<and> cx_origin_message cx' @ buf' = machine_pending m @ buf
         \<and> 16 \<le> length (cx_origin_message cx')))"
proof (cases "sm_state m")
  case OnDecodeStreamHeader
  with assms(1) obtain s1 m1 b1 where
    h: "dubbo_handleState H m buf = Inr (s1, m1, b1)" and
    r: "if s1 = DS_WaitForData then st = s1 \<and> m' = m1 \<and> buf' = b1
     else dubbo_run H (m1\<lparr>sm_state := s1\<rparr>) b1 = Inr (st, m', buf')"
    by (auto elim: dubbo_run_step)
  from h OnDecodeStreamHeader have "onDecodeStreamHeader m buf = Inr (s1, m1, b1)"
    by (simp add: dubbo_handleState_def)
  note c = onDecodeStreamHeader_cases [OF this]
  have p: "machine_pending m = []" using OnDecodeStreamHeader by (simp add: machine_pending_def)
  from c show ?thesis
  proof (elim disjE conjE exE)
    assume "s1 = DS_WaitForData" "b1 = buf" "sm_state m1 = sm_state m"
    with r OnDecodeStreamHeader p show ?thesis by (auto simp: machine_ok_def machine_pending_def)
  next
    fix cx assume "s1 = DS_Done" "sm_context m1 = Some cx" "cx_origin_message cx @ b1 = buf"
      "16 \<le> length (cx_origin_message cx)"
    with r p show ?thesis by auto
  next
    fix cx assume d: "s1 = DS_OnDecodeStreamData" "sm_context m1 = Some cx"
      "cx_origin_message cx @ b1 = buf" "length (cx_origin_message cx) = 16"
    from r d(1) have "dubbo_run H (m1\<lparr>sm_state := DS_OnDecodeStreamData\<rparr>) b1 = Inr (st, m', buf')"
      by simp
    from dubbo_run_data [OF this, of cx] d p show ?thesis by simp
  qed
next
  case DS_OnDecodeStreamData
  with assms(2) obtain cx where "sm_context m = Some cx" "length (cx_origin_message cx) = 16"
    by (auto simp: machine_ok_def MessageSize_def split: option.splits)
  with dubbo_run_data [OF assms(1) DS_OnDecodeStreamData this] DS_OnDecodeStreamData show ?thesis
    by (simp add: machine_pending_def)
qed (use assms(2) in \<open>simp_all add: machine_ok_def\<close>)

definition dubbo_ready :: "dubbo_codec \<Rightarrow> bool" where
  "dubbo_ready c \<longleftrightarrow>
     (dc_decode_started c \<longrightarrow> (case dc_state_machine c of Some m \<Rightarrow> machine_ok m | None \<Rightarrow> False))"

definition dubbo_pending :: "dubbo_codec \<Rightarrow> buffer" where
  "dubbo_pending c =
     (if dc_decode_started c then
        (case dc_state_machine c of Some m \<Rightarrow> machine_pending m | None \<Rightarrow> [])
      else [])"

lemma put_pairs_origin [simp]: "md_origin_message (put_pairs kvs md) = md_origin_message md"
  unfolding put_pairs_def by (induction kvs arbitrary: md) simp_all

lemma dubbo_toMetadata_origin:
  "dubbo_toMetadata H mm cx md = Inr md' \<Longrightarrow>
     md_origin_message md' = md_origin_message md @ cx_origin_message cx"
  unfolding dubbo_toMetadata_def dubbo_invocationToMetadata_def dubbo_resultToMetadata_def
    dubbo_fieldsToMetadata_def Let_def
  by (auto elim!: bindr_InrE split: option.split_asm if_split_asm)

lemma dubbo_decode_cases:
  assumes "dubbo_decode H c buf md = Inr (st, c', buf', md')" "dubbo_ready c"
  shows "(st = WaitForData \<and> dubbo_ready c' \<and> md' = md
            \<and> dubbo_pending c' @ buf' = dubbo_pending c @ buf)
    \<or> (st = Done \<and> \<not> dc_decode_started c' \<and> (\<exists>m. md_origin_message md' = md_origin_message md @ m
         \<and> m @ buf' = dubbo_pending c @ buf \<and> m \<noteq> []))"
proof -
  define c0 where "c0 = (if \<not> dc_decode_started c then dubbo_start c else c)"
  have "\<exists>m. dc_state_machine c0 = Some m \<and> machine_ok m \<and> machine_pending m = dubbo_pending c"
    using assms(2) by (auto simp: c0_def dubbo_start_def dubbo_ready_def dubbo_pending_def
        machine_ok_def machine_pending_def split: option.splits)
  then obtain m where m: "dc_state_machine c0 = Some m" "machine_ok m"
    "machine_pending m = dubbo_pending c" by blast
  have s: "dc_decode_started c0" by (simp add: c0_def dubbo_start_def)
  from assms(1) m(1) obtain s1 m1 where
    r: "dubbo_run H m buf = Inr (s1, m1, buf')" and
    e: "if s1 = DS_WaitForData then st = WaitForData \<and> c' = c0\<lparr>dc_state_machine := Some m1\<rparr> \<and> md' = md
        else \<exists>cx. sm_context m1 = Some cx \<and> dubbo_toMetadata H (sm_metadata m1) cx md = Inr md'
           \<and> st = Done \<and> c' = dubbo_complete (c0\<lparr>dc_state_machine := Some m1\<rparr>)"
    unfolding dubbo_decode_def Let_def c0_def [symmetric]
    by (auto elim!: bindr_InrE split: if_split_asm option.split_asm)
  from dubbo_run_cases [OF r m(2)] e m(3) s show ?thesis
    by (auto simp: dubbo_ready_def dubbo_pending_def dubbo_complete_def dest!: dubbo_toMetadata_origin)
qed

interpretation dubbo: conserving_nonempty "dubbo_decode H" dubbo_ready dubbo_pending for H
  by unfold_locales (fastforce dest!: dubbo_decode_cases simp: dubbo_ready_def dubbo_pending_def)+

section \<open>Decoding one message\<close>

lemma dubbo_complete_new [simp]: "dubbo_complete c = dubbo_new"
  by (simp add: dubbo_complete_def dubbo_new_def)

definition dubbo_machine0 :: dubbo_machine where
  "dubbo_machine0 = \<lparr>sm_metadata = new_message_metadata, sm_context = None,
     sm_state = OnDecodeStreamHeader\<rparr>"

lemma dubbo_start_new:
  "dubbo_start dubbo_new = \<lparr>dc_state_machine = Some dubbo_machine0, dc_decode_started = True\<rparr>"
  by (simp add: dubbo_start_def dubbo_new_def dubbo_machine0_def)


lemma dubbo_run_next:
  "dubbo_handleState H m buf = Inr (st, m', b) \<Longrightarrow> sm_state m \<noteq> DS_Done \<Longrightarrow>
   dubbo_run H m buf = (if st = DS_WaitForData then Inr (DS_WaitForData, m', b)
      else dubbo_run H (m'\<lparr>sm_state := st\<rparr>) b)"
  by (subst dubbo_run.simps) simp

lemma dubbo_decode_new:
  "dubbo_run H dubbo_machine0 buf = Inr (DS_Done, m, b) \<Longrightarrow> sm_context m = Some cx \<Longrightarrow>
   dubbo_decode H dubbo_new buf md =
     bindr (dubbo_toMetadata H (sm_metadata m) cx md) (\<lambda>md'. Inr (Done, dubbo_new, b, md'))"
  by (simp add: dubbo_decode_def dubbo_start_new) (simp add: dubbo_new_def)

lemma dubbo_decode_heartbeat:
  assumes "decodeHeader buf new_message_metadata = Inr (Some cx, mm)"
    "mm_message_type mm \<in> {D_HeartbeatRequest, D_HeartbeatResponse}"
    "16 + cx_body_size cx \<le> length buf"
  shows "dubbo_decode H dubbo_new buf md =
    bindr (dubbo_toMetadata H mm (cx\<lparr>cx_origin_message := take (16 + cx_body_size cx) buf\<rparr>) md)
      (\<lambda>md'. Inr (Done, dubbo_new, drop (16 + cx_body_size cx) buf, md'))"
proof -
  from assms(1) have "cx_header_size cx = 16" "cx_origin_message cx = []"
    by (auto dest: decodeHeader_context)
  with assms have "dubbo_handleState H dubbo_machine0 buf = Inr (DS_Done, \<lparr>sm_metadata = mm,
     sm_context = Some (cx\<lparr>cx_origin_message := take (16 + cx_body_size cx) buf\<rparr>),
     sm_state = OnDecodeStreamHeader\<rparr>, drop (16 + cx_body_size cx) buf)"
    by (auto simp: dubbo_handle_defs dubbo_machine0_def)
  from dubbo_run_next [OF this] have "dubbo_run H dubbo_machine0 buf = Inr (DS_Done, \<lparr>sm_metadata = mm,
     sm_context = Some (cx\<lparr>cx_origin_message := take (16 + cx_body_size cx) buf\<rparr>),
     sm_state = DS_Done\<rparr>, drop (16 + cx_body_size cx) buf)"
    by (simp add: dubbo_machine0_def)
  from dubbo_decode_new [OF this] show ?thesis by simp
qed

lemma dubbo_decode_body:
  assumes "decodeHeader buf new_message_metadata = Inr (Some cx, mm)"
    "mm_message_type mm \<notin> {D_HeartbeatRequest, D_HeartbeatResponse}"
    "decodeData H (drop 16 buf) (cx\<lparr>cx_origin_message := take 16 buf\<rparr>) mm = Inr (True, mm')"
  shows "dubbo_decode H dubbo_new buf md =
    bindr (dubbo_toMetadata H mm' (cx\<lparr>cx_origin_message := take (16 + cx_body_size cx) buf\<rparr>) md)
      (\<lambda>md'. Inr (Done, dubbo_new, drop (16 + cx_body_size cx) buf, md'))"
proof -
  from assms(1) have cx: "cx_header_size cx = 16" "cx_origin_message cx = []"
    by (auto dest: decodeHeader_context)
  have td: "take 16 buf @ take k (drop 16 buf) = take (16 + k) buf"
    "drop k (drop 16 buf) = drop (16 + k) buf" for k
    by (simp only: take_add) (simp add: add.commute)
  define cx1 where "cx1 = cx\<lparr>cx_origin_message := take 16 buf\<rparr>"
  define m1 where "m1 = \<lparr>sm_metadata = mm, sm_context = Some cx1, sm_state = DS_OnDecodeStreamData\<rparr>"
  have "dubbo_handleState H dubbo_machine0 buf = Inr (DS_OnDecodeStreamData,
     m1\<lparr>sm_state := OnDecodeStreamHeader\<rparr>, drop 16 buf)"
    using assms(1,2) cx by (simp add: dubbo_handle_defs dubbo_machine0_def m1_def cx1_def)
  from dubbo_run_next [OF this] have r0: "dubbo_run H dubbo_machine0 buf = dubbo_run H m1 (drop 16 buf)"
    by (simp add: dubbo_machine0_def m1_def)
  have "dubbo_handleState H m1 (drop 16 buf) = Inr (DS_Done, \<lparr>sm_metadata = mm',
     sm_context = Some (cx\<lparr>cx_origin_message := take (16 + cx_body_size cx) buf\<rparr>),
     sm_state = DS_OnDecodeStreamData\<rparr>, drop (16 + cx_body_size cx) buf)"
    using assms(3) cx by (simp add: dubbo_handle_defs m1_def cx1_def td(1) add.commute [of _ 16])
  from dubbo_run_next [OF this] r0 have "dubbo_run H dubbo_machine0 buf = Inr (DS_Done,
     \<lparr>sm_metadata = mm',
     sm_context = Some (cx\<lparr>cx_origin_message := take (16 + cx_body_size cx) buf\<rparr>),
     sm_state = DS_Done\<rparr>, drop (16 + cx_body_size cx) buf)"
    by (simp add: m1_def)
  from dubbo_decode_new [OF this] show ?thesis by simp
qed

end
