(* ===== verification/Dubbo_Messages.thy ===== *)
theory Dubbo_Messages
  imports Dubbo_Codec
begin

unbundle bit_operations_syntax

text \<open>
  What the Dubbo codec does to whole messages: heartbeats are answered, a request is decoded into
  its properties, the mutations of the filters reach the server in the attachment, the parameter
  descriptor is counted as Java defines it; and the messages on which the codec fails.
\<close>

section \<open>Properties of decoded messages\<close>

lemma dubbo_toMetadata_plain:
  assumes "mm_invocation_info mm = None" "mm_result_info mm = None"
  shows "dubbo_toMetadata H mm cx md =
    (let md3 = (dubbo_fieldsToMetadata mm md)\<lparr>md_message_type := dubbo_message_type (mm_message_type mm)\<rparr>;
         md4 = (case mm_response_status mm of
                    Some st \<Rightarrow> md3\<lparr>md_response_status := (if st = ST_Ok then RS_Ok else RS_Error)\<rparr>
                  | None \<Rightarrow> md3)
     in Inr (md4\<lparr>md_header_size := word_of_nat (cx_header_size cx),
               md_body_size := word_of_nat (cx_body_size cx),
               md_origin_message := md_origin_message md4 @ cx_origin_message cx\<rparr>))"
  using assms
  by (simp add: dubbo_toMetadata_def dubbo_invocationToMetadata_def dubbo_resultToMetadata_def)

lemma fields_getByKey:
  "getByKey k (dubbo_fieldsToMetadata mm md) =
     (if k = ''ResponseStatus'' \<and> mm_response_status mm \<noteq> None
      then Some (AnyObj (DStatus (the (mm_response_status mm))))
      else if k = ''SerializationType'' then Some (AnyObj (DSerialization (mm_serialization_type mm)))
      else if k = ''TwoWay'' then Some (AnyBool (mm_is_two_way mm))
      else if k = ''Timeout'' \<and> mm_timeout mm \<noteq> None then Some (AnyObj (DTimeout (mm_timeout mm)))
      else if k = ''MessageType'' then Some (AnyObj (DMessageType (mm_message_type mm)))
      else if k = ''ProtocolVersion'' then Some (AnyObj (DVersion (mm_protocol_version mm)))
      else if k = ''ProtocolType'' then Some (AnyObj DProtocolType)
      else if k = ''InvocationInfo'' then Some (AnyObj (DInvocation (mm_invocation_info mm)))
      else getByKey k md)"
  by (cases "mm_response_status mm"; cases "mm_timeout mm") (simp_all add: dubbo_fieldsToMetadata_def Let_def)

lemma fields_simps [simp]:
  "md_request_id (dubbo_fieldsToMetadata mm md) = mm_request_id mm"
  "md_origin_message (dubbo_fieldsToMetadata mm md) = md_origin_message md"
  "md_operation_name (dubbo_fieldsToMetadata mm md) = md_operation_name md"
  by (cases "mm_response_status mm"; cases "mm_timeout mm"; simp add: dubbo_fieldsToMetadata_def Let_def)+

lemma fresh_getByKey [simp]: "getByKey k (fresh_metadata mt) = None"
  by (simp add: fresh_metadata_def getByKey_def new_metadata_def)
lemma fresh_origin [simp]: "md_origin_message (fresh_metadata mt) = []"
  by (simp add: fresh_metadata_def new_metadata_def)

lemma heartbeat_reply_bytes:
  assumes "toMsgMetadata md = Inr mm" "md_message_type md = Heartbeat"
    "mm_serialization_type mm = SER_Hessian2"
  shows "dubbo_encode H md mut buf = Inr (dubbo_header 0x22 ST_Ok (mm_request_id mm) 1 @ bytes_of_chars ''N'', md)"
  using assms by (simp add: dubbo_encode_def encodeHeartbeat_def dubbo_protocol_encode_def
      dubbo_header_def SER_Hessian2_def EventMask_def)

section \<open>Attachments\<close>

lemma umap_find_emplace_erase:
  "umap_find k (umap_emplace (HString x) (HString v) (umap_erase x m)) =
     (if k = x then Some (HString v) else umap_find k m)"
  by (induction m) (auto simp: umap_find_def umap_emplace_def umap_erase_def map_add_def image_iff
      split: option.splits if_splits)

lemma distinct_emplace_erase:
  "distinct (map fst m) \<Longrightarrow>
     distinct (map fst (umap_emplace (HString x) (HString v) (umap_erase x m)))"
  by (auto simp: umap_emplace_def umap_erase_def distinct_map_filter)

lemma mutate_attachment_Cons:
  "mutate_attachment (kv # mut) a =
     mutate_attachment mut (attachment_insert (fst kv) (snd kv) (attachment_remove (fst kv) a))"
  by (simp add: mutate_attachment_def)

lemma mutate_attachment_Nil [simp]: "mutate_attachment [] a = a"
  by (simp add: mutate_attachment_def)

lemma umap_find_mutate:
  "umap_find k (at_map (mutate_attachment mut a)) =
     (case map_of (rev mut) k of Some v \<Rightarrow> Some (HString v) | None \<Rightarrow> umap_find k (at_map a))"
  by (induction mut arbitrary: a)
    (auto simp: mutate_attachment_Cons attachment_insert_def attachment_remove_def
      umap_find_emplace_erase map_add_def split: option.splits)

lemma mutate_attachment_keeps:
  "distinct (map fst (at_map a)) \<Longrightarrow> distinct (map fst (at_map (mutate_attachment mut a)))"
  "at_offset (mutate_attachment mut a) = at_offset a"
  "at_updated (mutate_attachment mut a) \<longleftrightarrow> at_updated a \<or> mut \<noteq> []"
  by (induction mut arbitrary: a)
    (auto simp: mutate_attachment_Cons attachment_insert_def attachment_remove_def
      distinct_emplace_erase)

lemma map_of_string_pairs:
  "distinct (map fst m) \<Longrightarrow>
     map_of (rev (string_pairs m)) k = (case umap_find k m of Some v \<Rightarrow> toString v | None \<Rightarrow> None)"
proof (induction m)
  case (Cons kv m)
  obtain x v where [simp]: "kv = (x, v)" by fastforce
  from Cons.prems have "x = HString k \<Longrightarrow> umap_find k m = None"
    by (auto simp: umap_find_def map_of_eq_None_iff)
  with Cons show ?case
    by (cases x; cases v) (auto simp: string_pairs_def map_filter_simps umap_find_def map_add_def
        split: option.splits)
qed (simp add: string_pairs_def map_filter_simps umap_find_def)

lemma ucast_of_nat_down: "ucast (word_of_nat n :: u64) = (word_of_nat n :: u32)"
  by (rule word_unat_eq_iff [THEN iffD2])
    (simp add: unsigned_ucast_eq unat_of_nat take_bit_eq_mod mod_mod_cancel)

lemma rewrite_attachment_bytes:
  assumes "length pre = 12" "length old = 4" "at_offset a = word_of_nat (16 + length front)"
    "16 + length front < 2 ^ 64"
  shows "rewrite_attachment H a 16 (pre @ old @ front @ rest) =
    pre @ be_bytes (word_of_nat (length front + length (h_encode_map H (at_map a))) :: u32)
      @ front @ h_encode_map H (at_map a)"
proof -
  have d: "at_offset a - (word_of_nat 16 :: u64) = word_of_nat (length front)"
    using assms(3) by simp
  have u: "unat (word_of_nat (length front) :: u64) = length front"
    using assms(4) by (simp add: unat_of_nat)
  have c: "ucast (word_of_nat (length front) + word_of_nat n :: u64) = (word_of_nat (length front + n) :: u32)" for n
    using ucast_of_nat_down [of "length front + n"] by simp
  show ?thesis
    unfolding rewrite_attachment_def Let_def d u c using assms(1,2) by simp
qed

section \<open>Hessian values in a body\<close>

text \<open>
  The Hessian library reads a value from an offset and reports where it ended.  A byte string
  stands for a value when it is read as that value wherever it stands.
\<close>

definition reads_string :: "hessian \<Rightarrow> buffer \<Rightarrow> string \<Rightarrow> bool" where
  "reads_string H bs s \<longleftrightarrow>
     (\<forall>pre post. h_string H (pre @ bs @ post) (length pre) = (Some s, length pre + length bs))"

definition reads_object :: "hessian \<Rightarrow> buffer \<Rightarrow> hobject \<Rightarrow> bool" where
  "reads_object H bs v \<longleftrightarrow>
     (\<forall>pre post. h_object H (pre @ bs @ post) (length pre) = (Some v, length pre + length bs))"

definition reads_invocation :: "hessian \<Rightarrow> buffer \<Rightarrow> string \<Rightarrow> string \<Rightarrow> bool" where
  "reads_invocation H front sn mn \<longleftrightarrow>
     (\<exists>b1 b2 b3 b4 b5 ver sv types params.
        front = b1 @ b2 @ b3 @ b4 @ b5 @ concat (map fst params)
        \<and> reads_string H b1 ver \<and> reads_string H b2 sn \<and> reads_string H b3 sv
        \<and> reads_string H b4 mn \<and> reads_string H b5 types
        \<and> length params = unat (getParametersNumber types)
        \<and> list_all (\<lambda>p. reads_object H (fst p) (snd p)) params)"

lemma reads_string_at:
  "reads_string H bs s \<Longrightarrow> off = length pre \<Longrightarrow> buf = pre @ bs @ post \<Longrightarrow>
     h_string H buf off = (Some s, off + length bs)"
  by (simp add: reads_string_def)

lemma reads_object_at:
  "reads_object H bs v \<Longrightarrow> off = length pre \<Longrightarrow> buf = pre @ bs @ post \<Longrightarrow>
     h_object H buf off = (Some v, off + length bs)"
  by (simp add: reads_object_def)

lemma read_params_reads:
  "list_all (\<lambda>p. reads_object H (fst p) (snd p)) params \<Longrightarrow> off = length pre \<Longrightarrow>
   buf = pre @ concat (map fst params) @ post \<Longrightarrow>
   read_params H buf (length params) off =
     Inr (map snd params, off + length (concat (map fst params)))"
proof (induction params arbitrary: pre off)
  case (Cons p params)
  have o: "h_object H buf off = (Some (snd p), off + length (fst p))"
    using Cons.prems by (intro reads_object_at [of H _ _ _ pre]) auto
  have "read_params H buf (length params) (off + length (fst p)) =
      Inr (map snd params, off + length (fst p) + length (concat (map fst params)))"
    using Cons.prems by (intro Cons.IH [of _ "pre @ fst p"]) auto
  with o show ?case by simp
qed simp

lemma deserialize_invocation:
  assumes "reads_invocation H front sn mn" "length front \<le> cx_body_size cx" "cx_header_size cx = 16"
    "length hdr = 16" "reads_object H att (HUntypedMap m)"
  shows "\<exists>iv iv'. deserializeRpcInvocation H (front @ rest) cx = Inr (iv, True)
     \<and> assignAttachmentIfNeed H (hdr @ front @ att) iv = Inr iv'
     \<and> iv_service_name iv = sn \<and> iv_method_name iv = mn
     \<and> iv_attachment iv' = Some (new_attachment m (word_of_nat (16 + length front)))"
proof -
  from assms(1) obtain b1 b2 b3 b4 b5 ver sv types params where
    f: "front = b1 @ b2 @ b3 @ b4 @ b5 @ concat (map fst params)" and
    r: "reads_string H b1 ver" "reads_string H b2 sn" "reads_string H b3 sv" "reads_string H b4 mn"
      "reads_string H b5 types" and
    n: "length params = unat (getParametersNumber types)" and
    p: "list_all (\<lambda>p. reads_object H (fst p) (snd p)) params"
    unfolding reads_invocation_def by blast
  let ?b = "front @ rest" and ?o = "hdr @ front @ att"
  define o4 where "o4 = length b1 + length b2 + length b3 + length b4"
  have s: "h_string H ?b 0 = (Some ver, 0 + length b1)"
    "h_string H ?b (length b1) = (Some sn, length b1 + length b2)"
    "h_string H ?b (length b1 + length b2) = (Some sv, length b1 + length b2 + length b3)"
    "h_string H ?b (length b1 + length b2 + length b3) = (Some mn, o4)"
    using reads_string_at [OF r(1), of 0 "[]" ?b] reads_string_at [OF r(2), of _ b1 ?b]
      reads_string_at [OF r(3), of _ "b1 @ b2" ?b] reads_string_at [OF r(4), of _ "b1 @ b2 @ b3" ?b]
    by (simp_all add: f o4_def add.assoc)
  define iv where "iv = \<lparr>iv_service_name = sn, iv_method_name = mn, iv_service_version = Some sv,
     iv_group = None, iv_offset = 16 + o4, iv_parameters = None, iv_attachment = None\<rparr>"
  have "\<not> cx_body_size cx < o4" using assms(2) by (simp add: f o4_def)
  then have d: "deserializeRpcInvocation H ?b cx = Inr (iv, True)"
    using s assms(3) by (simp add: deserializeRpcInvocation_def iv_def)
  have t: "h_string H ?o (16 + o4) = (Some types, 16 + o4 + length b5)"
    using assms(4) reads_string_at [OF r(5), of "16 + o4" "hdr @ b1 @ b2 @ b3 @ b4" ?o]
    by (simp add: f o4_def)
  have q: "read_params H ?o (unat (getParametersNumber types)) (16 + o4 + length b5) =
      Inr (map snd params, 16 + length front)"
    using assms(4) read_params_reads [OF p, of "16 + o4 + length b5" "hdr @ b1 @ b2 @ b3 @ b4 @ b5" ?o att]
    by (simp add: f o4_def n)
  have e: "types = [] \<Longrightarrow> params = [] \<and> length front = o4 + length b5"
    using n by (simp add: getParametersNumber_def f o4_def)
  have a: "assignParametersIfNeed H ?o iv =
      Inr (iv\<lparr>iv_parameters := Some (map snd params), iv_offset := 16 + length front\<rparr>)"
    using t q e by (cases "types = []") (simp_all add: assignParametersIfNeed_def iv_def)
  have g: "h_object H ?o (16 + length front) = (Some (HUntypedMap m), 16 + length front + length att)"
    using assms(4) reads_object_at [OF assms(5), of "16 + length front" "hdr @ front" ?o "[]"] by simp
  show ?thesis
    using d a g
    by (auto simp: assignAttachmentIfNeed_def iv_def Let_def split: option.split)
qed

section \<open>Requests\<close>

definition dubbo_keys :: "string set" where
  "dubbo_keys = {''InvocationInfo'', ''ProtocolType'', ''ProtocolVersion'', ''MessageType'',
     ''TwoWay'', ''SerializationType''}"

lemma getByKey_put_pairs:
  "getByKey k (put_pairs kvs md) =
     (case map_of (rev kvs) k of Some v \<Rightarrow> Some (AnyString v) | None \<Rightarrow> getByKey k md)"
  unfolding put_pairs_def
  by (induction kvs arbitrary: md) (auto simp: map_add_def split: option.splits)

lemma put_pairs_fields [simp]:
  "md_operation_name (put_pairs kvs md) = md_operation_name md"
  "md_message_type (put_pairs kvs md) = md_message_type md"
  unfolding put_pairs_def by (induction kvs arbitrary: md) simp_all

text \<open>The property of a decoded request under each key.\<close>

definition request_property ::
  "rpc_invocation \<Rightarrow> untyped_map \<Rightarrow> string \<Rightarrow> string \<Rightarrow> string \<Rightarrow> dubbo_obj any option" where
  "request_property iv m sn mn k =
     (if k = ''SerializationType'' then Some (AnyObj (DSerialization SER_Hessian2))
      else if k = ''TwoWay'' then Some (AnyBool False)
      else if k = ''MessageType'' then Some (AnyObj (DMessageType D_Request))
      else if k = ''ProtocolVersion'' then Some (AnyObj (DVersion 1))
      else if k = ''ProtocolType'' then Some (AnyObj DProtocolType)
      else if k = ''InvocationInfo'' then Some (AnyObj (DInvocation (Some iv)))
      else case map_of (rev (string_pairs m)) k of
             Some v \<Rightarrow> Some (AnyString v)
           | None \<Rightarrow> if k = ''method'' then Some (AnyString mn)
                     else if k = ''interface'' then Some (AnyString sn) else None)"

lemma dubbo_decode_request_md:
  fixes flag status :: byte and rid :: u64 and sz :: u32
  assumes "flag AND 0x80 = 0x80" "flag AND 0x20 \<noteq> 0x20" "flag AND 0x40 = 0x40" "flag AND 0x1f = 2"
    and "unat sz = length front + length att" "unat sz \<le> 16777216"
    and "reads_invocation H front sn mn" "reads_object H att (HUntypedMap m)"
  shows "\<exists>md iv.
     dubbo_decode H dubbo_new (dubbo_header flag status rid sz @ front @ att @ rest) (fresh_metadata mt) =
       Inr (Done, dubbo_new, rest, md)
     \<and> md_message_type md = Request \<and> md_request_id md = rid
     \<and> md_operation_name md = sn @ ''/'' @ mn
     \<and> md_header_size md = 16 \<and> md_body_size md = ucast sz
     \<and> md_origin_message md = dubbo_header flag status rid sz @ front @ att
     \<and> iv_attachment iv = Some (new_attachment m (word_of_nat (16 + length front)))
     \<and> (\<forall>k. getByKey k md = request_property iv m sn mn k)"
proof -
  let ?h = "dubbo_header flag status rid sz"
  let ?buf = "?h @ front @ att @ rest"
  let ?mm = "new_message_metadata\<lparr>mm_request_id := rid, mm_serialization_type := SER_Hessian2,
     mm_message_type := D_Request\<rparr>"
  let ?cx = "new_context\<lparr>cx_header_size := 16, cx_body_size := unat sz, cx_heartbeat := False\<rparr>"
  have d: "decodeHeader ?buf new_message_metadata = Inr (Some ?cx, ?mm)"
    using decodeHeader_request [OF assms(1,4,6), of status rid "front @ att @ rest"] assms(2,3)
    by simp
  obtain iv iv' where
    v: "deserializeRpcInvocation H (front @ att @ rest) (?cx\<lparr>cx_origin_message := ?h\<rparr>) = Inr (iv, True)"
      "assignAttachmentIfNeed H (?h @ front @ att) iv = Inr iv'"
      "iv_service_name iv = sn" "iv_method_name iv = mn"
      "iv_attachment iv' = Some (new_attachment m (word_of_nat (16 + length front)))"
    using deserialize_invocation [OF assms(7) _ _ _ assms(8),
        of "?cx\<lparr>cx_origin_message := ?h\<rparr>" ?h "att @ rest"] assms(5) by auto
  have b: "decodeData H (drop 16 ?buf) (?cx\<lparr>cx_origin_message := take 16 ?buf\<rparr>) ?mm =
      Inr (True, ?mm\<lparr>mm_invocation_info := Some iv\<rparr>)"
    using v(1) assms(5) by (simp add: decodeData_def)
  let ?mm1 = "?mm\<lparr>mm_invocation_info := Some iv'\<rparr>"
  define md0 where "md0 = put_pairs (string_pairs m) ((putString ''method'' mn
      (putString ''interface'' sn (fresh_metadata mt :: dubbo_obj metadata)))
      \<lparr>md_operation_name := sn @ ''/'' @ mn\<rparr>)"
  define md where "md = (dubbo_fieldsToMetadata ?mm1 md0)\<lparr>md_message_type := Request,
     md_header_size := 16, md_body_size := ucast sz, md_origin_message := ?h @ front @ att\<rparr>"
  have o: "take (16 + unat sz) ?buf = ?h @ front @ att" "drop (16 + unat sz) ?buf = rest"
    using assms(5) by simp_all
  have "dubbo_decode H dubbo_new ?buf (fresh_metadata mt) = Inr (Done, dubbo_new, rest, md)"
    apply (subst dubbo_decode_body [OF d _ b])
    subgoal by simp
    subgoal using v(2-5) o 
      by (simp add: dubbo_toMetadata_def dubbo_invocationToMetadata_def dubbo_resultToMetadata_def
         Let_def new_attachment_def new_message_metadata_def dubbo_message_type_def md_def md0_def)
    done
  then show ?thesis
    using v(5)
    by (intro exI [of _ md] exI [of _ iv'])
      (auto simp: md_def md0_def fields_getByKey getByKey_put_pairs new_message_metadata_def
         request_property_def
         split: option.split)
qed

text \<open>
  C26: a heartbeat request, whatever its body, is decoded as a heartbeat; the reply the codec writes
  for it is itself decoded, by the peer, as a heartbeat with the same request id and status OK, and
  nothing of what follows either message in the buffer is consumed.
\<close>

theorem dubbo_heartbeat_answered:
  fixes flag status :: byte and rid :: u64 and sz :: u32
  assumes "flag AND 0x80 = 0x80" "flag AND 0x20 = 0x20" "flag AND 0x1f = 2"
    and "length body = unat sz" "unat sz \<le> 16777216"
  shows "\<exists>md reply md'.
     dubbo_decode H dubbo_new (dubbo_header flag status rid sz @ body @ rest) (fresh_metadata mt) =
       Inr (Done, dubbo_new, rest, md)
     \<and> md_message_type md = Heartbeat
     \<and> dubbo_encode H md mut buf = Inr (reply, md)
     \<and> dubbo_decode H dubbo_new (reply @ rest') (fresh_metadata mt') =
         Inr (Done, dubbo_new, rest', md')
     \<and> md_message_type md' = Heartbeat \<and> md_request_id md' = rid
     \<and> md_response_status md' = RS_Ok \<and> md_origin_message md' = reply"
proof -
  let ?buf = "dubbo_header flag status rid sz @ body @ rest"
  let ?mm = "new_message_metadata\<lparr>mm_request_id := rid, mm_serialization_type := SER_Hessian2,
     mm_message_type := D_HeartbeatRequest\<rparr>"
  let ?cx = "new_context\<lparr>cx_header_size := 16, cx_body_size := unat sz, cx_heartbeat := True\<rparr>"
  have d: "decodeHeader ?buf new_message_metadata = Inr (Some ?cx, ?mm)"
    using decodeHeader_request [OF assms(1,3,5), of status rid "body @ rest"] assms(2) by simp
  define md where "md = (dubbo_fieldsToMetadata ?mm (fresh_metadata mt))\<lparr>md_message_type := Heartbeat,
    md_header_size := 16, md_body_size := word_of_nat (unat sz),
    md_origin_message := dubbo_header flag status rid sz @ body\<rparr>"
  have e1: "dubbo_decode H dubbo_new ?buf (fresh_metadata mt) = Inr (Done, dubbo_new, rest, md)"
    using assms(4) by (subst dubbo_decode_heartbeat [OF d])
      (simp_all add: dubbo_toMetadata_plain new_message_metadata_def md_def dubbo_message_type_def)
  let ?rmm = "new_message_metadata\<lparr>mm_request_id := rid,
     mm_message_type := D_HeartbeatRequest, mm_serialization_type := SER_Hessian2\<rparr>"
  have "toMsgMetadata md = Inr ?rmm"
    by (simp add: toMsgMetadata_def present_def required_def fields_getByKey md_def getBool_def
        new_message_metadata_def)
  with heartbeat_reply_bytes [OF this, of H mut buf] have
    e2: "dubbo_encode H md mut buf = Inr (dubbo_header 0x22 ST_Ok rid 1 @ bytes_of_chars ''N'', md)"
    by (simp add: md_def)
  let ?mm' = "new_message_metadata\<lparr>mm_request_id := rid, mm_message_type := D_HeartbeatResponse,
     mm_response_status := Some ST_Ok\<rparr>"
  have d': "decodeHeader ((dubbo_header 0x22 ST_Ok rid 1 @ bytes_of_chars ''N'') @ rest') new_message_metadata =
      Inr (Some (new_context\<lparr>cx_header_size := 16, cx_body_size := 1, cx_heartbeat := True\<rparr>), ?mm')"
    using decodeHeader_heartbeat_response [of "0x22" 1 rid "bytes_of_chars ''N'' @ rest'"] by simp
  have "\<exists>md'. dubbo_decode H dubbo_new ((dubbo_header 0x22 ST_Ok rid 1 @ bytes_of_chars ''N'') @ rest')
      (fresh_metadata mt') = Inr (Done, dubbo_new, rest', md') \<and> md_message_type md' = Heartbeat
      \<and> md_request_id md' = rid \<and> md_response_status md' = RS_Ok
      \<and> md_origin_message md' = dubbo_header 0x22 ST_Ok rid 1 @ bytes_of_chars ''N''"
    by (subst dubbo_decode_heartbeat [OF d'])
      (simp_all add: dubbo_toMetadata_plain new_message_metadata_def dubbo_message_type_def)
  with e1 e2 show ?thesis by (auto simp: md_def)
qed

section \<open>A concrete value format\<close>

text \<open>
  Length-prefixed strings and lists of pairs of them, as an instance of the Hessian parameter.
\<close>

definition lp_str :: "string \<Rightarrow> buffer" where
  "lp_str s = word_of_nat (length s) # bytes_of_chars s"

definition lp_string :: "buffer \<Rightarrow> nat \<Rightarrow> string option \<times> nat" where
  "lp_string buf off =
     (case drop off buf of
        [] \<Rightarrow> (None, off)
      | n # bs \<Rightarrow> if length bs < unat n then (None, off)
                 else (Some (chars_of_bytes (take (unat n) bs)), off + 1 + unat n))"

fun lp_pairs :: "nat \<Rightarrow> buffer \<Rightarrow> nat \<Rightarrow> untyped_map option \<times> nat" where
  "lp_pairs 0 buf off = (Some [], off)"
| "lp_pairs (Suc n) buf off =
     (case lp_string buf off of
        (Some k, o1) \<Rightarrow>
          (case lp_string buf o1 of
             (Some v, o2) \<Rightarrow>
               (case lp_pairs n buf o2 of
                  (Some m, o3) \<Rightarrow> (Some ((HString k, HString v) # m), o3)
                | (None, o3) \<Rightarrow> (None, o3))
           | (None, o2) \<Rightarrow> (None, o2))
      | (None, o1) \<Rightarrow> (None, o1))"

definition lp_object :: "buffer \<Rightarrow> nat \<Rightarrow> hobject option \<times> nat" where
  "lp_object buf off =
     (case drop off buf of
        [] \<Rightarrow> (None, off)
      | n # bs \<Rightarrow> apfst (map_option HUntypedMap) (lp_pairs (unat n) buf (off + 1)))"

definition lp_map :: "(string \<times> string) list \<Rightarrow> buffer" where
  "lp_map kvs = word_of_nat (length kvs) # concat (map (\<lambda>kv. lp_str (fst kv) @ lp_str (snd kv)) kvs)"

definition lp_hessian :: hessian where
  "lp_hessian = \<lparr>h_string = lp_string, h_int32 = (\<lambda>buf off. case drop off buf of
       [] \<Rightarrow> (None, off) | n # _ \<Rightarrow> (Some (uint n), off + 1)),
     h_object = lp_object, h_encode_map = (\<lambda>m. lp_map (string_pairs m))\<rparr>"

lemma lp_string_at: "length s < 256 \<Longrightarrow>
   lp_string (pre @ lp_str s @ post) (length pre) = (Some s, length pre + length (lp_str s))"
  by (simp add: lp_string_def lp_str_def unat_of_nat)

lemma lp_reads_string: "length s < 256 \<Longrightarrow> reads_string lp_hessian (lp_str s) s"
  by (simp add: reads_string_def lp_hessian_def lp_string_at)

definition umap_of :: "(string \<times> string) list \<Rightarrow> untyped_map" where
  "umap_of kvs = map (\<lambda>kv. (HString (fst kv), HString (snd kv))) kvs"

lemma lp_pairs_at:
  "list_all (\<lambda>kv. length (fst kv) < 256 \<and> length (snd kv) < 256) kvs \<Longrightarrow>
   lp_pairs (length kvs) (pre @ concat (map (\<lambda>kv. lp_str (fst kv) @ lp_str (snd kv)) kvs) @ post)
     (length pre) = (Some (umap_of kvs),
        length pre + length (concat (map (\<lambda>kv. lp_str (fst kv) @ lp_str (snd kv)) kvs)))"
proof (induction kvs arbitrary: pre)
  case (Cons kv kvs)
  let ?rest = "concat (map (\<lambda>kv. lp_str (fst kv) @ lp_str (snd kv)) kvs) @ post"
  have "lp_string (pre @ lp_str (fst kv) @ lp_str (snd kv) @ ?rest) (length pre) =
      (Some (fst kv), length pre + length (lp_str (fst kv)))"
    using lp_string_at [of "fst kv" pre] Cons.prems by simp
  moreover have "lp_string (pre @ lp_str (fst kv) @ lp_str (snd kv) @ ?rest)
      (length pre + length (lp_str (fst kv))) =
      (Some (snd kv), length pre + length (lp_str (fst kv)) + length (lp_str (snd kv)))"
    using lp_string_at [of "snd kv" "pre @ lp_str (fst kv)"] Cons.prems by simp
  ultimately show ?case
    using Cons.IH [of "pre @ lp_str (fst kv) @ lp_str (snd kv)"] Cons.prems
    by (simp add: umap_of_def add.assoc)
qed (simp add: umap_of_def)

lemma lp_reads_object:
  assumes "length kvs < 256" "list_all (\<lambda>kv. length (fst kv) < 256 \<and> length (snd kv) < 256) kvs"
  shows "reads_object lp_hessian (lp_map kvs) (HUntypedMap (umap_of kvs))"
proof -
  let ?cs = "concat (map (\<lambda>kv. lp_str (fst kv) @ lp_str (snd kv)) kvs)"
  have "lp_pairs (length kvs) (pre @ word_of_nat (length kvs) # ?cs @ post) (length pre + 1) =
      (Some (umap_of kvs), length pre + 1 + length ?cs)" for pre post
    using lp_pairs_at [OF assms(2), of "pre @ [word_of_nat (length kvs)]" post] by simp
  then show ?thesis
    using assms(1)
    by (simp add: reads_object_def lp_hessian_def lp_object_def lp_map_def unat_of_nat add.commute)
qed

theorem dubbo_heartbeat_answered_witness:
  "\<exists>md reply md'.
     dubbo_decode lp_hessian dubbo_new (dubbo_header 0xe2 0 9 1 @ [78] @ []) (fresh_metadata Request) =
       Inr (Done, dubbo_new, [], md)
     \<and> dubbo_encode lp_hessian md [] [] = Inr (reply, md)
     \<and> dubbo_decode lp_hessian dubbo_new (reply @ []) (fresh_metadata Response) =
         Inr (Done, dubbo_new, [], md')
     \<and> md_request_id md' = 9 \<and> md_response_status md' = RS_Ok"
  using dubbo_heartbeat_answered [of "0xe2" "[78]" 1 lp_hessian 0 9 "[]" Request "[]" "[]" "[]" Response]
  by auto

section \<open>Requests and their mutation\<close>

lemma getString_of_getByKey:
  "getString k md = (case getByKey k md of None \<Rightarrow> Inr [] | Some (AnyString s) \<Rightarrow> Inr s | Some _ \<Rightarrow> Inl BadAnyCast)"
  by (simp add: getString_def split: option.split any.split)

lemma request_property_string:
  assumes "distinct (map fst m)" "\<forall>k. getByKey k md = request_property iv m sn mn k" "k \<notin> dubbo_keys"
  shows "getString k md = Inr (case umap_find k m of Some (HString v) \<Rightarrow> v
      | _ \<Rightarrow> if k = ''method'' then mn else if k = ''interface'' then sn else [])"
  using assms(3)
  by (simp add: getString_def assms(2)[rule_format, of k] request_property_def dubbo_keys_def
      map_of_string_pairs [OF assms(1)] split: option.split hobject.split)

text \<open>
  C23: a two-way Dubbo request that is completely in the buffer is decoded: the message that goes
  through the filters carries the request id, the operation name, the sizes and the bytes of the
  request, and under each key the codec does not use itself the string of the attachment, or else
  the interface and the method.
\<close>

theorem dubbo_decode_request:
  fixes flag status :: byte and rid :: u64 and sz :: u32
  assumes "flag AND 0x80 = 0x80" "flag AND 0x20 \<noteq> 0x20" "flag AND 0x40 = 0x40" "flag AND 0x1f = 2"
    and "unat sz = length front + length att" "unat sz \<le> 16777216"
    and "reads_invocation H front sn mn" "reads_object H att (HUntypedMap m)"
    and "distinct (map fst m)"
  shows "\<exists>md.
     dubbo_decode H dubbo_new (dubbo_header flag status rid sz @ front @ att @ rest) (fresh_metadata mt) =
       Inr (Done, dubbo_new, rest, md)
     \<and> md_message_type md = Request \<and> md_request_id md = rid
     \<and> md_operation_name md = sn @ ''/'' @ mn
     \<and> md_header_size md = 16 \<and> md_body_size md = ucast sz
     \<and> md_origin_message md = dubbo_header flag status rid sz @ front @ att
     \<and> (\<forall>k. k \<notin> dubbo_keys \<longrightarrow> getString k md = Inr
          (case umap_find k m of
             Some (HString v) \<Rightarrow> v
           | _ \<Rightarrow> if k = ''method'' then mn else if k = ''interface'' then sn else []))"
  using dubbo_decode_request_md [OF assms(1-8), of status rid rest mt]
    request_property_string [OF assms(9)] by (elim exE conjE) blast

lemma unat_of_nat_small: "k \<le> 16777216 \<Longrightarrow> unat (word_of_nat k :: u32) = k"
  by (simp add: unat_of_nat)

lemma request_toMsgMetadata:
  assumes "\<forall>k. getByKey k md = request_property iv m sn mn k" "distinct (map fst m)"
    "\<forall>k\<in>{''Timeout'', ''ResponseStatus'', ''RpcResultInfo''}. umap_find k m = None"
  shows "toMsgMetadata md = Inr (new_message_metadata\<lparr>mm_request_id := md_request_id md,
     mm_invocation_info := Some iv\<rparr>)"
  using assms
  by (simp add: toMsgMetadata_def present_def required_def getBool_def request_property_def
      map_of_string_pairs new_message_metadata_def)

lemma encode_decoded_request:
  assumes "\<forall>k. getByKey k md = request_property iv m sn mn k" "distinct (map fst m)"
    "\<forall>k\<in>{''Timeout'', ''ResponseStatus'', ''RpcResultInfo''}. umap_find k m = None"
    "md_message_type md = Request" "md_header_size md = 16" "mut \<noteq> []"
    "iv_attachment iv = Some (new_attachment m (word_of_nat (16 + length front)))"
    "16 + length front < 2 ^ 64"
    "m' = at_map (mutate_attachment mut (new_attachment m (word_of_nat (16 + length front))))"
  shows "\<exists>md1. dubbo_encode H md mut (dubbo_header flag status rid sz @ front @ att) =
     Inr (dubbo_header flag status rid (word_of_nat (length front + length (h_encode_map H m')))
            @ front @ h_encode_map H m', md1)"
proof -
  let ?a = "mutate_attachment mut (new_attachment m (word_of_nat (16 + length front)))"
  let ?iv = "iv\<lparr>iv_attachment := Some ?a\<rparr>"
  have up: "at_updated ?a" using assms(6) by (simp add: mutate_attachment_keeps)
  have hs: "unat (md_header_size md) = 16" using assms(5) by simp
  have rw: "rewrite_attachment H ?a 16 (dubbo_header flag status rid sz @ front @ att) =
    dubbo_header flag status rid (word_of_nat (length front + length (h_encode_map H m')))
      @ front @ h_encode_map H m'"
    using rewrite_attachment_bytes [of "be_bytes MagicNumber @ [flag, status] @ be_bytes rid"
        "be_bytes sz" ?a front H att] assms(8,9)
    by (simp add: dubbo_header_def mutate_attachment_keeps new_attachment_def)
  from assms(4,6,7) up hs rw show ?thesis
    by (simp add: dubbo_encode_def encodeRequest_def request_toMsgMetadata [OF assms(1-3)]
        assignAttachmentIfNeed_def dubbo_protocol_encode_def headerMutation_def metadata_context_def
        new_context_def new_message_metadata_def Let_def)
qed

text \<open>
  C12: the values the filters set on a request reach the server.  The bytes the codec writes for a
  decoded request and a non-empty mutation are again one Dubbo request, with the same request id,
  interface and method and with nothing left over; each key of the mutation has the value set last,
  and every other key the value it had.
\<close>

theorem dubbo_mutated_request:
  fixes flag status :: byte and rid :: u64 and sz :: u32
  assumes "flag AND 0x80 = 0x80" "flag AND 0x20 \<noteq> 0x20" "flag AND 0x40 = 0x40" "flag AND 0x1f = 2"
    and "unat sz = length front + length att" "unat sz \<le> 16777216"
    and "reads_invocation H front sn mn" "reads_object H att (HUntypedMap m)"
    and "distinct (map fst m)"
    and "\<forall>k\<in>{''Timeout'', ''ResponseStatus'', ''RpcResultInfo''}. umap_find k m = None"
    and "mut \<noteq> []"
    and "m' = at_map (mutate_attachment mut (new_attachment m (word_of_nat (16 + length front))))"
    and "reads_object H (h_encode_map H m') (HUntypedMap m')"
    and "length front + length (h_encode_map H m') \<le> 16777216"
  shows "\<exists>md out md1 md2.
     dubbo_decode H dubbo_new (dubbo_header flag status rid sz @ front @ att @ rest) (fresh_metadata mt) =
       Inr (Done, dubbo_new, rest, md)
     \<and> dubbo_encode H md mut (md_origin_message md) = Inr (out, md1)
     \<and> dubbo_decode H dubbo_new (out @ rest') (fresh_metadata mt) = Inr (Done, dubbo_new, rest', md2)
     \<and> md_request_id md2 = rid \<and> md_operation_name md2 = md_operation_name md
     \<and> md_origin_message md2 = out
     \<and> (\<forall>k. k \<notin> dubbo_keys \<longrightarrow> getString k md2 =
          (case map_of (rev mut) k of Some v \<Rightarrow> Inr v | None \<Rightarrow> getString k md))"
proof -
  obtain md iv where
    md: "dubbo_decode H dubbo_new (dubbo_header flag status rid sz @ front @ att @ rest)
          (fresh_metadata mt) = Inr (Done, dubbo_new, rest, md)"
      "md_message_type md = Request" "md_operation_name md = sn @ ''/'' @ mn" "md_header_size md = 16"
      "md_origin_message md = dubbo_header flag status rid sz @ front @ att"
      "iv_attachment iv = Some (new_attachment m (word_of_nat (16 + length front)))"
      "\<forall>k. getByKey k md = request_property iv m sn mn k"
    using dubbo_decode_request_md [OF assms(1-8), of status rid rest mt] by blast
  define n where "n = (word_of_nat (length front + length (h_encode_map H m')) :: u32)"
  define out where "out = dubbo_header flag status rid n @ front @ h_encode_map H m'"
  have n: "unat n = length front + length (h_encode_map H m')" "unat n \<le> 16777216"
    unfolding n_def using unat_of_nat_small [OF assms(14)] assms(14) by simp_all
  have "16 + length front < 2 ^ 64" using assms(5,6) by simp
  from encode_decoded_request [OF md(7) assms(9,10) md(2,4) assms(11) md(6) this assms(12), of H flag status rid sz att]
  obtain md1 where e: "dubbo_encode H md mut (md_origin_message md) = Inr (out, md1)"
    by (auto simp: md(5) out_def n_def)
  obtain md2 iv2 where
    md2: "dubbo_decode H dubbo_new (out @ rest') (fresh_metadata mt) = Inr (Done, dubbo_new, rest', md2)"
      "md_request_id md2 = rid" "md_operation_name md2 = sn @ ''/'' @ mn" "md_origin_message md2 = out"
      "\<forall>k. getByKey k md2 = request_property iv2 m' sn mn k"
    using dubbo_decode_request_md [OF assms(1-4) n assms(7,13), of status rid rest' mt]
    by (auto simp: out_def)
  have d': "distinct (map fst m')" using assms(9) by (simp add: assms(12) mutate_attachment_keeps new_attachment_def)
  have f: "umap_find k m' = (case map_of (rev mut) k of Some v \<Rightarrow> Some (HString v) | None \<Rightarrow> umap_find k m)" for k
    by (simp add: assms(12) umap_find_mutate new_attachment_def split: option.split)
  have "getString k md2 = (case map_of (rev mut) k of Some v \<Rightarrow> Inr v | None \<Rightarrow> getString k md)"
    if "k \<notin> dubbo_keys" for k
    using request_property_string [OF d' md2(5) that] request_property_string [OF assms(9) md(7) that] f [of k]
    by (cases "map_of (rev mut) k") simp_all
  with md(1,3) e md2 show ?thesis by auto
qed

definition sample_front :: buffer where
  "sample_front = lp_str ''2.0'' @ lp_str ''a.B'' @ lp_str ''0'' @ lp_str ''m'' @ lp_str ''Lx;''
     @ lp_map []"

lemma reads_invocationI:
  "reads_string H b1 ver \<Longrightarrow> reads_string H b2 sn \<Longrightarrow> reads_string H b3 sv \<Longrightarrow>
   reads_string H b4 mn \<Longrightarrow> reads_string H b5 types \<Longrightarrow>
   length params = unat (getParametersNumber types) \<Longrightarrow>
   list_all (\<lambda>p. reads_object H (fst p) (snd p)) params \<Longrightarrow>
   reads_invocation H (b1 @ b2 @ b3 @ b4 @ b5 @ concat (map fst params)) sn mn"
  unfolding reads_invocation_def by blast

lemma sample_reads: "reads_invocation lp_hessian sample_front ''a.B'' ''m''"
proof -
  have n: "length [(lp_map [], HUntypedMap (umap_of []))] = unat (getParametersNumber ''Lx;'')"
    by (simp add: getParametersNumber_def)
  have s: "reads_string lp_hessian (lp_str ''2.0'') ''2.0''" "reads_string lp_hessian (lp_str ''a.B'') ''a.B''"
    "reads_string lp_hessian (lp_str ''0'') ''0''" "reads_string lp_hessian (lp_str ''m'') ''m''"
    "reads_string lp_hessian (lp_str ''Lx;'') ''Lx;''"
    by (rule lp_reads_string, simp)+
  have "reads_object lp_hessian (lp_map []) (HUntypedMap (umap_of []))"
    by (rule lp_reads_object) simp_all
  then show ?thesis
    using reads_invocationI [OF s n] by (simp add: sample_front_def)
qed

lemma sample_lengths: "length sample_front = 17" "length (lp_map [(''k'', ''v'')]) = 5"
  by (simp_all add: sample_front_def lp_str_def lp_map_def)

lemma sample_map:
  "distinct (map fst (umap_of [(''k'', v)]))" "umap_find ''k'' (umap_of [(''k'', v)]) = Some (HString v)"
  "\<forall>k\<in>{''Timeout'', ''ResponseStatus'', ''RpcResultInfo''}. umap_find k (umap_of [(''k'', v)]) = None"
  by (simp_all add: umap_of_def umap_find_def)

lemma sample_object:
  "length v < 256 \<Longrightarrow> reads_object lp_hessian (lp_map [(''k'', v)]) (HUntypedMap (umap_of [(''k'', v)]))"
  by (rule lp_reads_object) simp_all

lemma sample_header:
  "(0xc2 :: byte) AND 0x80 = 0x80" "(0xc2 :: byte) AND 0x20 \<noteq> 0x20" "(0xc2 :: byte) AND 0x40 = 0x40"
  "(0xc2 :: byte) AND 0x1f = 2" "unat (22 :: u32) = length sample_front + length (lp_map [(''k'', ''v'')])"
  "unat (22 :: u32) \<le> 16777216"
  by (simp_all add: sample_lengths)

theorem dubbo_decode_request_witness:
  "\<exists>md. dubbo_decode lp_hessian dubbo_new
       (dubbo_header 0xc2 0 7 22 @ sample_front @ lp_map [(''k'', ''v'')] @ [1]) (fresh_metadata Request) =
       Inr (Done, dubbo_new, [1], md)
     \<and> md_request_id md = 7 \<and> md_operation_name md = ''a.B/m'' \<and> getString ''k'' md = Inr ''v''"
proof -
  have o: "reads_object lp_hessian (lp_map [(''k'', ''v'')]) (HUntypedMap (umap_of [(''k'', ''v'')]))"
    by (rule sample_object) simp
  have k: "''k'' \<notin> dubbo_keys" by (simp add: dubbo_keys_def)
  from dubbo_decode_request [OF sample_header sample_reads o sample_map(1), of 0 7 "[1]" Request]
  show ?thesis using k by (auto simp: sample_map(2))
qed

theorem dubbo_mutated_request_witness:
  "\<exists>md out md1 md2.
     dubbo_decode lp_hessian dubbo_new
       (dubbo_header 0xc2 0 7 22 @ sample_front @ lp_map [(''k'', ''v'')] @ [1]) (fresh_metadata Request) =
       Inr (Done, dubbo_new, [1], md)
     \<and> dubbo_encode lp_hessian md [(''k'', ''w'')] (md_origin_message md) = Inr (out, md1)
     \<and> dubbo_decode lp_hessian dubbo_new (out @ [2]) (fresh_metadata Request) = Inr (Done, dubbo_new, [2], md2)
     \<and> getString ''k'' md2 = Inr ''w''"
proof -
  have o: "reads_object lp_hessian (lp_map [(''k'', ''v'')]) (HUntypedMap (umap_of [(''k'', ''v'')]))"
    by (rule sample_object) simp
  have k: "''k'' \<notin> dubbo_keys" by (simp add: dubbo_keys_def)
  have m: "umap_of [(''k'', ''w'')] = at_map (mutate_attachment [(''k'', ''w'')]
      (new_attachment (umap_of [(''k'', ''v'')]) (word_of_nat (16 + length sample_front))))"
    by (auto simp: mutate_attachment_def new_attachment_def attachment_insert_def attachment_remove_def
        umap_of_def umap_emplace_def umap_erase_def)
  have e: "h_encode_map lp_hessian (umap_of [(''k'', ''w'')]) = lp_map [(''k'', ''w'')]"
    by (simp add: lp_hessian_def umap_of_def string_pairs_def map_filter_simps)
  have o': "reads_object lp_hessian (h_encode_map lp_hessian (umap_of [(''k'', ''w'')]))
      (HUntypedMap (umap_of [(''k'', ''w'')]))"
    unfolding e by (rule sample_object) simp
  have l: "length sample_front + length (h_encode_map lp_hessian (umap_of [(''k'', ''w'')])) \<le> 16777216"
    unfolding e by (simp add: sample_lengths lp_map_def lp_str_def)
  from dubbo_mutated_request [OF sample_header sample_reads o sample_map(1,3) _ m o' l, of 0 7 "[1]" Request "[2]"]
  show ?thesis using k by fastforce
qed

text \<open>
  C32: the mutation of a request can make the codec throw an exception that no caller catches: when
  the attachment of a decoded request holds a string under the key \<^verbatim>\<open>Timeout\<close>, every
  attempt to encode the request, or to write an error reply to it, ends with
  \<^verbatim>\<open>std::bad_any_cast\<close>.
\<close>

theorem dubbo_timeout_attachment_throws:
  fixes flag status :: byte and rid :: u64 and sz :: u32
  assumes "flag AND 0x80 = 0x80" "flag AND 0x20 \<noteq> 0x20" "flag AND 0x40 = 0x40" "flag AND 0x1f = 2"
    and "unat sz = length front + length att" "unat sz \<le> 16777216"
    and "reads_invocation H front sn mn" "reads_object H att (HUntypedMap m)"
    and "distinct (map fst m)"
    and "umap_find ''Timeout'' m = Some (HString t)" "umap_find ''RpcResultInfo'' m = None"
  shows "\<exists>md.
     dubbo_decode H dubbo_new (dubbo_header flag status rid sz @ front @ att @ rest) (fresh_metadata mt) =
       Inr (Done, dubbo_new, rest, md)
     \<and> dubbo_encode H md mut buf = Inl BadAnyCast \<and> dubbo_onError H md err [] = Inl BadAnyCast"
proof -
  obtain md iv where
    md: "dubbo_decode H dubbo_new (dubbo_header flag status rid sz @ front @ att @ rest)
          (fresh_metadata mt) = Inr (Done, dubbo_new, rest, md)"
      "md_message_type md = Request" "\<forall>k. getByKey k md = request_property iv m sn mn k"
    using dubbo_decode_request_md [OF assms(1-8), of status rid rest mt] by blast
  have "toMsgMetadata md = Inl BadAnyCast"
    using assms(10,11) md(3)
    by (simp add: toMsgMetadata_def present_def required_def request_property_def
        map_of_string_pairs [OF assms(9)])
  with md(1,2) show ?thesis
    by (auto simp: dubbo_encode_def encodeRequest_def dubbo_onError_def)
qed

theorem dubbo_timeout_attachment_throws_witness:
  "\<exists>md. dubbo_decode lp_hessian dubbo_new
       (dubbo_header 0xc2 0 7 28 @ sample_front @ lp_map [(''Timeout'', ''v'')] @ []) (fresh_metadata Request) =
       Inr (Done, dubbo_new, [], md)
     \<and> dubbo_encode lp_hessian md [] [] = Inl BadAnyCast
     \<and> dubbo_onError lp_hessian md (Error RouteNotFound []) [] = Inl BadAnyCast"
proof (rule dubbo_timeout_attachment_throws [OF sample_header(1-4) _ _ sample_reads])
  show "reads_object lp_hessian (lp_map [(''Timeout'', ''v'')])
      (HUntypedMap (umap_of [(''Timeout'', ''v'')]))"
    by (rule lp_reads_object) simp_all
  show "unat (28 :: u32) = length sample_front + length (lp_map [(''Timeout'', ''v'')])"
    by (simp add: sample_lengths lp_map_def lp_str_def)
qed (simp_all add: umap_of_def umap_find_def)

text \<open>
  C33: the client of a request that fails in the proxy gets no answer: for every decoded request,
  and every error, the error reply of the codec has no bytes.
\<close>

theorem dubbo_error_reply_empty:
  fixes flag status :: byte and rid :: u64 and sz :: u32
  assumes "flag AND 0x80 = 0x80" "flag AND 0x20 \<noteq> 0x20" "flag AND 0x40 = 0x40" "flag AND 0x1f = 2"
    and "unat sz = length front + length att" "unat sz \<le> 16777216"
    and "reads_invocation H front sn mn" "reads_object H att (HUntypedMap m)"
    and "distinct (map fst m)"
    and "\<forall>k\<in>{''Timeout'', ''ResponseStatus'', ''RpcResultInfo''}. umap_find k m = None"
  shows "\<exists>md.
     dubbo_decode H dubbo_new (dubbo_header flag status rid sz @ front @ att @ rest) (fresh_metadata mt) =
       Inr (Done, dubbo_new, rest, md)
     \<and> (\<forall>err. dubbo_onError H md err [] = Inr [])"
proof -
  obtain md iv where
    md: "dubbo_decode H dubbo_new (dubbo_header flag status rid sz @ front @ att @ rest)
          (fresh_metadata mt) = Inr (Done, dubbo_new, rest, md)"
      "md_message_type md = Request" "\<forall>k. getByKey k md = request_property iv m sn mn k"
    using dubbo_decode_request_md [OF assms(1-8), of status rid rest mt] by blast
  have "dubbo_onError H md err [] = Inr []" for err
    by (simp add: dubbo_onError_def request_toMsgMetadata [OF md(3) assms(9,10)]
        dubbo_protocol_encode_def rspheaderMutation_def new_message_metadata_def)
  with md(1) show ?thesis by blast
qed

theorem dubbo_error_reply_empty_witness:
  "\<exists>md. dubbo_decode lp_hessian dubbo_new
       (dubbo_header 0xc2 0 7 22 @ sample_front @ lp_map [(''k'', ''v'')] @ []) (fresh_metadata Request) =
       Inr (Done, dubbo_new, [], md)
     \<and> (\<forall>err. dubbo_onError lp_hessian md err [] = Inr [])"
  by (rule dubbo_error_reply_empty [OF sample_header sample_reads sample_object sample_map(1,3)]) simp

text \<open>
  C31: a successful response whose result is a plain value, without attachments, crashes the proxy:
  the codec dereferences the attachment pointer, which is null for this type of result.
\<close>

theorem dubbo_plain_value_crashes:
  fixes flag :: byte and rid :: u64 and sz :: u32
  assumes "flag AND 0x80 \<noteq> 0x80" "flag AND 0x20 \<noteq> 0x20"
    and "unat sz = length body" "unat sz \<le> 16777216"
    and "h_int32 H (body @ rest) 0 = (Some 1, n)" "h_string H (body @ rest) n = (Some v, n')"
    and "n \<le> length body"
  shows "dubbo_decode H dubbo_new (dubbo_header flag ST_Ok rid sz @ body @ rest) (fresh_metadata mt) =
     Inl (Undefined ''attachment_ is null'')"
proof -
  let ?h = "dubbo_header flag ST_Ok rid sz"
  let ?mm = "new_message_metadata\<lparr>mm_request_id := rid, mm_message_type := D_Response,
     mm_response_status := Some ST_Ok\<rparr>"
  let ?cx = "new_context\<lparr>cx_header_size := 16, cx_body_size := unat sz, cx_heartbeat := False\<rparr>"
  have d: "decodeHeader (?h @ body @ rest) new_message_metadata = Inr (Some ?cx, ?mm)"
    using assms(1,2) sint_body_size [OF assms(4)]
    by (simp add: decodeHeader_def dubbo_header_fields MessageSize_def Let_def MaxBodySize_def
      MessageTypeMask_def EventMask_def parseResponseInfoFromBuffer_def isValidResponseStatus_def)
  have b: "decodeData H (drop 16 (?h @ body @ rest))
      (?cx\<lparr>cx_origin_message := take 16 (?h @ body @ rest)\<rparr>) ?mm =
     Inr (True, ?mm\<lparr>mm_result_info := Some \<lparr>rr_has_exception = False, rr_body = v, rr_attachment = None\<rparr>\<rparr>)"
    using assms(3,5-7)
    by (simp add: decodeData_def deserializeRpcResult_def result_shape_def RT_ResponseWithException_def
        RT_ResponseWithExceptionWithAttachments_def RT_ResponseWithNullValue_def
        RT_ResponseNullValueWithAttachments_def RT_ResponseWithValue_def Let_def)
  show ?thesis
    by (subst dubbo_decode_body [OF d _ b])
      (simp_all add: dubbo_toMetadata_def dubbo_invocationToMetadata_def dubbo_resultToMetadata_def
        new_message_metadata_def)
qed

theorem dubbo_plain_value_crashes_witness:
  "dubbo_decode lp_hessian dubbo_new (dubbo_header 2 ST_Ok 7 3 @ [1, 1, 65] @ []) (fresh_metadata Response) =
     Inl (Undefined ''attachment_ is null'')"
  by (rule dubbo_plain_value_crashes [where n = 1 and n' = 3 and v = "[char_of (65 :: nat)]"])
    (simp_all add: lp_hessian_def lp_string_def chars_of_bytes_def)

section \<open>Parameter descriptors\<close>

text \<open>A parameter type of Java and its descriptor.\<close>

datatype java_type = JPrim char | JClass string | JArray java_type

fun java_type_ok :: "java_type \<Rightarrow> bool" where
  "java_type_ok (JPrim c) \<longleftrightarrow> c \<in> set ''VZBCDFIJS''"
| "java_type_ok (JClass n) \<longleftrightarrow> CHR '';'' \<notin> set n"
| "java_type_ok (JArray t) \<longleftrightarrow> java_type_ok t"

fun descriptor :: "java_type \<Rightarrow> string" where
  "descriptor (JPrim c) = [c]"
| "descriptor (JClass n) = CHR ''L'' # n @ '';''"
| "descriptor (JArray t) = CHR ''['' # descriptor t"

lemma count_class_name:
  "CHR '';'' \<notin> set n \<Longrightarrow> count_params (n @ CHR '';'' # s) c True = count_params s c False"
  by (induction n) auto

lemma count_descriptor:
  "java_type_ok t \<Longrightarrow> count_params (descriptor t @ s) c False = count_params s (c + 1) False"
  by (induction t) (auto simp: count_class_name)

text \<open>
  C30: the parameter count read from a descriptor is the number of its parameter types, arrays and
  classes included, as a 32-bit number.
\<close>

theorem getParametersNumber_descriptor:
  assumes "list_all java_type_ok ts"
  shows "getParametersNumber (concat (map descriptor ts)) = word_of_nat (length ts)"
proof -
  have "count_params (concat (map descriptor ts)) c False = c + word_of_nat (length ts)" for c
    using assms by (induction ts arbitrary: c) (simp_all add: count_descriptor add.assoc)
  moreover have "concat (map descriptor ts) = [] \<Longrightarrow> ts = []"
    by (cases ts) (auto elim: descriptor.elims)
  ultimately show ?thesis by (auto simp: getParametersNumber_def)
qed

theorem getParametersNumber_descriptor_witness:
  "getParametersNumber (concat (map descriptor [JPrim (CHR ''I''), JArray (JClass ''java/lang/String'')])) = 2"
  using getParametersNumber_descriptor [of "[JPrim (CHR ''I''), JArray (JClass ''java/lang/String'')]"]
  by simp

section \<open>The dispatch loop over the Dubbo codec\<close>

text \<open>
  C16: whatever bytes arrive, and whatever the Hessian library makes of them, the loop that decodes
  a Dubbo connection returns; and when no handler throws, the messages it delivered, what the codec
  holds of the next message and what is left in the buffer are, in this order, the bytes that were
  read.
\<close>

theorem dubbo_dispatch_returns:
  assumes "never_waits cb" "dubbo_ready (d_codec d)"
  shows "\<exists>r s'. dispatch_loop (dubbo_decode H) cb d buf s = Some (r, s') \<and>
     (\<forall>d' buf'. r = Inr (d', buf') \<longrightarrow>
        (\<exists>mds. deliver_all cb mds s = (Inr (), s')
           \<and> concat (map md_origin_message mds) @ dubbo_pending (d_codec d') @ buf' =
             dubbo_pending (d_codec d) @ buf))"
proof -
  obtain r s' where r: "dispatch_loop (dubbo_decode H) cb d buf s = Some (r, s')"
    using dubbo.dispatch_loop_returns [OF assms(2)] by fast
  moreover have "\<exists>mds. deliver_all cb mds s = (Inr (), s')
           \<and> concat (map md_origin_message mds) @ dubbo_pending (d_codec d') @ buf' =
             dubbo_pending (d_codec d) @ buf" if "r = Inr (d', buf')" for d' buf'
    using dispatch_loop_frames [OF r assms(1) that] dubbo.frames_conserve assms(2) by blast
  ultimately show ?thesis by blast
qed

theorem dubbo_dispatch_returns_witness:
  "\<exists>r s'. dispatch_loop (dubbo_decode lp_hessian) recorder (new_decoder dubbo_new Request)
      (dubbo_header 0xc2 0 7 22) [] = Some (r, s')"
  using dubbo_dispatch_returns [of recorder "new_decoder dubbo_new Request" lp_hessian] 
  by (fastforce simp: new_decoder_def dubbo_new_def dubbo_ready_def)

end
