(* ===== verification/Upstream.thy ===== *)
theory Upstream
  imports Decoder
begin

text \<open>
  The upstream side of the proxy as its components see it: the clusters and connection pools of
  Envoy, what was done to the upstream connections, and the request a router sends,
  \<^verbatim>\<open>filters/router/upstream_request.cc\<close>, with the choice of the pool in
  \<^verbatim>\<open>filters/router/router.h\<close>.

  A request is written against the interface \<^verbatim>\<open>RequestOwner\<close>, which the router and the
  shadow router implement: the record \<^verbatim>\<open>owner\<close> holds its functions and the access to
  the objects the owner and the request share, over any type of state.
\<close>

section \<open>Codecs and statuses\<close>

record ('c, 'x) codec =
  co_new :: 'c
  co_decode :: "('c, 'x) decode_fn"
  co_encode :: "'x metadata \<Rightarrow> mutation \<Rightarrow> buffer \<Rightarrow> (buffer \<times> 'x metadata) res"
  co_onError :: "'x metadata \<Rightarrow> error \<Rightarrow> buffer \<Rightarrow> buffer res"

datatype filter_status = ContinueIteration | PauseIteration | AbortIteration | Retry

datatype upstream_response_status = UR_MoreData | UR_Complete | UR_Reset | UR_Retry

datatype connection_event = Connected | LocalClose | RemoteClose

section \<open>Pools, clusters and connections\<close>

datatype pool_failure_reason = Overflow | LocalConnectionFailure | RemoteConnectionFailure | Timeout

datatype outlier_result = ExtOriginRequestFailed | ExtOriginRequestSuccess | LocalOriginTimeout
  | LocalOriginConnectFailed | LocalOriginConnectSuccess

text \<open>
  What \<^verbatim>\<open>newConnection\<close> of a pool does before it returns: nothing (it returns a handle and
  calls back later), hand over a connection with its remote address, or report an overflow.
  Failures of a connection are only reported later, as the comment in
  \<^verbatim>\<open>UpstreamRequest::onPoolFailure\<close> relies on.
\<close>

datatype pool_answer = AnswerLater | AnswerReady string | AnswerOverflow

record tcp_pool =
  tp_host :: string
  tp_answer :: pool_answer

text \<open>A cluster; the choice of a pool may use the hash key of the load balancer context.\<close>

record cluster =
  cl_maintenanceMode :: bool
  cl_tcpConnPool :: "u64 option res \<Rightarrow> tcp_pool option res"

text \<open>
  \<^verbatim>\<open>UpstreamRequest\<close> and \<^verbatim>\<open>UpstreamRequestByHandler\<close>.  A connection taken from
  a pool (\<^verbatim>\<open>ConnectionData\<close>) is a number; \<^verbatim>\<open>ur_upstream_handler\<close> is the number
  of the shared handler of a request by handler.
\<close>

record upstream_request =
  ur_mutation :: mutation
  ur_upstream_host :: "string option"
  ur_buffer :: buffer
  ur_request_complete :: bool
  ur_response_started :: bool
  ur_response_complete :: bool
  ur_stream_reset :: bool
  ur_conn_pool_handle :: bool
  ur_conn_data :: "nat option"
  ur_upstream_handler :: "nat option"

text \<open>
  \<^verbatim>\<open>UpstreamHandlerImpl\<close>: a connection to one upstream host shared by the requests of a
  multiplexed connection.  \<^verbatim>\<open>uh_upstream_handle\<close> is a pending request to the pool;
  \<^verbatim>\<open>uh_request_callbacks\<close> the messages waiting for the connection;
  \<^verbatim>\<open>uh_response_callbacks\<close> the message of each request id;
  \<^verbatim>\<open>uh_upstream_response\<close> the decoder of the response that is being read and its
  \<^verbatim>\<open>complete_\<close> bit.
\<close>

record ('c, 'x) upstream_handler =
  uh_key :: string
  uh_upstream_handle :: bool
  uh_conn_data :: "nat option"
  uh_request_callbacks :: "nat list"
  uh_response_callbacks :: "(u64, nat) std_map"
  uh_upstream_response :: "(('c, unit, 'x) decoder \<times> bool) option"
  uh_pool_ready :: bool

text \<open>\<^verbatim>\<open>ShadowRouterImpl\<close>; \<^verbatim>\<open>sr_codec\<close> says that \<^verbatim>\<open>codec_\<close> was not moved
  away yet.\<close>

record ('c, 'x) shadow_router =
  sr_metadata :: "'x metadata"
  sr_upstream_request :: "upstream_request option"
  sr_codec :: bool
  sr_decoder :: "('c, unit, 'x) decoder"
  sr_complete :: bool
  sr_removed :: bool

text \<open>
  The upstream side.  The clusters are those the cluster manager has now;
  \<^verbatim>\<open>nt_uninit\<close> is the value an uninitialised bit field happens to have.  The other
  fields record what was done: the bytes written to each connection, the connections closed and
  given back to their pool, the pending requests cancelled, the results reported to the outlier
  detectors and the access log entries; then the shared handlers of the connection and the shadow
  routers of the worker.
\<close>

record ('c, 'x) net =
  nt_clusters :: "string \<Rightarrow> cluster option"
  nt_uninit :: bool
  nt_next_conn :: nat
  nt_written :: "(nat \<times> buffer \<times> bool) list"
  nt_closed :: "nat list"
  nt_released :: "nat list"
  nt_cancelled :: nat
  nt_outlier :: "(string \<times> outlier_result) list"
  nt_log :: "(int \<times> string) list"
  nt_handlers :: "(nat \<times> ('c, 'x) upstream_handler) list"
  nt_upstream_handlers :: "(string, nat) std_map"
  nt_active_routers :: "(nat \<times> ('c, 'x) shadow_router) list"
  nt_next :: nat

definition new_net :: "(string \<Rightarrow> cluster option) \<Rightarrow> ('c, 'x) net" where
  "new_net clusters = \<lparr>nt_clusters = clusters, nt_uninit = False, nt_next_conn = 0, nt_written = [],
     nt_closed = [], nt_released = [], nt_cancelled = 0, nt_outlier = [], nt_log = [],
     nt_handlers = [], nt_upstream_handlers = [], nt_active_routers = [], nt_next = 0\<rparr>"

definition upstream_write :: "nat \<Rightarrow> buffer \<Rightarrow> bool \<Rightarrow> ('c, 'x) net \<Rightarrow> ('c, 'x) net" where
  "upstream_write c data end_stream nt = nt\<lparr>nt_written := nt_written nt @ [(c, data, end_stream)]\<rparr>"

definition release_conn :: "nat option \<Rightarrow> ('c, 'x) net \<Rightarrow> ('c, 'x) net" where
  "release_conn c nt = (case c of
     Some n \<Rightarrow> nt\<lparr>nt_released := nt_released nt @ [n]\<rparr> | None \<Rightarrow> nt)"

definition putResult :: "string \<Rightarrow> outlier_result \<Rightarrow> ('c, 'x) net \<Rightarrow> ('c, 'x) net" where
  "putResult host r nt = nt\<lparr>nt_outlier := nt_outlier nt @ [(host, r)]\<rparr>"

section \<open>The choice of the pool\<close>

definition quoted :: "string \<Rightarrow> string" where
  "quoted s = CHR 0x27 # s @ [CHR 0x27]"

datatype prepare_result = PrepareError error string | Prepared tcp_pool

definition prepareUpstreamRequest ::
  "string \<Rightarrow> u64 option res \<Rightarrow> ('c, 'x) net \<Rightarrow> prepare_result res" where
  "prepareUpstreamRequest cluster_name hash_key nt =
     (case nt_clusters nt cluster_name of
        None \<Rightarrow> Inr (PrepareError (Error ClusterNotFound
          (''meta protocol router: unknown cluster '' @ quoted cluster_name)) ''unknown_cluster'')
      | Some cl \<Rightarrow>
          if cl_maintenanceMode cl then
            Inr (PrepareError (Error Unspecified
              (''meta protocol router: maintenance mode for cluster '' @ quoted cluster_name))
              ''cluster_in_maintenance_mode'')
          else bindr (cl_tcpConnPool cl hash_key) (\<lambda>pool. Inr (case pool of
            None \<Rightarrow> PrepareError (Error NoHealthyUpstream
              (''meta protocol router: no healthy upstream for '' @ quoted cluster_name))
              ''no_healthy_upstream''
          | Some p \<Rightarrow> Prepared p)))"

section \<open>The owner of a request\<close>

text \<open>
  \<^verbatim>\<open>RequestOwner\<close>.  The first fields reach the objects the request and its owner share: the
  metadata, the request itself and the upstream side.  \<^verbatim>\<open>ow_createCodec\<close> tells whether
  the pointer it returns is not null.
\<close>

record ('c, 'x, 's) owner =
  ow_metadata :: "'s \<Rightarrow> 'x metadata option"
  ow_set_metadata :: "'x metadata \<Rightarrow> 's \<Rightarrow> 's"
  ow_request :: "'s \<Rightarrow> upstream_request option"
  ow_set_request :: "upstream_request option \<Rightarrow> 's \<Rightarrow> 's"
  ow_net :: "'s \<Rightarrow> ('c, 'x) net"
  ow_set_net :: "('c, 'x) net \<Rightarrow> 's \<Rightarrow> 's"
  ow_codec :: "('c, 'x) codec"
  ow_createCodec :: "'s \<Rightarrow> bool \<times> 's"
  ow_continueDecoding :: "'s \<Rightarrow> unit res \<times> 's"
  ow_sendLocalReply :: "error \<Rightarrow> bool \<Rightarrow> 's \<Rightarrow> unit res \<times> 's"
  ow_resetStream :: "'s \<Rightarrow> unit res \<times> 's"
  ow_setUpstreamConnection :: "nat option \<Rightarrow> 's \<Rightarrow> unit res \<times> 's"
  ow_onUpstreamHostSelected :: "string \<Rightarrow> 's \<Rightarrow> 's"

definition with_request ::
  "('c, 'x, 's) owner \<Rightarrow> (upstream_request \<Rightarrow> 's \<Rightarrow> 'a res \<times> 's) \<Rightarrow> 's \<Rightarrow> 'a res \<times> 's" where
  "with_request ow f s = (case ow_request ow s of
     None \<Rightarrow> (Inl (Undefined ''upstream_request_ is null''), s) | Some r \<Rightarrow> f r s)"

definition with_metadata ::
  "('c, 'x, 's) owner \<Rightarrow> ('x metadata \<Rightarrow> 's \<Rightarrow> 'a res \<times> 's) \<Rightarrow> 's \<Rightarrow> 'a res \<times> 's" where
  "with_metadata ow f s = (case ow_metadata ow s of
     None \<Rightarrow> (Inl (Undefined ''metadata_ is null''), s) | Some md \<Rightarrow> f md s)"

definition upd_request ::
  "('c, 'x, 's) owner \<Rightarrow> (upstream_request \<Rightarrow> upstream_request) \<Rightarrow> 's \<Rightarrow> 's" where
  "upd_request ow f s = ow_set_request ow (map_option f (ow_request ow s)) s"

definition upd_net :: "('c, 'x, 's) owner \<Rightarrow> (('c, 'x) net \<Rightarrow> ('c, 'x) net) \<Rightarrow> 's \<Rightarrow> 's" where
  "upd_net ow f s = ow_set_net ow (f (ow_net ow s)) s"

section \<open>An upstream request\<close>

text \<open>The constructor: the bytes of the message move into the request.\<close>

definition new_upstream_request ::
  "mutation \<Rightarrow> nat option \<Rightarrow> 'x metadata \<Rightarrow> upstream_request \<times> 'x metadata" where
  "new_upstream_request mut handler md =
     (\<lparr>ur_mutation = mut, ur_upstream_host = None, ur_buffer = md_origin_message md,
       ur_request_complete = False, ur_response_started = False, ur_response_complete = False,
       ur_stream_reset = False, ur_conn_pool_handle = False, ur_conn_data = None,
       ur_upstream_handler = handler\<rparr>,
      md\<lparr>md_origin_message := []\<rparr>)"

definition ur_onUpstreamHostSelected :: "('c, 'x, 's) owner \<Rightarrow> string \<Rightarrow> 's \<Rightarrow> 's" where
  "ur_onUpstreamHostSelected ow host = upd_request ow (\<lambda>r. r\<lparr>ur_upstream_host := Some host\<rparr>)"

definition reset_message :: "pool_failure_reason \<Rightarrow> string option \<Rightarrow> string res" where
  "reset_message reason host = (case (reason, host) of
     (Overflow, _) \<Rightarrow> Inr ''meta protocol upstream request: too many connections''
   | (_, None) \<Rightarrow> Inl (Undefined ''upstream_host_ is null'')
   | (LocalConnectionFailure, Some h) \<Rightarrow>
       Inr (''meta protocol upstream request: local connection failure '' @ quoted h)
   | (RemoteConnectionFailure, Some h) \<Rightarrow>
       Inr (''meta protocol upstream request: remote connection failure '' @ quoted h)
   | (Timeout, Some h) \<Rightarrow>
       Inr (''meta protocol upstream request: connection failure '' @ quoted h @ '' due to timeout''))"

definition onUpstreamConnectionReset ::
  "('c, 'x, 's) owner \<Rightarrow> pool_failure_reason \<Rightarrow> 's \<Rightarrow> unit res \<times> 's" where
  "onUpstreamConnectionReset ow reason = with_metadata ow (\<lambda>md. with_request ow (\<lambda>r s.
     if md_message_type md = Oneway then ow_resetStream ow s
     else case reset_message reason (ur_upstream_host r) of
       Inl e \<Rightarrow> (Inl e, s)
     | Inr msg \<Rightarrow>
         bindS (ow_sendLocalReply ow (Error Unspecified msg) False s) (\<lambda>_. with_request ow (\<lambda>r1 s1.
           if \<not> ur_response_complete r1 then ow_resetStream ow s1 else (Inr (), s1)))))"

definition onUpstreamConnectionEvent ::
  "('c, 'x, 's) owner \<Rightarrow> connection_event \<Rightarrow> 's \<Rightarrow> unit res \<times> 's" where
  "onUpstreamConnectionEvent ow ev s = (case ev of
     RemoteClose \<Rightarrow>
       bindS (onUpstreamConnectionReset ow RemoteConnectionFailure s) (\<lambda>_. with_request ow (\<lambda>r s1.
         case ur_upstream_host r of
           None \<Rightarrow> (Inl (Undefined ''upstream_host_ is null''), s1)
         | Some h \<Rightarrow> (Inr (), upd_net ow (putResult h LocalOriginConnectFailed) s1)))
   | LocalClose \<Rightarrow> onUpstreamConnectionReset ow LocalConnectionFailure s
   | Connected \<Rightarrow> (Inl (Panic ''not reached''), s))"

text \<open>
  \<^verbatim>\<open>releaseUpStreamConnection\<close>.  Closing the connection is the last thing it does; the
  result tells the caller whether it closed one, since Envoy then raises \<^verbatim>\<open>LocalClose\<close> on
  the callbacks of that connection before \<^verbatim>\<open>close\<close> returns.
\<close>

definition release_effect :: "bool \<Rightarrow> upstream_request \<Rightarrow> ('c, 'x) net \<Rightarrow> ('c, 'x) net" where
  "release_effect close r nt =
     (let nt1 = (if ur_conn_pool_handle r then nt\<lparr>nt_cancelled := nt_cancelled nt + 1\<rparr> else nt);
          nt2 = (if close then nt1\<lparr>nt_closed := nt_closed nt1 @ (case ur_conn_data r of Some c \<Rightarrow> [c] | None \<Rightarrow> [])\<rparr>
                 else nt1)
      in release_conn (ur_conn_data r) nt2)"

definition releaseUpStreamConnection ::
  "('c, 'x, 's) owner \<Rightarrow> bool \<Rightarrow> 's \<Rightarrow> bool res \<times> 's" where
  "releaseUpStreamConnection ow close = with_request ow (\<lambda>r s.
     (Inr (close \<and> ur_conn_data r \<noteq> None),
      upd_net ow (release_effect close r) (upd_request ow (\<lambda>r. r\<lparr>ur_stream_reset := True,
        ur_conn_pool_handle := False, ur_conn_data := None\<rparr>) s)))"

definition ur_encodeData :: "('c, 'x, 's) owner \<Rightarrow> 's \<Rightarrow> unit res \<times> 's" where
  "ur_encodeData ow = with_metadata ow (\<lambda>md. with_request ow (\<lambda>r s.
     case ow_createCodec ow s of (has_codec, s0) \<Rightarrow>
     if \<not> has_codec then (Inl (Undefined ''codec is null''), s0)
     else case co_encode (ow_codec ow) md (ur_mutation r) (ur_buffer r) of
       Inl e \<Rightarrow> (Inl e, s0)
     | Inr (data, md1) \<Rightarrow>
         (case ur_conn_data r of
            None \<Rightarrow> (Inl (Undefined ''conn_data_ is null''), s0)
          | Some c \<Rightarrow>
              (Inr (), upd_net ow (upstream_write c data False)
                 (upd_request ow (\<lambda>r. r\<lparr>ur_buffer := []\<rparr>) (ow_set_metadata ow md1 s0))))))"

definition onRequestStart :: "('c, 'x, 's) owner \<Rightarrow> bool \<Rightarrow> 's \<Rightarrow> unit res \<times> 's" where
  "onRequestStart ow continue_decoding s =
     (if continue_decoding then ow_continueDecoding ow s else (Inr (), s))"

definition is_connection_error :: "pool_failure_reason \<Rightarrow> bool" where
  "is_connection_error reason \<longleftrightarrow>
     reason = Timeout \<or> reason = LocalConnectionFailure \<or> reason = RemoteConnectionFailure"

definition pool_failure_result :: "pool_failure_reason \<Rightarrow> string \<Rightarrow> ('c, 'x) net \<Rightarrow> ('c, 'x) net" where
  "pool_failure_result reason host nt =
     (if reason = Timeout then putResult host LocalOriginTimeout nt
      else if reason = RemoteConnectionFailure then putResult host LocalOriginConnectFailed nt
      else nt)"

definition ur_onPoolFailure ::
  "('c, 'x, 's) owner \<Rightarrow> pool_failure_reason \<Rightarrow> string \<Rightarrow> 's \<Rightarrow> unit res \<times> 's" where
  "ur_onPoolFailure ow reason host s =
     (let s1 = upd_request ow (\<lambda>r. r\<lparr>ur_conn_pool_handle := False\<rparr>) (ow_onUpstreamHostSelected ow host s)
      in bindS (onUpstreamConnectionReset ow reason (ur_onUpstreamHostSelected ow host s1)) (\<lambda>_ s2.
           let s3 = upd_request ow (\<lambda>r. r\<lparr>ur_buffer := []\<rparr>) s2
           in if is_connection_error reason
              then ow_continueDecoding ow (upd_net ow (pool_failure_result reason host) s3)
              else (Inr (), s3)))"

text \<open>The end of \<^verbatim>\<open>onPoolReady\<close>: a stream keeps the connection.\<close>

definition hand_over_stream :: "('c, 'x, 's) owner \<Rightarrow> 's \<Rightarrow> unit res \<times> 's" where
  "hand_over_stream ow = with_metadata ow (\<lambda>md s.
     if md_message_type md = Stream_Init then
       bindS (ow_resetStream ow s) (\<lambda>_. with_request ow (\<lambda>r s1.
         ow_setUpstreamConnection ow (ur_conn_data r) (upd_request ow (\<lambda>r. r\<lparr>ur_conn_data := None\<rparr>) s1)))
     else (Inr (), s))"

text \<open>\<^verbatim>\<open>addr\<close> is the remote address of the connection.\<close>

definition ur_onPoolReady ::
  "('c, 'x, 's) owner \<Rightarrow> nat \<Rightarrow> string \<Rightarrow> string \<Rightarrow> 's \<Rightarrow> unit res \<times> 's" where
  "ur_onPoolReady ow conn host addr s = with_request ow (\<lambda>r s0.
     let continue_decoding = ur_conn_pool_handle r;
         s1 = upd_net ow (putResult host LocalOriginConnectSuccess) (ur_onUpstreamHostSelected ow host s0);
         s2 = upd_request ow (\<lambda>r. r\<lparr>ur_conn_data := Some conn, ur_conn_pool_handle := False\<rparr>) s1
     in with_metadata ow (\<lambda>md s3.
          bindS (onRequestStart ow continue_decoding
                   (ow_set_metadata ow (putString RealServerAddress addr md) s3)) (\<lambda>_ s4.
          bindS (ur_encodeData ow s4) (\<lambda>_ s5.
          bindS (hand_over_stream ow s5) (\<lambda>_ s6.
            (Inr (), upd_request ow (\<lambda>r. r\<lparr>ur_request_complete := True\<rparr>) s6))))) s2)
       (ow_onUpstreamHostSelected ow host s)"

definition ur_start :: "('c, 'x, 's) owner \<Rightarrow> tcp_pool \<Rightarrow> 's \<Rightarrow> filter_status res \<times> 's" where
  "ur_start ow pool s = (case tp_answer pool of
     AnswerLater \<Rightarrow> (Inr PauseIteration, upd_request ow (\<lambda>r. r\<lparr>ur_conn_pool_handle := True\<rparr>) s)
   | AnswerReady addr \<Rightarrow>
       let n = nt_next_conn (ow_net ow s)
       in bindS (ur_onPoolReady ow n (tp_host pool) addr
                   (upd_net ow (\<lambda>nt. nt\<lparr>nt_next_conn := Suc n\<rparr>) s)) (\<lambda>_ s1. (Inr ContinueIteration, s1))
   | AnswerOverflow \<Rightarrow>
       bindS (ur_onPoolFailure ow Overflow (tp_host pool) s) (\<lambda>_ s1. (Inr ContinueIteration, s1)))"

definition ur_onResponseStarted :: "('c, 'x, 's) owner \<Rightarrow> 's \<Rightarrow> 's" where
  "ur_onResponseStarted ow = upd_request ow (\<lambda>r. r\<lparr>ur_response_started := True\<rparr>)"

definition ur_onResponseComplete :: "('c, 'x, 's) owner \<Rightarrow> 's \<Rightarrow> unit res \<times> 's" where
  "ur_onResponseComplete ow = with_request ow (\<lambda>r s.
     (Inr (), upd_net ow (release_conn (ur_conn_data r))
        (upd_request ow (\<lambda>r. r\<lparr>ur_response_complete := True, ur_conn_data := None\<rparr>) s)))"

text \<open>Destroying the request gives its connection back.\<close>

definition destroy_request :: "('c, 'x, 's) owner \<Rightarrow> 's \<Rightarrow> 's" where
  "destroy_request ow s = (case ow_request ow s of
     None \<Rightarrow> s
   | Some r \<Rightarrow> upd_net ow (release_conn (ur_conn_data r)) (ow_set_request ow None s))"

end
