(* ===== verification/Connection.thy ===== *)
theory Connection
  imports Upstream
begin

text \<open>
  The state of one downstream connection and the operations the messages on it share: the
  records of \<^verbatim>\<open>conn_manager.h\<close>, \<^verbatim>\<open>active_message.h\<close> and \<^verbatim>\<open>stream.h\<close>, the
  statistics, local replies, the table of streams and the deferred deletion of messages.

  The objects that point at each other in the code are one record here: a message is found by its
  number in the list of active messages or, after its deferred deletion and before it is destroyed,
  in the list of deferred ones.  The network connection of Envoy is what the code observes of it:
  its state, the bytes written, the close and read-disable calls.  A filter is a function that returns what it did: its new state, the message and
  mutation it leaves, the callbacks it made in order, and its status.
\<close>

section \<open>Filters\<close>

datatype filter_call =
    Call_sendLocalReply error bool
  | Call_startUpstreamResponse
  | Call_resetDownstreamConnection
  | Call_resetStream
  | Call_setUpstreamConnection
  | Call_onUpstreamResponse

text \<open>
  A filter is called with the number of its message, its own state, the state the filters share,
  the upstream side, the metadata and the mutation.  It may throw after it has acted.
\<close>

record ('c, 'x, 'f) outcome =
  fo_status :: "filter_status res"
  fo_filter :: 'f
  fo_shared :: 'f
  fo_net :: "('c, 'x) net"
  fo_metadata :: "'x metadata"
  fo_mutation :: mutation
  fo_calls :: "filter_call list"

record ('c, 'x, 'f) filter_fns =
  ff_onMessageDecoded ::
    "nat \<Rightarrow> 'f \<Rightarrow> 'f \<Rightarrow> ('c, 'x) net \<Rightarrow> 'x metadata \<Rightarrow> mutation \<Rightarrow> ('c, 'x, 'f) outcome"
  ff_onMessageEncoded ::
    "nat \<Rightarrow> 'f \<Rightarrow> 'f \<Rightarrow> ('c, 'x) net \<Rightarrow> 'x metadata \<Rightarrow> mutation \<Rightarrow> ('c, 'x, 'f) outcome"
  ff_onDestroy :: "nat \<Rightarrow> 'f \<Rightarrow> ('c, 'x) net \<Rightarrow> ('c, 'x) net"

text \<open>What the factory of a filter adds to a chain.\<close>

datatype filter_kind = DecoderKind | EncoderKind | CodecKind

record ('c, 'x, 'f) config =
  cf_codec :: "('c, 'x) codec"
  cf_applicationProtocol :: string
  cf_idleTimeout :: "nat option"
  cf_filterFactories :: "(filter_kind \<times> 'f) list"
  cf_filters :: "('c, 'x, 'f) filter_fns"

section \<open>Statistics\<close>

datatype stat = cx_destroy_local_with_active_rq | cx_destroy_remote_with_active_rq
  | local_response_business_exception | local_response_error | local_response_success
  | request | request_decoding_error | request_decoding_success | request_event | request_oneway
  | request_twoway | request_stream | response | response_business_exception
  | response_decoding_error | response_decoding_success | response_error
  | response_error_caused_connection_close | response_success | request_active | idle_timeout

type_synonym stats = "stat \<Rightarrow> int"

definition stat_inc :: "stat \<Rightarrow> stats \<Rightarrow> stats" where
  "stat_inc k st = st(k := st k + 1)"

definition stat_dec :: "stat \<Rightarrow> stats \<Rightarrow> stats" where
  "stat_dec k st = st(k := st k - 1)"

section \<open>Messages, streams and the connection\<close>

record ('c, 'x) response_decoder =
  rd_decoder :: "('c, unit, 'x) decoder"
  rd_metadata :: "'x metadata option"
  rd_complete :: bool
  rd_response_status :: upstream_response_status

text \<open>
  A filter of a chain is its position in \<^verbatim>\<open>am_filters\<close> and whether it was added as
  both a decoder and an encoder filter.  \<^verbatim>\<open>am_filter_action\<close> holds the mutation the
  stored action captures (the metadata it captures is the one of the message);
  \<^verbatim>\<open>am_encoder_filter_action\<close> that of the response.
\<close>

record ('c, 'x, 'f) message =
  am_metadata :: "'x metadata option"
  am_response_decoder :: "('c, 'x) response_decoder option"
  am_filters :: "'f list"
  am_decoder_filters :: "(nat \<times> bool) list"
  am_encoder_filters :: "(nat \<times> bool) list"
  am_filter_action :: "mutation option"
  am_encoder_filter_action :: "mutation option"
  am_bytes_sent :: u64
  am_bytes_received :: u64
  am_pending_stream_decoded :: bool
  am_local_response_sent :: bool

text \<open>A stream; its upstream connection, when it has one, is what was written to it.\<close>

record stream =
  st_upstream_conn :: "buffer list option"
  st_client_closed :: bool
  st_server_closed :: bool

definition new_stream :: stream where
  "new_stream = \<lparr>st_upstream_conn = None, st_client_closed = False, st_server_closed = False\<rparr>"

datatype connection_state = Open | Closing | Closed

datatype close_type = NoFlush | FlushWrite

record ('c, 'x, 'f) conn =
  cn_messages :: "(nat \<times> ('c, 'x, 'f) message) list"
  cn_deferred :: "(nat \<times> ('c, 'x, 'f) message) list"
  cn_next :: nat
  cn_streams :: "(u64, stream) std_map"
  cn_stats :: stats
  cn_state :: connection_state
  cn_written :: "(buffer \<times> bool) list"
  cn_closes :: "close_type list"
  cn_readDisable :: "bool list"
  cn_idle_timer :: "bool option"
  cn_net :: "('c, 'x) net"
  cn_shared :: 'f

definition new_conn :: "'f \<Rightarrow> ('c, 'x) net \<Rightarrow> ('c, 'x, 'f) conn" where
  "new_conn g nt = \<lparr>cn_messages = [], cn_deferred = [], cn_next = 0, cn_streams = [],
     cn_stats = (\<lambda>_. 0), cn_state = Open, cn_written = [], cn_closes = [], cn_readDisable = [],
     cn_idle_timer = None, cn_net = nt, cn_shared = g\<rparr>"

abbreviation inc :: "stat \<Rightarrow> ('c, 'x, 'f) conn \<Rightarrow> ('c, 'x, 'f) conn" where
  "inc k cn \<equiv> cn\<lparr>cn_stats := stat_inc k (cn_stats cn)\<rparr>"

text \<open>A message, active or deferred.\<close>

definition get_message :: "nat \<Rightarrow> ('c, 'x, 'f) conn \<Rightarrow> ('c, 'x, 'f) message option" where
  "get_message i cn = map_of (cn_messages cn @ cn_deferred cn) i"

definition update_at :: "nat \<Rightarrow> ('m \<Rightarrow> 'm) \<Rightarrow> (nat \<times> 'm) list \<Rightarrow> (nat \<times> 'm) list" where
  "update_at i f ms = map (\<lambda>(j, m). if j = i then (j, f m) else (j, m)) ms"

definition upd_message ::
  "nat \<Rightarrow> (('c, 'x, 'f) message \<Rightarrow> ('c, 'x, 'f) message) \<Rightarrow> ('c, 'x, 'f) conn \<Rightarrow> ('c, 'x, 'f) conn" where
  "upd_message i f cn = cn\<lparr>cn_messages := update_at i f (cn_messages cn),
     cn_deferred := update_at i f (cn_deferred cn)\<rparr>"

section \<open>The network connection\<close>

text \<open>Envoy's \<^verbatim>\<open>Connection::write\<close> moves the bytes out of the buffer it is given;
  \<^verbatim>\<open>close\<close> ends the open state at once.  The event that \<^verbatim>\<open>close\<close> raises on the
  connection manager (\<^verbatim>\<open>onEvent\<close> with \<^verbatim>\<open>LocalClose\<close>) is an event of its own here,
  after the call that closes; it resets the messages that are left then.\<close>

definition conn_write :: "buffer \<Rightarrow> bool \<Rightarrow> ('c, 'x, 'f) conn \<Rightarrow> ('c, 'x, 'f) conn" where
  "conn_write data end_stream cn = cn\<lparr>cn_written := cn_written cn @ [(data, end_stream)]\<rparr>"

definition conn_close :: "close_type \<Rightarrow> ('c, 'x, 'f) conn \<Rightarrow> ('c, 'x, 'f) conn" where
  "conn_close t cn = cn\<lparr>cn_closes := cn_closes cn @ [t],
     cn_state := (if t = NoFlush \<or> cn_state cn = Closed then Closed else Closing)\<rparr>"

section \<open>Deferred deletion and local replies\<close>

definition deferredDeleteMessage :: "nat \<Rightarrow> ('c, 'x, 'f) conn \<Rightarrow> ('c, 'x, 'f) conn" where
  "deferredDeleteMessage i cn =
     (case map_of (cn_messages cn) i of
        None \<Rightarrow> cn
      | Some m \<Rightarrow> cn\<lparr>cn_messages := filter (\<lambda>jm. fst jm \<noteq> i) (cn_messages cn),
                     cn_deferred := cn_deferred cn @ [(i, m)]\<rparr>)"

text \<open>\<^verbatim>\<open>resetAllMessages\<close>: \<^verbatim>\<open>onReset\<close> of the front message deletes it, until
  the list is empty.\<close>

function resetAllMessages :: "bool \<Rightarrow> ('c, 'x, 'f) conn \<Rightarrow> ('c, 'x, 'f) conn" where
  "resetAllMessages local_reset cn =
     (case cn_messages cn of
        [] \<Rightarrow> cn
      | (i, m) # ms \<Rightarrow>
          resetAllMessages local_reset (deferredDeleteMessage i
            (inc (if local_reset then cx_destroy_local_with_active_rq
                  else cx_destroy_remote_with_active_rq) cn)))"
  by auto
termination
  by (relation "measure (\<lambda>(l, cn). length (cn_messages cn))")
    (auto simp: deferredDeleteMessage_def less_Suc_eq_le)

declare resetAllMessages.simps [simp del]

datatype response_type = SuccessReply | ErrorReply | ExceptionReply

text \<open>\<^verbatim>\<open>AppException::encode\<close> and \<^verbatim>\<open>HeartbeatResponse::encode\<close>.\<close>

definition AppException_encode ::
  "('c, 'x) codec \<Rightarrow> error \<Rightarrow> 'x metadata \<Rightarrow> (response_type \<times> buffer) res" where
  "AppException_encode co err md = bindr (co_onError co md err []) (\<lambda>b. Inr (ExceptionReply, b))"

definition HeartbeatResponse_encode ::
  "('c, 'x) codec \<Rightarrow> 'x metadata \<Rightarrow> (response_type \<times> buffer) res" where
  "HeartbeatResponse_encode co md =
     bindr (co_encode co (md\<lparr>md_message_type := Heartbeat\<rparr>) [] []) (\<lambda>(b, _). Inr (SuccessReply, b))"

definition response_stat :: "response_type \<Rightarrow> stat" where
  "response_stat t = (case t of SuccessReply \<Rightarrow> local_response_success
     | ErrorReply \<Rightarrow> local_response_error | ExceptionReply \<Rightarrow> local_response_business_exception)"

definition cm_sendLocalReply ::
  "('c, 'x, 'f) config \<Rightarrow> 'x metadata \<Rightarrow> error \<Rightarrow> bool \<Rightarrow> ('c, 'x, 'f) conn
   \<Rightarrow> unit res \<times> ('c, 'x, 'f) conn" where
  "cm_sendLocalReply cfg md err end_stream cn =
     (if cn_state cn \<noteq> Open then (Inr (), cn)
      else
        let finish = (\<lambda>result cn1.
              let cn2 = (if end_stream then conn_close FlushWrite cn1 else cn1)
              in (Inr (), inc (response_stat result) cn2))
        in case AppException_encode (cf_codec cfg) err md of
             Inr (result, b) \<Rightarrow> finish result (conn_write b end_stream cn)
           | Inl e \<Rightarrow> if envoy_what e \<noteq> None then finish ErrorReply cn else (Inl e, cn))"

section \<open>Streams\<close>

definition newActiveStream :: "u64 \<Rightarrow> ('c, 'x, 'f) conn \<Rightarrow> ('c, 'x, 'f) conn" where
  "newActiveStream sid cn = cn\<lparr>cn_streams := map_assign sid new_stream (cn_streams cn)\<rparr>"

definition getActiveStream :: "u64 \<Rightarrow> ('c, 'x, 'f) conn \<Rightarrow> stream res" where
  "getActiveStream sid cn =
     (case map_find (cn_streams cn) sid of
        Some s \<Rightarrow> Inr s
      | None \<Rightarrow> Inl (Undefined ''stream not found''))"

definition streamExisted :: "u64 \<Rightarrow> ('c, 'x, 'f) conn \<Rightarrow> bool" where
  "streamExisted sid cn \<longleftrightarrow> map_find (cn_streams cn) sid \<noteq> None"

definition closeStream :: "u64 \<Rightarrow> ('c, 'x, 'f) conn \<Rightarrow> ('c, 'x, 'f) conn" where
  "closeStream sid cn = cn\<lparr>cn_streams := map_erase sid (cn_streams cn)\<rparr>"

definition clearStream :: "('c, 'x, 'f) conn \<Rightarrow> ('c, 'x, 'f) conn" where
  "clearStream cn = cn\<lparr>cn_streams := []\<rparr>"

definition put_stream :: "u64 \<Rightarrow> stream \<Rightarrow> ('c, 'x, 'f) conn \<Rightarrow> ('c, 'x, 'f) conn" where
  "put_stream sid s cn = cn\<lparr>cn_streams := map_assign sid s (cn_streams cn)\<rparr>"

definition closeClientStream :: "stream \<Rightarrow> stream" where
  "closeClientStream s = s\<lparr>st_client_closed := True\<rparr>"

definition closeServerStream :: "stream \<Rightarrow> stream" where
  "closeServerStream s = s\<lparr>st_server_closed := True\<rparr>"

text \<open>The second component is what is left of the data.\<close>

definition send2upstream :: "buffer \<Rightarrow> stream \<Rightarrow> stream \<times> buffer" where
  "send2upstream data s =
     (case st_upstream_conn s of
        Some w \<Rightarrow> (s\<lparr>st_upstream_conn := Some (w @ [data])\<rparr>, [])
      | None \<Rightarrow> (s, data))"

definition setUpstreamConn :: "stream \<Rightarrow> stream" where
  "setUpstreamConn s = s\<lparr>st_upstream_conn := Some []\<rparr>"

text \<open>
  \<^verbatim>\<open>Stream::send2downstream\<close>: decodes the data of the upstream connection with the codec
  of the connection and forwards each frame.  \<^verbatim>\<open>clear\<close> erases the stream from the table,
  which destroys it; the loop then goes on with the destroyed object when there is more data.  None
  is a loop that never ends.
\<close>

definition stream_frame :: "'x metadata \<Rightarrow> stream \<Rightarrow> stream" where
  "stream_frame md s =
     (if md_message_type md = Stream_Close_One_Way then closeServerStream s
      else if md_message_type md = Stream_Close_Two_Way then closeServerStream (closeClientStream s)
      else s)"

partial_function (option) send2downstream ::
  "('c, 'x) codec \<Rightarrow> u64 \<Rightarrow> buffer \<Rightarrow> bool \<Rightarrow> 'c \<Rightarrow> ('c, 'x, 'f) conn
   \<Rightarrow> ((buffer \<times> 'c) res \<times> ('c, 'x, 'f) conn) option" where
  "send2downstream co sid data end_stream c cn =
     (if data = [] then Some (Inr ([], c), cn)
      else case map_find (cn_streams cn) sid of
        None \<Rightarrow> Some (Inl (Undefined ''stream destroyed''), cn)
      | Some s \<Rightarrow>
          (case co_decode co c data (new_metadata\<lparr>md_message_type := Response\<rparr>) of
             Inl e \<Rightarrow> Some (Inl e, cn)
           | Inr (status, c', data', md) \<Rightarrow>
               if status = WaitForData then Some (Inr (data', c'), cn)
               else
                 let cn1 = conn_write (md_origin_message md) end_stream cn;
                     s1 = stream_frame md s
                 in if end_stream \<or> st_server_closed s1 then
                      (if st_upstream_conn s1 = None
                       then Some (Inl (Undefined ''upstream_conn_data_ is null''), cn1)
                       else send2downstream co sid data' end_stream c' (closeStream sid cn1))
                    else send2downstream co sid data' end_stream c' (put_stream sid s1 cn1)))"

section \<open>The idle timer\<close>

definition resetIdleTimer :: "('c, 'x, 'f) conn \<Rightarrow> ('c, 'x, 'f) conn" where
  "resetIdleTimer cn = (case cn_idle_timer cn of
     None \<Rightarrow> cn | Some _ \<Rightarrow> cn\<lparr>cn_idle_timer := Some True\<rparr>)"

definition disableIdleTimer :: "('c, 'x, 'f) conn \<Rightarrow> ('c, 'x, 'f) conn" where
  "disableIdleTimer cn = cn\<lparr>cn_idle_timer := None\<rparr>"

definition onIdleTimeout :: "('c, 'x, 'f) conn \<Rightarrow> ('c, 'x, 'f) conn" where
  "onIdleTimeout cn =
     conn_close NoFlush (clearStream (resetAllMessages True (inc idle_timeout cn)))"

end
