(* ===== verification/Active_Message.thy ===== *)
theory Active_Message
  imports Connection
begin

text \<open>
  A message on its way through the proxy: \<^verbatim>\<open>active_message.cc\<close>.  The operations work on
  the connection and the number of the message.
\<close>

section \<open>Access to the message\<close>

definition the_message ::
  "nat \<Rightarrow> (('c, 'x, 'f) message \<Rightarrow> ('c, 'x, 'f) conn \<Rightarrow> 'a res \<times> ('c, 'x, 'f) conn)
   \<Rightarrow> ('c, 'x, 'f) conn \<Rightarrow> 'a res \<times> ('c, 'x, 'f) conn" where
  "the_message i f cn =
     (case get_message i cn of
        None \<Rightarrow> (Inl (Undefined ''message destroyed''), cn)
      | Some m \<Rightarrow> f m cn)"

definition the_metadata ::
  "nat \<Rightarrow> ('x metadata \<Rightarrow> ('c, 'x, 'f) conn \<Rightarrow> 'a res \<times> ('c, 'x, 'f) conn)
   \<Rightarrow> ('c, 'x, 'f) conn \<Rightarrow> 'a res \<times> ('c, 'x, 'f) conn" where
  "the_metadata i f = the_message i (\<lambda>m cn.
     case am_metadata m of
       None \<Rightarrow> (Inl (Undefined ''metadata_ is null''), cn)
     | Some md \<Rightarrow> f md cn)"

definition am_requestId :: "('c, 'x, 'f) message \<Rightarrow> u64" where
  "am_requestId m = (case am_metadata m of Some md \<Rightarrow> md_request_id md | None \<Rightarrow> 0)"

definition rd_requestId :: "('c, 'x) response_decoder \<Rightarrow> u64" where
  "rd_requestId rd = (case rd_metadata rd of Some md \<Rightarrow> md_request_id md | None \<Rightarrow> 0)"

section \<open>Construction and destruction\<close>

definition new_message :: "('c, 'x, 'f) message" where
  "new_message = \<lparr>am_metadata = None, am_response_decoder = None, am_filters = [],
     am_decoder_filters = [], am_encoder_filters = [], am_filter_action = None,
     am_encoder_filter_action = None, am_bytes_sent = 0, am_bytes_received = 0,
     am_pending_stream_decoded = False, am_local_response_sent = False\<rparr>"

definition addDecoderFilter :: "'f \<Rightarrow> ('c, 'x, 'f) message \<Rightarrow> ('c, 'x, 'f) message" where
  "addDecoderFilter f m = m\<lparr>am_filters := am_filters m @ [f],
     am_decoder_filters := am_decoder_filters m @ [(length (am_filters m), False)]\<rparr>"

definition addEncoderFilter :: "'f \<Rightarrow> ('c, 'x, 'f) message \<Rightarrow> ('c, 'x, 'f) message" where
  "addEncoderFilter f m = m\<lparr>am_filters := am_filters m @ [f],
     am_encoder_filters := am_encoder_filters m @ [(length (am_filters m), False)]\<rparr>"

definition addFilter :: "'f \<Rightarrow> ('c, 'x, 'f) message \<Rightarrow> ('c, 'x, 'f) message" where
  "addFilter f m = m\<lparr>am_filters := am_filters m @ [f],
     am_decoder_filters := am_decoder_filters m @ [(length (am_filters m), True)],
     am_encoder_filters := am_encoder_filters m @ [(length (am_filters m), True)]\<rparr>"

definition add_kind :: "filter_kind \<times> 'f \<Rightarrow> ('c, 'x, 'f) message \<Rightarrow> ('c, 'x, 'f) message" where
  "add_kind kf m = (case kf of
     (DecoderKind, f) \<Rightarrow> addDecoderFilter f m
   | (EncoderKind, f) \<Rightarrow> addEncoderFilter f m
   | (CodecKind, f) \<Rightarrow> addFilter f m)"

definition createFilterChain ::
  "('c, 'x, 'f) config \<Rightarrow> ('c, 'x, 'f) message \<Rightarrow> ('c, 'x, 'f) message" where
  "createFilterChain cfg m = foldl (\<lambda>m' kf. add_kind kf m') m (cf_filterFactories cfg)"

text \<open>The destructor: the filters whose \<^verbatim>\<open>onDestroy\<close> it calls, in order.\<close>

definition destroyed_filters :: "('c, 'x, 'f) message \<Rightarrow> nat list" where
  "destroyed_filters m = map fst (am_decoder_filters m)
     @ map fst (filter (\<lambda>jd. \<not> snd jd) (am_encoder_filters m))"

text \<open>The dispatcher empties its list of deferred objects.\<close>

definition destroy_message ::
  "('c, 'x, 'f) config \<Rightarrow> nat \<times> ('c, 'x, 'f) message \<Rightarrow> ('c, 'x) net \<Rightarrow> ('c, 'x) net" where
  "destroy_message cfg im nt =
     foldl (\<lambda>nt' j. ff_onDestroy (cf_filters cfg) (fst im) (am_filters (snd im) ! j) nt') nt
       (destroyed_filters (snd im))"

definition clearDeferred :: "('c, 'x, 'f) config \<Rightarrow> ('c, 'x, 'f) conn \<Rightarrow> ('c, 'x, 'f) conn" where
  "clearDeferred cfg cn = cn\<lparr>cn_deferred := [],
     cn_net := foldl (\<lambda>nt im. destroy_message cfg im nt) (cn_net cn) (cn_deferred cn),
     cn_stats := foldl (\<lambda>st _. stat_dec request_active st) (cn_stats cn) (cn_deferred cn)\<rparr>"

section \<open>Callbacks of the filters\<close>

definition am_sendLocalReply ::
  "('c, 'x, 'f) config \<Rightarrow> nat \<Rightarrow> error \<Rightarrow> bool \<Rightarrow> ('c, 'x, 'f) conn
   \<Rightarrow> unit res \<times> ('c, 'x, 'f) conn" where
  "am_sendLocalReply cfg i err end_stream = the_metadata i (\<lambda>md cn.
     bindS (cm_sendLocalReply cfg md err end_stream cn) (\<lambda>_ cn1.
       if end_stream then (Inr (), cn1)
       else (Inr (), upd_message i (\<lambda>m. m\<lparr>am_local_response_sent := True\<rparr>) cn1)))"

definition new_response_decoder :: "'c \<Rightarrow> ('c, 'x) response_decoder" where
  "new_response_decoder c = \<lparr>rd_decoder = new_decoder c Response, rd_metadata = None,
     rd_complete = False, rd_response_status = UR_MoreData\<rparr>"

definition am_startUpstreamResponse ::
  "('c, 'x, 'f) config \<Rightarrow> nat \<Rightarrow> ('c, 'x, 'f) conn \<Rightarrow> ('c, 'x, 'f) conn" where
  "am_startUpstreamResponse cfg i = upd_message i (\<lambda>m.
     m\<lparr>am_response_decoder := Some (new_response_decoder (co_new (cf_codec cfg)))\<rparr>)"

definition am_setUpstreamConnection ::
  "nat \<Rightarrow> ('c, 'x, 'f) conn \<Rightarrow> unit res \<times> ('c, 'x, 'f) conn" where
  "am_setUpstreamConnection i = the_metadata i (\<lambda>md cn.
     case getActiveStream (md_stream_id md) cn of
       Inl e \<Rightarrow> (Inl e, cn)
     | Inr s \<Rightarrow> (Inr (), put_stream (md_stream_id md) (setUpstreamConn s) cn))"

definition filter_callback ::
  "('c, 'x, 'f) config \<Rightarrow> nat \<Rightarrow> filter_call \<Rightarrow> ('c, 'x, 'f) conn \<Rightarrow> unit res \<times> ('c, 'x, 'f) conn" where
  "filter_callback cfg i call cn = (case call of
     Call_sendLocalReply err end_stream \<Rightarrow> am_sendLocalReply cfg i err end_stream cn
   | Call_startUpstreamResponse \<Rightarrow> (Inr (), am_startUpstreamResponse cfg i cn)
   | Call_resetDownstreamConnection \<Rightarrow> (Inr (), conn_close NoFlush cn)
   | Call_resetStream \<Rightarrow> (Inr (), deferredDeleteMessage i cn)
   | Call_setUpstreamConnection \<Rightarrow> am_setUpstreamConnection i cn
   | Call_onUpstreamResponse \<Rightarrow> (Inr (), deferredDeleteMessage i cn))"

fun filter_callbacks ::
  "('c, 'x, 'f) config \<Rightarrow> nat \<Rightarrow> filter_call list \<Rightarrow> ('c, 'x, 'f) conn \<Rightarrow> unit res \<times> ('c, 'x, 'f) conn" where
  "filter_callbacks cfg i [] cn = (Inr (), cn)"
| "filter_callbacks cfg i (c # cs) cn =
     bindS (filter_callback cfg i c cn) (\<lambda>_. filter_callbacks cfg i cs)"

section \<open>Running a filter chain\<close>

datatype start_state = AlwaysStartFromNext | CanStartFromCurrent

text \<open>\<^verbatim>\<open>commonDecodePrefix\<close> and \<^verbatim>\<open>commonEncodePrefix\<close>: the entries that are
  run; \<^verbatim>\<open>Some k\<close> is the filter at position k.\<close>

definition commonPrefix :: "nat option \<Rightarrow> start_state \<Rightarrow> 'e list \<Rightarrow> 'e list" where
  "commonPrefix filt st entries = (case filt of
     None \<Rightarrow> entries
   | Some k \<Rightarrow> if st = CanStartFromCurrent then drop k entries else drop (Suc k) entries)"

text \<open>\<^verbatim>\<open>filter_action_(filter)\<close>: the filter sees the metadata and the mutation and
  leaves them changed.\<close>

definition run_decoder_filter ::
  "('c, 'x, 'f) config \<Rightarrow> nat \<Rightarrow> nat \<Rightarrow> ('c, 'x, 'f) conn \<Rightarrow> filter_status res \<times> ('c, 'x, 'f) conn" where
  "run_decoder_filter cfg i j = the_message i (\<lambda>m cn.
     case (am_filter_action m, am_metadata m) of
       (Some mut, Some md) \<Rightarrow>
         let fo = ff_onMessageDecoded (cf_filters cfg) i (am_filters m ! j) (cn_shared cn) (cn_net cn) md mut;
             cn1 = (upd_message i (\<lambda>m'. m'\<lparr>am_filters := (am_filters m')[j := fo_filter fo],
                      am_metadata := Some (fo_metadata fo),
                      am_filter_action := Some (fo_mutation fo)\<rparr>) cn)
                   \<lparr>cn_shared := fo_shared fo, cn_net := fo_net fo\<rparr>
         in bindS (filter_callbacks cfg i (fo_calls fo) cn1) (\<lambda>_ cn2. (fo_status fo, cn2))
     | _ \<Rightarrow> (Inl (Undefined ''filter_action_ is empty''), cn))"

definition local_response_sent :: "nat \<Rightarrow> ('c, 'x, 'f) conn \<Rightarrow> bool" where
  "local_response_sent i cn =
     (case get_message i cn of Some m \<Rightarrow> am_local_response_sent m | None \<Rightarrow> False)"

fun decoder_chain ::
  "('c, 'x, 'f) config \<Rightarrow> nat \<Rightarrow> (nat \<times> bool) list \<Rightarrow> ('c, 'x, 'f) conn
   \<Rightarrow> filter_status res \<times> ('c, 'x, 'f) conn" where
  "decoder_chain cfg i [] cn =
     (Inr ContinueIteration, upd_message i (\<lambda>m. m\<lparr>am_filter_action := None\<rparr>) cn)"
| "decoder_chain cfg i (e # es) cn =
     bindS (run_decoder_filter cfg i (fst e) cn) (\<lambda>status cn1.
       if local_response_sent i cn1 then
         (Inr ContinueIteration, upd_message i (\<lambda>m. m\<lparr>am_filter_action := None\<rparr>) cn1)
       else if status \<noteq> ContinueIteration then (Inr status, cn1)
       else decoder_chain cfg i es cn1)"

definition applyDecoderFilters ::
  "('c, 'x, 'f) config \<Rightarrow> nat \<Rightarrow> nat option \<Rightarrow> start_state \<Rightarrow> ('c, 'x, 'f) conn
   \<Rightarrow> filter_status res \<times> ('c, 'x, 'f) conn" where
  "applyDecoderFilters cfg i filt st = the_message i (\<lambda>m cn.
     decoder_chain cfg i
       (if am_local_response_sent m then [] else commonPrefix filt st (am_decoder_filters m)) cn)"

text \<open>The encoder chain works on the metadata of the response, which the response decoder
  holds.\<close>

definition run_encoder_filter ::
  "('c, 'x, 'f) config \<Rightarrow> nat \<Rightarrow> nat \<Rightarrow> ('c, 'x, 'f) conn \<Rightarrow> filter_status res \<times> ('c, 'x, 'f) conn" where
  "run_encoder_filter cfg i j = the_message i (\<lambda>m cn.
     case (am_encoder_filter_action m, am_response_decoder m) of
       (Some mut, Some rd) \<Rightarrow>
         (case rd_metadata rd of
            None \<Rightarrow> (Inl (Undefined ''metadata_ is null''), cn)
          | Some md \<Rightarrow>
              let fo = ff_onMessageEncoded (cf_filters cfg) i (am_filters m ! j) (cn_shared cn) (cn_net cn)
                         md mut;
                  cn1 = (upd_message i (\<lambda>m'. m'\<lparr>am_filters := (am_filters m')[j := fo_filter fo],
                           am_response_decoder := Some (rd\<lparr>rd_metadata := Some (fo_metadata fo)\<rparr>),
                           am_encoder_filter_action := Some (fo_mutation fo)\<rparr>) cn)
                        \<lparr>cn_shared := fo_shared fo, cn_net := fo_net fo\<rparr>
              in bindS (filter_callbacks cfg i (fo_calls fo) cn1) (\<lambda>_ cn2. (fo_status fo, cn2)))
     | _ \<Rightarrow> (Inl (Undefined ''encoder_filter_action_ is empty''), cn))"

text \<open>The mutation is shared with the caller, who reads it after the chain has run: it is
  returned with the status.\<close>

definition the_encoder_mutation :: "nat \<Rightarrow> ('c, 'x, 'f) conn \<Rightarrow> mutation" where
  "the_encoder_mutation i cn =
     (case get_message i cn of
        Some m \<Rightarrow> (case am_encoder_filter_action m of Some mut \<Rightarrow> mut | None \<Rightarrow> [])
      | None \<Rightarrow> [])"

fun encoder_chain ::
  "('c, 'x, 'f) config \<Rightarrow> nat \<Rightarrow> (nat \<times> bool) list \<Rightarrow> ('c, 'x, 'f) conn
   \<Rightarrow> (filter_status \<times> mutation) res \<times> ('c, 'x, 'f) conn" where
  "encoder_chain cfg i [] cn =
     (Inr (ContinueIteration, the_encoder_mutation i cn),
      upd_message i (\<lambda>m. m\<lparr>am_encoder_filter_action := None\<rparr>) cn)"
| "encoder_chain cfg i (e # es) cn =
     bindS (run_encoder_filter cfg i (fst e) cn) (\<lambda>status cn1.
       if local_response_sent i cn1 then
         (Inr (ContinueIteration, the_encoder_mutation i cn1),
          upd_message i (\<lambda>m. m\<lparr>am_encoder_filter_action := None\<rparr>) cn1)
       else if status \<noteq> ContinueIteration then (Inr (status, the_encoder_mutation i cn1), cn1)
       else encoder_chain cfg i es cn1)"

definition applyEncoderFilters ::
  "('c, 'x, 'f) config \<Rightarrow> nat \<Rightarrow> nat option \<Rightarrow> start_state \<Rightarrow> ('c, 'x, 'f) conn
   \<Rightarrow> (filter_status \<times> mutation) res \<times> ('c, 'x, 'f) conn" where
  "applyEncoderFilters cfg i filt st = the_message i (\<lambda>m cn.
     encoder_chain cfg i
       (if am_local_response_sent m then [] else commonPrefix filt st (am_encoder_filters m)) cn)"

section \<open>Requests\<close>

definition request_stats :: "message_type \<Rightarrow> stats \<Rightarrow> stats" where
  "request_stats mt st = (case mt of
     Request \<Rightarrow> stat_inc request_twoway st
   | Oneway \<Rightarrow> stat_inc request_oneway st
   | Stream_Init \<Rightarrow> stat_inc request_event st
   | _ \<Rightarrow> st)"

definition is_one_way :: "message_type \<Rightarrow> bool" where
  "is_one_way mt \<longleftrightarrow> mt \<in> {Oneway, Stream_Init, Stream_Data, Stream_Close_One_Way, Stream_Close_Two_Way}"

definition maybeDeferredDeleteMessage ::
  "nat \<Rightarrow> ('c, 'x, 'f) conn \<Rightarrow> unit res \<times> ('c, 'x, 'f) conn" where
  "maybeDeferredDeleteMessage i = the_metadata i (\<lambda>md cn.
     let cn1 = (upd_message i (\<lambda>m. m\<lparr>am_pending_stream_decoded := False\<rparr>) cn)
               \<lparr>cn_stats := request_stats (md_message_type md) (stat_inc request (cn_stats cn))\<rparr>
     in if local_response_sent i cn1 \<or> is_one_way (md_message_type md)
        then (Inr (), deferredDeleteMessage i cn1) else (Inr (), cn1))"

text \<open>What a message inside a stream does to the stream.\<close>

definition stream_message :: "message_type \<Rightarrow> stream \<Rightarrow> stream" where
  "stream_message mt s =
     (if mt = Stream_Close_One_Way then closeClientStream s
      else if mt = Stream_Close_Two_Way then closeServerStream (closeClientStream s)
      else s)"

text \<open>The switch of \<^verbatim>\<open>onMessageDecoded\<close>: whether the filters are applied.\<close>

definition stream_switch ::
  "'x metadata \<Rightarrow> ('c, 'x, 'f) conn \<Rightarrow> bool \<times> 'x metadata \<times> ('c, 'x, 'f) conn" where
  "stream_switch md cn =
     (if md_message_type md = Request then (True, md, cn)
      else if md_message_type md = Stream_Init then (True, md, newActiveStream (md_stream_id md) cn)
      else if md_message_type md \<in> {Stream_Data, Stream_Close_One_Way, Stream_Close_Two_Way} then
        (case map_find (cn_streams cn) (md_stream_id md) of
           Some s \<Rightarrow>
             (case send2upstream (md_origin_message md) (stream_message (md_message_type md) s) of
                (s', rest) \<Rightarrow> (False, md\<lparr>md_origin_message := rest\<rparr>, put_stream (md_stream_id md) s' cn))
         | None \<Rightarrow> (False, md, cn))
      else (False, md, cn))"

definition am_onMessageDecoded ::
  "('c, 'x, 'f) config \<Rightarrow> nat \<Rightarrow> 'x metadata \<Rightarrow> mutation \<Rightarrow> ('c, 'x, 'f) conn
   \<Rightarrow> unit res \<times> ('c, 'x, 'f) conn" where
  "am_onMessageDecoded cfg i md mut cn =
     (let cn1 = upd_message i (\<lambda>m. m\<lparr>am_bytes_sent := am_bytes_sent m + getMessageSize md\<rparr>)
                  (inc request_decoding_success cn);
          md1 = putString ApplicationProtocol (cf_applicationProtocol cfg) md
      in case stream_switch md1 cn1 of (needApplyFilters, md2, cn2) \<Rightarrow>
        let cn3 = upd_message i (\<lambda>m. m\<lparr>am_metadata := Some md2\<rparr>) cn2
        in if needApplyFilters then
             bindS (applyDecoderFilters cfg i None CanStartFromCurrent
                      (upd_message i (\<lambda>m. m\<lparr>am_filter_action := Some mut\<rparr>) cn3)) (\<lambda>status cn4.
               case status of
                 PauseIteration \<Rightarrow>
                   (Inr (), upd_message i (\<lambda>m. m\<lparr>am_pending_stream_decoded := True\<rparr>) cn4)
               | AbortIteration \<Rightarrow> (Inr (), deferredDeleteMessage i cn4)
               | ContinueIteration \<Rightarrow> maybeDeferredDeleteMessage i cn4
               | Retry \<Rightarrow> (Inl (Panic ''invalid filter status''), cn4))
           else maybeDeferredDeleteMessage i cn3)"

text \<open>\<^verbatim>\<open>continueDecoding\<close> of the decoder filter at position k.\<close>

definition continue_state :: "'x metadata \<Rightarrow> start_state" where
  "continue_state md = (if length (md_origin_message md) \<noteq> 0 then CanStartFromCurrent
     else AlwaysStartFromNext)"

definition continueDecoding ::
  "('c, 'x, 'f) config \<Rightarrow> nat \<Rightarrow> nat \<Rightarrow> ('c, 'x, 'f) conn \<Rightarrow> unit res \<times> ('c, 'x, 'f) conn" where
  "continueDecoding cfg i k = the_metadata i (\<lambda>md cn.
     bindS (applyDecoderFilters cfg i (Some k) (continue_state md) cn) (\<lambda>status.
       the_message i (\<lambda>m cn1.
         if status = ContinueIteration \<and> am_pending_stream_decoded m
         then maybeDeferredDeleteMessage i cn1 else (Inr (), cn1))))"

definition continueEncoding ::
  "('c, 'x, 'f) config \<Rightarrow> nat \<Rightarrow> nat \<Rightarrow> ('c, 'x, 'f) conn \<Rightarrow> unit res \<times> ('c, 'x, 'f) conn" where
  "continueEncoding cfg i k = the_metadata i (\<lambda>md cn.
     bindS (applyEncoderFilters cfg i (Some k) (continue_state md) cn) (\<lambda>_ cn1. (Inr (), cn1)))"

definition onReset :: "nat \<Rightarrow> ('c, 'x, 'f) conn \<Rightarrow> ('c, 'x, 'f) conn" where
  "onReset = deferredDeleteMessage"

definition am_onError ::
  "('c, 'x, 'f) config \<Rightarrow> nat \<Rightarrow> string \<Rightarrow> ('c, 'x, 'f) conn \<Rightarrow> unit res \<times> ('c, 'x, 'f) conn" where
  "am_onError cfg i what cn =
     (let cn1 = upd_message i (\<lambda>m. if am_metadata m = None
                  then m\<lparr>am_metadata := Some new_metadata\<rparr> else m) cn
      in bindS (am_sendLocalReply cfg i (Error BadResponse what) False cn1) (\<lambda>_ cn2.
           (Inr (), deferredDeleteMessage i cn2)))"

section \<open>Responses\<close>

definition upd_response ::
  "nat \<Rightarrow> (('c, 'x) response_decoder \<Rightarrow> ('c, 'x) response_decoder) \<Rightarrow> ('c, 'x, 'f) conn
   \<Rightarrow> ('c, 'x, 'f) conn" where
  "upd_response i f = upd_message i (\<lambda>m. m\<lparr>am_response_decoder := map_option f (am_response_decoder m)\<rparr>)"

text \<open>
  \<^verbatim>\<open>applyMessageEncodedFilters\<close>.  On \<^verbatim>\<open>Retry\<close> it resets the decoder whose state
  machine is calling it: the machine is destroyed while it runs.
\<close>

definition applyMessageEncodedFilters ::
  "('c, 'x, 'f) config \<Rightarrow> nat \<Rightarrow> mutation \<Rightarrow> ('c, 'x, 'f) conn
   \<Rightarrow> (filter_status \<times> mutation) res \<times> ('c, 'x, 'f) conn" where
  "applyMessageEncodedFilters cfg i mut cn =
     bindS (applyEncoderFilters cfg i None CanStartFromCurrent
              (upd_message i (\<lambda>m. m\<lparr>am_encoder_filter_action := Some mut\<rparr>) cn)) (\<lambda>sm cn1.
       if fst sm = Retry then
         (Inl (Undefined ''decoder state machine destroyed while it runs''),
          upd_response i (\<lambda>rd. rd\<lparr>rd_response_status := UR_Retry\<rparr>) cn1)
       else (Inr sm, cn1))"

definition response_stats :: "'x metadata \<Rightarrow> stats \<Rightarrow> stats" where
  "response_stats md st =
     (let st1 = stat_inc response_decoding_success (stat_inc response st);
          st2 = (if md_message_type md = MT_Error then stat_inc response_business_exception st1 else st1)
      in stat_inc (if md_response_status md = RS_Ok then response_success else response_error) st2)"

definition forward_response ::
  "('c, 'x, 'f) config \<Rightarrow> nat \<Rightarrow> mutation \<Rightarrow> ('c, 'x, 'f) conn \<Rightarrow> unit res \<times> ('c, 'x, 'f) conn" where
  "forward_response cfg i mut = the_metadata i (\<lambda>rq. the_message i (\<lambda>m cn.
     if cn_state cn \<noteq> Open then
       (Inl (DownstreamConnectionClose ''Downstream has closed or closing''), cn)
     else case am_response_decoder m of
       None \<Rightarrow> (Inl (Undefined ''response_decoder_ is null''), cn)
     | Some rd \<Rightarrow>
         (case (rd_metadata rd, getString RealServerAddress rq) of
            (None, _) \<Rightarrow> (Inl (Undefined ''metadata_ is null''), cn)
          | (_, Inl e) \<Rightarrow> (Inl e, cn)
          | (Some md, Inr addr) \<Rightarrow>
              let md1 = putString RealServerAddress addr md in
              (case co_encode (cf_codec cfg) md1 mut (md_origin_message md1) of
                 Inl e \<Rightarrow> (Inl e, upd_response i (\<lambda>rd. rd\<lparr>rd_metadata := Some md1\<rparr>) cn)
               | Inr (b, md2) \<Rightarrow>
                   let cn1 = conn_write b False (upd_response i (\<lambda>rd. rd\<lparr>rd_complete := True,
                         rd_response_status := UR_Complete,
                         rd_metadata := Some (md2\<lparr>md_origin_message := []\<rparr>)\<rparr>) cn)
                   in (Inr (), cn1\<lparr>cn_stats := response_stats md2 (cn_stats cn1)\<rparr>)))))"

definition rd_onMessageDecoded ::
  "('c, 'x, 'f) config \<Rightarrow> nat \<Rightarrow> 'x metadata \<Rightarrow> mutation \<Rightarrow> ('c, 'x, 'f) conn
   \<Rightarrow> unit res \<times> ('c, 'x, 'f) conn" where
  "rd_onMessageDecoded cfg i md mut cn =
     (let cn1 = upd_response i (\<lambda>rd. rd\<lparr>rd_metadata := Some md\<rparr>)
                  (upd_message i (\<lambda>m. m\<lparr>am_bytes_received := am_bytes_received m + getMessageSize md\<rparr>) cn)
      in bindS (applyMessageEncodedFilters cfg i mut cn1) (\<lambda>(status, mut') cn2.
           if status \<noteq> ContinueIteration then
             (Inr (), upd_response i (\<lambda>rd. rd\<lparr>rd_response_status := UR_Complete\<rparr>) cn2)
           else forward_response cfg i mut' cn2))"

definition response_callbacks ::
  "('c, 'x, 'f) config \<Rightarrow> nat \<Rightarrow> (('c, 'x, 'f) conn, unit, 'x) callbacks" where
  "response_callbacks cfg i = \<lparr>cb_newMessageHandler = (\<lambda>cn. ((), cn)),
     cb_onMessageDecoded = (\<lambda>_. rd_onMessageDecoded cfg i),
     cb_onHeartbeat = (\<lambda>_ cn. (Inr True, cn))\<rparr>"

text \<open>\<^verbatim>\<open>ActiveResponseDecoder::onData\<close>: the status and what is left of the data.\<close>

definition rd_onData ::
  "('c, 'x, 'f) config \<Rightarrow> nat \<Rightarrow> buffer \<Rightarrow> ('c, 'x, 'f) conn
   \<Rightarrow> (upstream_response_status \<times> buffer) res \<times> ('c, 'x, 'f) conn" where
  "rd_onData cfg i data = the_message i (\<lambda>m cn.
     case am_response_decoder m of
       None \<Rightarrow> (Inl (Undefined ''response_decoder_ is null''), cn)
     | Some rd \<Rightarrow>
         bindS (onData (co_decode (cf_codec cfg)) (response_callbacks cfg i) (rd_decoder rd) data cn)
           (\<lambda>(_, d, data'). the_message i (\<lambda>m' cn1.
              case am_response_decoder m' of
                None \<Rightarrow> (Inl (Undefined ''response_decoder_ is null''), cn1)
              | Some rd' \<Rightarrow>
                  (Inr (rd_response_status rd', data'), upd_response i (\<lambda>r. r\<lparr>rd_decoder := d\<rparr>) cn1))))"

definition id_mismatch :: "('c, 'x, 'f) config \<Rightarrow> u64 \<Rightarrow> u64 \<Rightarrow> exn" where
  "id_mismatch cfg rq rp = EnvoyException (''meta protocol '' @ cf_applicationProtocol cfg
     @ '' response: request ID is not equal, '' @ show_nat (unat rq) @ '':'' @ show_nat (unat rp))"

definition upstreamData_try ::
  "('c, 'x, 'f) config \<Rightarrow> nat \<Rightarrow> buffer \<Rightarrow> ('c, 'x, 'f) conn
   \<Rightarrow> (upstream_response_status \<times> buffer) res \<times> ('c, 'x, 'f) conn" where
  "upstreamData_try cfg i data cn =
     bindS (rd_onData cfg i data cn) (\<lambda>(status, data'). the_message i (\<lambda>m cn1.
       case am_response_decoder m of
         None \<Rightarrow> (Inl (Undefined ''response_decoder_ is null''), cn1)
       | Some rd \<Rightarrow>
           if status = UR_Complete then
             (if am_requestId m \<noteq> rd_requestId rd
              then (Inl (id_mismatch cfg (am_requestId m) (rd_requestId rd)), cn1)
              else (Inr (status, data'), deferredDeleteMessage i cn1))
           else if status = UR_Retry then
             (Inr (status, data'), upd_message i (\<lambda>m. m\<lparr>am_response_decoder := None\<rparr>) cn1)
           else (Inr (status, data'), cn1)))"

text \<open>\<^verbatim>\<open>upstreamData\<close>; after \<^verbatim>\<open>Reset\<close> the caller closes the upstream
  connection and the rest of the data is not used.\<close>

definition am_upstreamData ::
  "('c, 'x, 'f) config \<Rightarrow> nat \<Rightarrow> buffer \<Rightarrow> ('c, 'x, 'f) conn
   \<Rightarrow> (upstream_response_status \<times> buffer) res \<times> ('c, 'x, 'f) conn" where
  "am_upstreamData cfg i data cn =
     (case upstreamData_try cfg i data cn of
        (Inr r, cn1) \<Rightarrow> (Inr r, cn1)
      | (Inl (DownstreamConnectionClose w), cn1) \<Rightarrow>
          (Inr (UR_Reset, []), inc response_error_caused_connection_close (onReset i cn1))
      | (Inl (EnvoyException w), cn1) \<Rightarrow>
          bindS (am_onError cfg i w (inc response_decoding_error cn1)) (\<lambda>_ cn2.
            (Inr (UR_Reset, []), cn2))
      | (Inl e, cn1) \<Rightarrow> (Inl e, cn1))"

end
