(* ===== verification/Conn_Manager.thy ===== *)
theory Conn_Manager
  imports Active_Message
begin

text \<open>
  The connection manager, \<^verbatim>\<open>conn_manager.cc\<close>: it reads the downstream connection, drives
  the decoder, creates the messages and reacts to the events of the connection.  The events of a
  connection are the datatype \<^verbatim>\<open>event\<close>, their handlers the function
  \<^verbatim>\<open>handle\<close>, and the states a connection can reach the predicate
  \<^verbatim>\<open>reachable\<close>.
\<close>

section \<open>Callbacks of the decoder\<close>

definition newMessageHandler ::
  "('c, 'x, 'f) config \<Rightarrow> ('c, 'x, 'f) conn \<Rightarrow> nat \<times> ('c, 'x, 'f) conn" where
  "newMessageHandler cfg cn =
     (let i = cn_next cn in
      (i, inc request_active (cn\<lparr>cn_next := Suc i,
            cn_messages := (i, createFilterChain cfg new_message) # cn_messages cn\<rparr>)))"

definition onHeartbeat ::
  "('c, 'x, 'f) config \<Rightarrow> 'x metadata \<Rightarrow> ('c, 'x, 'f) conn \<Rightarrow> bool res \<times> ('c, 'x, 'f) conn" where
  "onHeartbeat cfg md cn =
     (let cn1 = inc request_event cn in
      if cn_state cn1 \<noteq> Open then (Inr False, cn1)
      else case HeartbeatResponse_encode (cf_codec cfg) md of
        Inl e \<Rightarrow> (Inl e, cn1)
      | Inr (_, response_buffer) \<Rightarrow> (Inr False, conn_write response_buffer False cn1))"

definition request_callbacks ::
  "('c, 'x, 'f) config \<Rightarrow> (('c, 'x, 'f) conn, nat, 'x) callbacks" where
  "request_callbacks cfg = \<lparr>cb_newMessageHandler = newMessageHandler cfg,
     cb_onMessageDecoded = am_onMessageDecoded cfg, cb_onHeartbeat = onHeartbeat cfg\<rparr>"

section \<open>Reading\<close>

text \<open>
  \<^verbatim>\<open>cm_reader\<close> is the decoder and the bytes not yet decoded; None once an exception ended
  a call of the decoder, after which the connection is closed and nothing is read from it.
\<close>

record ('c, 'x, 'f) cm =
  cm_reader :: "(('c, nat, 'x) decoder \<times> buffer) option"
  cm_conn :: "('c, 'x, 'f) conn"

definition new_cm :: "('c, 'x, 'f) config \<Rightarrow> 'f \<Rightarrow> ('c, 'x) net \<Rightarrow> ('c, 'x, 'f) cm" where
  "new_cm cfg g nt = \<lparr>cm_reader = Some (new_decoder (co_new (cf_codec cfg)) Request, []),
     cm_conn = new_conn g nt\<rparr>"

definition dispatch ::
  "('c, 'x, 'f) config \<Rightarrow> ('c, 'x, 'f) cm \<Rightarrow> (unit res \<times> ('c, 'x, 'f) cm) option" where
  "dispatch cfg cm =
     (case cm_reader cm of
        None \<Rightarrow> Some (Inl (Undefined ''read after close''), cm)
      | Some (d, buf) \<Rightarrow>
          if length buf = 0 then Some (Inr (), cm)
          else
            (case dispatch_loop (co_decode (cf_codec cfg)) (request_callbacks cfg) d buf
                    (resetIdleTimer (cm_conn cm)) of
               None \<Rightarrow> None
             | Some (Inr r, cn) \<Rightarrow> Some (Inr (), \<lparr>cm_reader = Some r, cm_conn = cn\<rparr>)
             | Some (Inl e, cn) \<Rightarrow>
                 if envoy_what e \<noteq> None then
                   Some (Inr (), \<lparr>cm_reader = None, cm_conn = resetAllMessages True
                          (inc request_decoding_error (conn_close NoFlush cn))\<rparr>)
                 else Some (Inl e, \<lparr>cm_reader = None, cm_conn = cn\<rparr>)))"

definition cm_onData ::
  "('c, 'x, 'f) config \<Rightarrow> buffer \<Rightarrow> bool \<Rightarrow> ('c, 'x, 'f) cm \<Rightarrow> (unit res \<times> ('c, 'x, 'f) cm) option" where
  "cm_onData cfg data end_stream cm =
     (case dispatch cfg (cm\<lparr>cm_reader := map_option (\<lambda>(d, buf). (d, buf @ data)) (cm_reader cm)\<rparr>) of
        None \<Rightarrow> None
      | Some (Inl e, cm1) \<Rightarrow> Some (Inl e, cm1)
      | Some (Inr _, cm1) \<Rightarrow>
          Some (Inr (), if end_stream
                then cm1\<lparr>cm_conn := conn_close FlushWrite (clearStream (resetAllMessages False (cm_conn cm1)))\<rparr>
                else cm1))"

section \<open>Events of the connection\<close>

definition onNewConnection ::
  "('c, 'x, 'f) config \<Rightarrow> ('c, 'x, 'f) conn \<Rightarrow> ('c, 'x, 'f) conn" where
  "onNewConnection cfg cn =
     (if cf_idleTimeout cfg \<noteq> None then resetIdleTimer (cn\<lparr>cn_idle_timer := Some False\<rparr>) else cn)"

definition resetUpstreamHandlerManager :: "('c, 'x, 'f) conn \<Rightarrow> ('c, 'x, 'f) conn" where
  "resetUpstreamHandlerManager cn = cn\<lparr>cn_net := (cn_net cn)\<lparr>nt_upstream_handlers := []\<rparr>\<rparr>"

definition onEvent :: "connection_event \<Rightarrow> ('c, 'x, 'f) conn \<Rightarrow> ('c, 'x, 'f) conn" where
  "onEvent ev cn =
     (if ev = LocalClose then
        resetUpstreamHandlerManager (resetAllMessages True (disableIdleTimer cn))
      else if ev = RemoteClose then
        resetUpstreamHandlerManager (resetAllMessages False (disableIdleTimer cn))
      else cn)"

definition onAboveWriteBufferHighWatermark :: "('c, 'x, 'f) conn \<Rightarrow> ('c, 'x, 'f) conn" where
  "onAboveWriteBufferHighWatermark cn = cn\<lparr>cn_readDisable := cn_readDisable cn @ [True]\<rparr>"

definition onBelowWriteBufferLowWatermark :: "('c, 'x, 'f) conn \<Rightarrow> ('c, 'x, 'f) conn" where
  "onBelowWriteBufferLowWatermark cn = cn\<lparr>cn_readDisable := cn_readDisable cn @ [False]\<rparr>"

section \<open>Frames\<close>

lemma upd_message_frame [simp]:
  "cn_next (upd_message i f cn) = cn_next cn"
  "cn_streams (upd_message i f cn) = cn_streams cn"
  "cn_stats (upd_message i f cn) = cn_stats cn"
  "cn_state (upd_message i f cn) = cn_state cn"
  "cn_written (upd_message i f cn) = cn_written cn"
  "cn_shared (upd_message i f cn) = cn_shared cn"
  "cn_net (upd_message i f cn) = cn_net cn"
  by (simp_all add: upd_message_def)

lemma upd_response_frame [simp]:
  "cn_stats (upd_response i f cn) = cn_stats cn"
  "cn_state (upd_response i f cn) = cn_state cn"
  "cn_written (upd_response i f cn) = cn_written cn"
  by (simp_all add: upd_response_def)

lemma conn_write_frame [simp]:
  "cn_stats (conn_write b e cn) = cn_stats cn"
  "cn_messages (conn_write b e cn) = cn_messages cn"
  "cn_deferred (conn_write b e cn) = cn_deferred cn"
  "cn_state (conn_write b e cn) = cn_state cn"
  "cn_written (conn_write b e cn) = cn_written cn @ [(b, e)]"
  by (simp_all add: conn_write_def)

lemma conn_close_frame [simp]:
  "cn_stats (conn_close t cn) = cn_stats cn"
  "cn_messages (conn_close t cn) = cn_messages cn"
  "cn_deferred (conn_close t cn) = cn_deferred cn"
  "cn_written (conn_close t cn) = cn_written cn"
  by (simp_all add: conn_close_def)

lemma stats_active [simp]:
  "response_stats md st request_active = st request_active"
  "request_stats mt st request_active = st request_active"
  "k \<noteq> request_active \<Longrightarrow> stat_inc k st request_active = st request_active"
  by (simp_all add: response_stats_def request_stats_def stat_inc_def Let_def split: message_type.split)

section \<open>Invariants of a connection\<close>

text \<open>
  A property of the connection that the elementary changes keep is kept by every handler.  A change
  of a message keeps its chain of filters.  The
  network connection is only written to while it is open.
\<close>

definition same_chain :: "('c, 'x, 'f) message \<Rightarrow> ('c, 'x, 'f) message \<Rightarrow> bool" where
  "same_chain m m' \<longleftrightarrow> am_decoder_filters m' = am_decoder_filters m
     \<and> am_encoder_filters m' = am_encoder_filters m \<and> length (am_filters m') = length (am_filters m)"

lemma same_chain_upd [simp]:
  "same_chain m m"
  "same_chain m (m\<lparr>am_metadata := md\<rparr>)"
  "same_chain m (m\<lparr>am_response_decoder := rd\<rparr>)"
  "same_chain m (m\<lparr>am_filter_action := fa\<rparr>)"
  "same_chain m (m\<lparr>am_encoder_filter_action := fa\<rparr>)"
  "same_chain m (m\<lparr>am_bytes_sent := n\<rparr>)"
  "same_chain m (m\<lparr>am_bytes_received := n\<rparr>)"
  "same_chain m (m\<lparr>am_pending_stream_decoded := b\<rparr>)"
  "same_chain m (m\<lparr>am_local_response_sent := b\<rparr>)"
  "same_chain m (m\<lparr>am_filters := (am_filters m)[j := x]\<rparr>)"
  "same_chain m (m\<lparr>am_filters := (am_filters m)[j := x], am_metadata := md, am_filter_action := fa\<rparr>)"
  "same_chain m (m\<lparr>am_filters := (am_filters m)[j := x], am_response_decoder := rd, am_encoder_filter_action := fa\<rparr>)"
  by (simp_all add: same_chain_def)

locale conn_invariant =
  fixes cfg :: "('c, 'x, 'f) config" and inv :: "('c, 'x, 'f) conn \<Rightarrow> bool"
  assumes inv_message: "inv cn \<Longrightarrow> (\<And>m. same_chain m (f m)) \<Longrightarrow> inv (upd_message i f cn)"
    and inv_delete: "inv cn \<Longrightarrow> inv (deferredDeleteMessage i cn)"
    and inv_stats: "inv cn \<Longrightarrow> st request_active = cn_stats cn request_active \<Longrightarrow>
          inv (cn\<lparr>cn_stats := st\<rparr>)"
    and inv_write: "inv cn \<Longrightarrow> cn_state cn = Open \<Longrightarrow> inv (conn_write b e cn)"
    and inv_close: "inv cn \<Longrightarrow> inv (conn_close t cn)"
    and inv_streams: "inv cn \<Longrightarrow> inv (cn\<lparr>cn_streams := s\<rparr>)"
    and inv_shared: "inv cn \<Longrightarrow> inv (cn\<lparr>cn_shared := g\<rparr>)"
    and inv_timer: "inv cn \<Longrightarrow> inv (cn\<lparr>cn_idle_timer := t'\<rparr>)"
    and inv_net: "inv cn \<Longrightarrow> inv (cn\<lparr>cn_net := nt\<rparr>)"
    and inv_readDisable: "inv cn \<Longrightarrow> inv (cn\<lparr>cn_readDisable := rd\<rparr>)"
    and inv_new: "inv cn \<Longrightarrow> inv (snd (newMessageHandler cfg cn))"
    and inv_destroy: "inv cn \<Longrightarrow> inv (clearDeferred cfg cn)"
begin

lemma inv_inc: "k \<noteq> request_active \<Longrightarrow> inv cn \<Longrightarrow> inv (inc k cn)"
  by (rule inv_stats) simp_all

lemma inv_bindS:
  "inv (snd m) \<Longrightarrow> (\<And>x s. inv s \<Longrightarrow> inv (snd (f x s))) \<Longrightarrow> inv (snd (bindS m f))"
  by (cases m; cases "fst m") auto

lemma inv_the_message:
  "inv cn \<Longrightarrow> (\<And>m. inv (snd (f m cn))) \<Longrightarrow> inv (snd (the_message i f cn))"
  by (simp add: the_message_def split: option.split)

lemma inv_the_metadata:
  "inv cn \<Longrightarrow> (\<And>md. inv (snd (f md cn))) \<Longrightarrow> inv (snd (the_metadata i f cn))"
  unfolding the_metadata_def by (rule inv_the_message) (auto split: option.split)

lemma inv_resetAllMessages: "inv cn \<Longrightarrow> inv (resetAllMessages l cn)"
proof (induction l cn rule: resetAllMessages.induct)
  case (1 l cn)
  show ?case
  proof (cases "cn_messages cn")
    case Nil
    with 1 show ?thesis by (subst resetAllMessages.simps) simp
  next
    case (Cons im ms)
    obtain i m where im: "im = (i, m)" by fastforce
    have "inv (deferredDeleteMessage i (inc (if l then cx_destroy_local_with_active_rq
        else cx_destroy_remote_with_active_rq) cn))"
      using 1(2) by (intro inv_delete inv_inc) auto
    from 1(1) [OF Cons im [symmetric] this] Cons im show ?thesis
      by (subst resetAllMessages.simps) simp
  qed
qed

lemma inv_cm_sendLocalReply: "inv cn \<Longrightarrow> inv (snd (cm_sendLocalReply cfg md err e cn))"
  by (auto simp: cm_sendLocalReply_def Let_def response_stat_def
      intro!: inv_stats inv_close inv_write split: sum.split response_type.split)

lemma inv_am_sendLocalReply: "inv cn \<Longrightarrow> inv (snd (am_sendLocalReply cfg i err e cn))"
  unfolding am_sendLocalReply_def
  by (intro inv_the_metadata inv_bindS inv_cm_sendLocalReply) (auto intro: inv_message)

lemma inv_filter_callback: "inv cn \<Longrightarrow> inv (snd (filter_callback cfg i c cn))"
  by (cases c)
    (auto simp: filter_callback_def am_startUpstreamResponse_def am_setUpstreamConnection_def
      put_stream_def intro!: inv_message inv_close inv_delete inv_am_sendLocalReply inv_the_metadata
      inv_streams split: sum.split)

lemma inv_filter_callbacks: "inv cn \<Longrightarrow> inv (snd (filter_callbacks cfg i cs cn))"
  by (induction cs arbitrary: cn) (auto intro!: inv_bindS inv_filter_callback)

lemma inv_run_decoder_filter: "inv cn \<Longrightarrow> inv (snd (run_decoder_filter cfg i j cn))"
  unfolding run_decoder_filter_def
  by (intro inv_the_message)
    (auto simp: Let_def intro!: inv_bindS inv_filter_callbacks inv_net inv_shared inv_message
      split: option.split sum.split)

lemma inv_decoder_chain: "inv cn \<Longrightarrow> inv (snd (decoder_chain cfg i es cn))"
proof (induction es arbitrary: cn)
  case (Cons e es)
  show ?case unfolding decoder_chain.simps
    by (intro inv_bindS inv_run_decoder_filter Cons.prems) (simp add: Cons.IH inv_message)
qed (simp add: inv_message)

lemma inv_applyDecoderFilters: "inv cn \<Longrightarrow> inv (snd (applyDecoderFilters cfg i f st cn))"
  unfolding applyDecoderFilters_def by (intro inv_the_message inv_decoder_chain)

lemma inv_run_encoder_filter: "inv cn \<Longrightarrow> inv (snd (run_encoder_filter cfg i j cn))"
  unfolding run_encoder_filter_def
  by (intro inv_the_message)
    (auto simp: Let_def intro!: inv_bindS inv_filter_callbacks inv_net inv_shared inv_message
      split: option.split sum.split)

lemma inv_encoder_chain: "inv cn \<Longrightarrow> inv (snd (encoder_chain cfg i es cn))"
proof (induction es arbitrary: cn)
  case (Cons e es)
  show ?case unfolding encoder_chain.simps
    by (intro inv_bindS inv_run_encoder_filter Cons.prems) (simp add: Cons.IH inv_message)
qed (simp add: inv_message)

lemma inv_applyEncoderFilters: "inv cn \<Longrightarrow> inv (snd (applyEncoderFilters cfg i f st cn))"
  unfolding applyEncoderFilters_def by (intro inv_the_message inv_encoder_chain)

lemma inv_maybeDeferredDeleteMessage: "inv cn \<Longrightarrow> inv (snd (maybeDeferredDeleteMessage i cn))"
  unfolding maybeDeferredDeleteMessage_def
  by (intro inv_the_metadata)
    (auto simp: Let_def intro!: inv_delete inv_stats inv_message)

lemma inv_stream_switch: "inv cn \<Longrightarrow> inv (snd (snd (stream_switch md cn)))"
  by (auto simp: stream_switch_def newActiveStream_def put_stream_def intro!: inv_streams
      split: option.split prod.split)

lemma inv_am_onMessageDecoded: "inv cn \<Longrightarrow> inv (snd (am_onMessageDecoded cfg i md mut cn))"
proof -
  assume i: "inv cn"
  let ?cn1 = "upd_message i (\<lambda>m. m\<lparr>am_bytes_sent := am_bytes_sent m + getMessageSize md\<rparr>)
     (inc request_decoding_success cn)"
  let ?md = "putString ApplicationProtocol (cf_applicationProtocol cfg) md"
  obtain n md2 cn2 where s: "stream_switch ?md ?cn1 = (n, md2, cn2)" by (cases "stream_switch ?md ?cn1")
  have "inv ?cn1" by (intro inv_message inv_inc i) simp_all
  then have "inv cn2" using inv_stream_switch [of ?cn1 ?md] s by simp
  then show ?thesis
    using s
    by (auto simp: am_onMessageDecoded_def Let_def intro!: inv_bindS inv_applyDecoderFilters inv_message
        inv_delete inv_maybeDeferredDeleteMessage split: filter_status.split)
qed

lemma inv_continueDecoding: "inv cn \<Longrightarrow> inv (snd (continueDecoding cfg i k cn))"
  unfolding continueDecoding_def
  by (intro inv_the_metadata inv_bindS inv_applyDecoderFilters inv_the_message)
    (auto intro: inv_maybeDeferredDeleteMessage)

lemma inv_continueEncoding: "inv cn \<Longrightarrow> inv (snd (continueEncoding cfg i k cn))"
  unfolding continueEncoding_def
  by (intro inv_the_metadata inv_bindS inv_applyEncoderFilters) auto

lemma inv_am_onError: "inv cn \<Longrightarrow> inv (snd (am_onError cfg i w cn))"
  unfolding am_onError_def Let_def
  by (intro inv_bindS inv_am_sendLocalReply inv_message) (auto intro: inv_delete)

lemma inv_response: "inv cn \<Longrightarrow> inv (upd_response i f cn)"
  unfolding upd_response_def by (rule inv_message) simp_all

lemma inv_applyMessageEncodedFilters:
  "inv cn \<Longrightarrow> inv (snd (applyMessageEncodedFilters cfg i mut cn))"
  unfolding applyMessageEncodedFilters_def
  by (intro inv_bindS inv_applyEncoderFilters inv_message) (auto intro: inv_response)

lemma inv_forward_response: "inv cn \<Longrightarrow> inv (snd (forward_response cfg i mut cn))"
  unfolding forward_response_def
  by (intro inv_the_metadata inv_the_message)
    (auto simp: Let_def intro!: inv_stats inv_write inv_response split: option.split sum.split)

lemma inv_rd_onMessageDecoded: "inv cn \<Longrightarrow> inv (snd (rd_onMessageDecoded cfg i md mut cn))"
  unfolding rd_onMessageDecoded_def Let_def
  by (intro inv_bindS inv_applyMessageEncodedFilters inv_message inv_response)
    (auto intro: inv_response inv_forward_response)

lemma inv_onHeartbeat: "inv cn \<Longrightarrow> inv (snd (onHeartbeat cfg md cn))"
  by (auto simp: onHeartbeat_def Let_def intro!: inv_inc inv_write split: sum.split)

lemma inv_new_handler: "inv cn \<Longrightarrow> newMessageHandler cfg cn = (i, cn') \<Longrightarrow> inv cn'"
  using inv_new [of cn] by simp

end

sublocale conn_invariant \<subseteq> requests: kept_by_callbacks "request_callbacks cfg" inv
proof
  fix s s' h md mut r w
  assume i: "inv s"
  show "cb_newMessageHandler (request_callbacks cfg) s = (h, s') \<Longrightarrow> inv s'"
    using i by (simp add: request_callbacks_def inv_new_handler)
  show "cb_onMessageDecoded (request_callbacks cfg) h md mut s = (r, s') \<Longrightarrow> inv s'"
    using inv_am_onMessageDecoded [OF i, of h md mut] by (simp add: request_callbacks_def)
  show "cb_onHeartbeat (request_callbacks cfg) md s = (w, s') \<Longrightarrow> inv s'"
    using inv_onHeartbeat [OF i, of md] by (simp add: request_callbacks_def)
qed

sublocale conn_invariant \<subseteq> responses: kept_by_callbacks "response_callbacks cfg i" inv for i
proof
  fix s s' h md mut r w
  assume i: "inv s"
  show "cb_newMessageHandler (response_callbacks cfg i) s = (h, s') \<Longrightarrow> inv s'"
    using i by (simp add: response_callbacks_def)
  show "cb_onMessageDecoded (response_callbacks cfg i) h md mut s = (r, s') \<Longrightarrow> inv s'"
    using inv_rd_onMessageDecoded [OF i, of _ md mut] by (simp add: response_callbacks_def) (metis snd_conv)
  show "cb_onHeartbeat (response_callbacks cfg i) md s = (w, s') \<Longrightarrow> inv s'"
    using i by (simp add: response_callbacks_def)
qed

context conn_invariant begin

lemma inv_rd_onData: "inv cn \<Longrightarrow> inv (snd (rd_onData cfg i data cn))"
  unfolding rd_onData_def
proof (intro inv_the_message)
  fix m
  assume a: "inv cn"
  show "inv (snd (case am_response_decoder m of None \<Rightarrow> (Inl (Undefined ''response_decoder_ is null''), cn)
     | Some rd \<Rightarrow>
         bindS (onData (co_decode (cf_codec cfg)) (response_callbacks cfg i) (rd_decoder rd) data cn)
           (\<lambda>(_, d, data'). the_message i (\<lambda>m' cn1.
              case am_response_decoder m' of
                None \<Rightarrow> (Inl (Undefined ''response_decoder_ is null''), cn1)
              | Some rd' \<Rightarrow>
                  (Inr (rd_response_status rd', data'), upd_response i (\<lambda>r. r\<lparr>rd_decoder := d\<rparr>) cn1)))))"
    using a responses.onData_kept [OF a prod.collapse [symmetric]]
    by (auto split: option.split intro!: inv_bindS inv_the_message inv_response)
qed assumption

lemma inv_upstreamData: "inv cn \<Longrightarrow> inv (snd (am_upstreamData cfg i data cn))"
proof -
  assume a: "inv cn"
  have "inv (snd (upstreamData_try cfg i data cn))"
    unfolding upstreamData_try_def
    by (intro inv_bindS inv_rd_onData a)
      (auto intro!: inv_the_message inv_delete inv_message split: option.split)
  then show ?thesis
    by (auto simp: am_upstreamData_def onReset_def intro!: inv_bindS inv_am_onError inv_inc inv_delete
        split: prod.splits sum.splits exn.splits)
qed

lemma inv_onEvent: "inv cn \<Longrightarrow> inv (onEvent ev cn)"
  by (auto simp: onEvent_def disableIdleTimer_def resetUpstreamHandlerManager_def
      intro!: inv_net inv_resetAllMessages inv_timer)

lemma inv_onIdleTimeout: "inv cn \<Longrightarrow> inv (onIdleTimeout cn)"
  by (auto simp: onIdleTimeout_def clearStream_def intro!: inv_close inv_streams inv_resetAllMessages inv_inc)

lemma inv_resetIdleTimer: "inv cn \<Longrightarrow> inv (resetIdleTimer cn)"
  by (auto simp: resetIdleTimer_def intro: inv_timer split: option.split)

lemma inv_onNewConnection: "inv cn \<Longrightarrow> inv (onNewConnection cfg cn)"
  by (auto simp: onNewConnection_def intro!: inv_resetIdleTimer inv_timer)

lemma inv_dispatch:
  assumes "dispatch cfg cm = Some (r, cm')" "inv (cm_conn cm)"
  shows "inv (cm_conn cm')"
  using assms inv_resetIdleTimer [OF assms(2)]
  by (auto simp: dispatch_def split: option.splits if_splits prod.splits sum.splits
      intro!: inv_resetAllMessages inv_stats inv_close dest!: requests.dispatch_loop_kept)

lemma inv_cm_onData:
  assumes "cm_onData cfg data e cm = Some (r, cm')" "inv (cm_conn cm)"
  shows "inv (cm_conn cm')"
  using assms
  by (auto simp: cm_onData_def clearStream_def split: option.splits prod.splits sum.splits if_splits
      intro!: inv_close inv_streams inv_resetAllMessages dest!: inv_dispatch)

end

section \<open>The events of a connection\<close>

text \<open>
  What can happen to a connection: data and events of the network, timers, data of the upstream
  connection of a message or of a stream, a paused filter that goes on, a callback a filter makes
  later on, and the dispatcher destroying the deferred messages.
\<close>

datatype event =
    Read buffer bool
  | NewConnection
  | NetEvent connection_event
  | HighWatermark
  | LowWatermark
  | IdleTimeout
  | UpstreamData nat buffer
  | ContinueDecoding nat nat
  | ContinueEncoding nat nat
  | Callback nat filter_call
  | StreamData u64 buffer bool
  | RunDeferred

definition on_conn ::
  "(('c, 'x, 'f) conn \<Rightarrow> 'a res \<times> ('c, 'x, 'f) conn) \<Rightarrow> ('c, 'x, 'f) cm
   \<Rightarrow> (unit res \<times> ('c, 'x, 'f) cm) option" where
  "on_conn f cm = (case f (cm_conn cm) of
     (Inl e, cn) \<Rightarrow> Some (Inl e, cm\<lparr>cm_conn := cn\<rparr>)
   | (Inr _, cn) \<Rightarrow> Some (Inr (), cm\<lparr>cm_conn := cn\<rparr>))"

definition stream_data ::
  "('c, 'x, 'f) config \<Rightarrow> u64 \<Rightarrow> buffer \<Rightarrow> bool \<Rightarrow> ('c, 'x, 'f) cm
   \<Rightarrow> (unit res \<times> ('c, 'x, 'f) cm) option" where
  "stream_data cfg sid data end_stream cm =
     (case cm_reader cm of
        None \<Rightarrow> Some (Inl (Undefined ''read after close''), cm)
      | Some (d, buf) \<Rightarrow>
          (case send2downstream (cf_codec cfg) sid data end_stream (d_codec d) (cm_conn cm) of
             None \<Rightarrow> None
           | Some (Inl e, cn) \<Rightarrow> Some (Inl e, cm\<lparr>cm_conn := cn\<rparr>)
           | Some (Inr (_, c), cn) \<Rightarrow>
               Some (Inr (), \<lparr>cm_reader = Some (d\<lparr>d_codec := c\<rparr>, buf), cm_conn = cn\<rparr>)))"

fun handle ::
  "('c, 'x, 'f) config \<Rightarrow> event \<Rightarrow> ('c, 'x, 'f) cm \<Rightarrow> (unit res \<times> ('c, 'x, 'f) cm) option" where
  "handle cfg (Read data end_stream) cm = cm_onData cfg data end_stream cm"
| "handle cfg NewConnection cm = on_conn (\<lambda>cn. (Inr (), onNewConnection cfg cn)) cm"
| "handle cfg (NetEvent ev) cm = on_conn (\<lambda>cn. (Inr (), onEvent ev cn)) cm"
| "handle cfg HighWatermark cm = on_conn (\<lambda>cn. (Inr (), onAboveWriteBufferHighWatermark cn)) cm"
| "handle cfg LowWatermark cm = on_conn (\<lambda>cn. (Inr (), onBelowWriteBufferLowWatermark cn)) cm"
| "handle cfg IdleTimeout cm = on_conn (\<lambda>cn. (Inr (), onIdleTimeout cn)) cm"
| "handle cfg (UpstreamData i data) cm = on_conn (am_upstreamData cfg i data) cm"
| "handle cfg (ContinueDecoding i k) cm = on_conn (continueDecoding cfg i k) cm"
| "handle cfg (ContinueEncoding i k) cm = on_conn (continueEncoding cfg i k) cm"
| "handle cfg (Callback i c) cm = on_conn (filter_callback cfg i c) cm"
| "handle cfg (StreamData sid data end_stream) cm = stream_data cfg sid data end_stream cm"
| "handle cfg RunDeferred cm = on_conn (\<lambda>cn. (Inr (), clearDeferred cfg cn)) cm"

inductive reachable ::
  "('c, 'x, 'f) config \<Rightarrow> 'f \<Rightarrow> ('c, 'x) net \<Rightarrow> ('c, 'x, 'f) cm \<Rightarrow> bool" for cfg g nt where
  reachable_init: "reachable cfg g nt (new_cm cfg g nt)"
| reachable_step: "reachable cfg g nt cm \<Longrightarrow> handle cfg ev cm = Some (Inr (), cm') \<Longrightarrow> reachable cfg g nt cm'"

fun is_stream_data :: "event \<Rightarrow> bool" where
  "is_stream_data (StreamData _ _ _) \<longleftrightarrow> True"
| "is_stream_data _ \<longleftrightarrow> False"

context conn_invariant begin

lemma inv_on_conn:
  "on_conn f cm = Some (r, cm') \<Longrightarrow> inv (snd (f (cm_conn cm))) \<Longrightarrow> inv (cm_conn cm')"
  by (auto simp: on_conn_def split: prod.splits sum.splits)

lemma inv_handle:
  assumes "handle cfg ev cm = Some (r, cm')" "inv (cm_conn cm)" "\<not> is_stream_data ev"
  shows "inv (cm_conn cm')"
  using assms
  by (cases ev)
    (auto simp: onAboveWriteBufferHighWatermark_def onBelowWriteBufferLowWatermark_def
      intro!: inv_readDisable inv_onNewConnection inv_onEvent inv_onIdleTimeout inv_upstreamData
        inv_continueDecoding inv_continueEncoding inv_filter_callback inv_destroy
      elim!: inv_on_conn inv_cm_onData)

end

text \<open>The data of a stream is written without looking at the state of the connection.\<close>

locale conn_invariant_streams = conn_invariant +
  assumes inv_write_any: "inv cn \<Longrightarrow> inv (conn_write b e cn)"
begin

lemma inv_send2downstream:
  assumes "send2downstream co sid data e c cn = Some (r, cn')" "inv cn"
  shows "inv cn'"
proof -
  let ?P = "\<lambda>co sid data e c cn rs. inv cn \<longrightarrow> inv (snd rs)"
  have "?P co sid data e c cn (r, cn')"
    using assms(1)
  proof (rule send2downstream.raw_induct [where P = ?P, rotated])
    fix f co sid data e c cn y
    assume IH: "\<And>co sid data e c cn y. f co sid data e c cn = Some y \<Longrightarrow> inv cn \<longrightarrow> inv (snd y)"
      and body: "(if data = [] then Some (Inr ([], c), cn)
      else case map_find (cn_streams cn) sid of
        None \<Rightarrow> Some (Inl (Undefined ''stream destroyed''), cn)
      | Some s \<Rightarrow>
          (case co_decode co c data (new_metadata\<lparr>md_message_type := Response\<rparr>) of
             Inl e \<Rightarrow> Some (Inl e, cn)
           | Inr (status, c', data', md) \<Rightarrow>
               if status = WaitForData then Some (Inr (data', c'), cn)
               else
                 let cn1 = conn_write (md_origin_message md) e cn;
                     s1 = stream_frame md s
                 in if e \<or> st_server_closed s1 then
                      (if st_upstream_conn s1 = None
                       then Some (Inl (Undefined ''upstream_conn_data_ is null''), cn1)
                       else f co sid data' e c' (closeStream sid cn1))
                    else f co sid data' e c' (put_stream sid s1 cn1))) = Some y"
    show "inv cn \<longrightarrow> inv (snd y)"
    proof
      assume i: "inv cn"
      then have w: "inv (closeStream sid (conn_write b e cn))" "inv (put_stream sid s1 (conn_write b e cn))"
        "inv (conn_write b e cn)" for b s1
        by (auto simp: closeStream_def put_stream_def intro!: inv_streams inv_write_any)
      from body i w show "inv (snd y)"
        by (auto simp: Let_def split: if_splits option.splits sum.splits prod.splits dest!: IH)
    qed
  qed
  with assms(2) show ?thesis by simp
qed

lemma inv_handle_any:
  assumes "handle cfg ev cm = Some (r, cm')" "inv (cm_conn cm)"
  shows "inv (cm_conn cm')"
proof (cases "is_stream_data ev")
  case True
  with assms show ?thesis
    by (cases ev) (auto simp: stream_data_def split: option.splits prod.splits sum.splits
        dest: inv_send2downstream)
qed (use assms in \<open>auto elim: inv_handle\<close>)

lemma inv_reachable:
  "reachable cfg g nt cm \<Longrightarrow> inv (new_conn g nt) \<Longrightarrow> inv (cm_conn cm)"
  by (induction rule: reachable.induct) (auto simp: new_cm_def elim: inv_handle_any)

end

section \<open>The number of live messages\<close>

lemma map_fst_update_at [simp]: "map fst (update_at i f ms) = map fst ms"
  by (induction ms) (auto simp: update_at_def)

lemma length_update_at [simp]: "length (update_at i f ms) = length ms"
  by (simp add: update_at_def)

lemma filter_other: "i \<notin> fst ` set ms \<Longrightarrow> filter (\<lambda>jm. fst jm \<noteq> i) ms = ms"
  by (induction ms) auto

lemma length_filter_one:
  "distinct (map fst ms) \<Longrightarrow> map_of ms i = Some m \<Longrightarrow>
     Suc (length (filter (\<lambda>jm. fst jm \<noteq> i) ms)) = length ms"
proof (induction ms)
  case (Cons jm ms)
  show ?case
  proof (cases "fst jm = i")
    case True
    with Cons.prems(1) have "filter (\<lambda>jm. fst jm \<noteq> i) ms = ms"
      by (intro filter_other) auto
    with True show ?thesis by simp
  next
    case False
    with Cons show ?thesis by (cases jm) (auto split: if_splits)
  qed
qed simp

lemma foldl_stat_dec: "foldl (\<lambda>st _. stat_dec k st) st xs = st(k := st k - int (length xs))"
  by (induction xs arbitrary: st) (simp_all add: stat_dec_def diff_diff_eq)

text \<open>The messages have different numbers, and the gauge counts those that were not yet
  destroyed.\<close>

definition gauge_ok :: "('c, 'x, 'f) conn \<Rightarrow> bool" where
  "gauge_ok cn \<longleftrightarrow> distinct (map fst (cn_messages cn @ cn_deferred cn))
     \<and> list_all (\<lambda>jm. fst jm < cn_next cn) (cn_messages cn @ cn_deferred cn)
     \<and> cn_stats cn request_active = int (length (cn_messages cn @ cn_deferred cn))"

lemma gauge_ok_delete: "gauge_ok cn \<Longrightarrow> gauge_ok (deferredDeleteMessage i cn)"
proof (cases "map_of (cn_messages cn) i")
  case (Some m)
  assume g: "gauge_ok cn"
  let ?ms = "filter (\<lambda>jm. fst jm \<noteq> i) (cn_messages cn)"
  from g have d: "distinct (map fst (cn_messages cn))" by (simp add: gauge_ok_def)
  have i: "i \<in> fst ` set (cn_messages cn)" using Some by (metis domI dom_map_of_conv_image_fst)
  have "distinct (map fst ?ms)" using d by (simp add: distinct_map_filter)
  moreover have "i \<notin> fst ` set ?ms" by auto
  ultimately show ?thesis
    using g Some i length_filter_one [OF d Some]
    by (auto simp: gauge_ok_def deferredDeleteMessage_def list_all_iff)
qed (simp add: deferredDeleteMessage_def)

lemma list_all_Suc: "list_all (\<lambda>jm. fst jm < n) ms \<Longrightarrow> list_all (\<lambda>jm. fst jm < Suc n) ms"
  by (induction ms) auto

lemma list_all_fresh: "list_all (\<lambda>jm. fst jm < (n::nat)) ms \<Longrightarrow> n \<notin> fst ` set ms"
  by (induction ms) auto

lemma gauge_ok_new: "gauge_ok cn \<Longrightarrow> gauge_ok (snd (newMessageHandler cfg cn))"
proof -
  assume g: "gauge_ok cn"
  then have "list_all (\<lambda>jm. fst jm < cn_next cn) (cn_messages cn)"
    "list_all (\<lambda>jm. fst jm < cn_next cn) (cn_deferred cn)" by (simp_all add: gauge_ok_def)
  note b = this [THEN list_all_Suc] this [THEN list_all_fresh]
  from g b show ?thesis
    by (simp add: gauge_ok_def newMessageHandler_def stat_inc_def Let_def)
qed

lemma gauge_ok_message: "gauge_ok cn \<Longrightarrow> gauge_ok (upd_message i f cn)"
proof -
  have "list_all (\<lambda>jm. fst jm < n) (update_at i f ms) = list_all (\<lambda>jm. fst jm < n) ms" for n ms
    by (auto simp: update_at_def list_all_iff split: if_splits)
  then show "gauge_ok cn \<Longrightarrow> gauge_ok (upd_message i f cn)"
    by (simp add: gauge_ok_def upd_message_def)
qed

interpretation gauge: conn_invariant_streams cfg gauge_ok for cfg
proof (unfold_locales, goal_cases)
  case (1 cn f i)
  then show ?case by (intro gauge_ok_message)
next
  case (2 cn i)
  then show ?case by (rule gauge_ok_delete)
next
  case (11 cn)
  then show ?case by (rule gauge_ok_new)
next
  case (12 cn)
  then show ?case by (simp add: gauge_ok_def clearDeferred_def foldl_stat_dec)
qed (simp_all add: gauge_ok_def conn_write_def conn_close_def)

section \<open>A closed connection\<close>

interpretation closed: conn_invariant cfg "\<lambda>cn. cn_state cn \<noteq> Open \<and> cn_written cn = w" for cfg w
proof (unfold_locales, goal_cases)
  case (2 cn i)
  then show ?case by (auto simp: deferredDeleteMessage_def split: option.split)
qed (auto simp: upd_message_def conn_write_def conn_close_def newMessageHandler_def clearDeferred_def Let_def)

section \<open>Resets\<close>

lemma resetAllMessages_spec:
  "distinct (map fst (cn_messages cn)) \<Longrightarrow>
   resetAllMessages l cn = cn\<lparr>cn_messages := [], cn_deferred := cn_deferred cn @ cn_messages cn,
     cn_stats := (let k = (if l then cx_destroy_local_with_active_rq else cx_destroy_remote_with_active_rq)
                  in (cn_stats cn)(k := cn_stats cn k + int (length (cn_messages cn))))\<rparr>"
proof (induction "cn_messages cn" arbitrary: cn)
  case Nil
  then show ?case by (subst resetAllMessages.simps) (simp add: Let_def)
next
  case (Cons im ms)
  obtain i m where im: "im = (i, m)" by fastforce
  define k where "k = (if l then cx_destroy_local_with_active_rq else cx_destroy_remote_with_active_rq)"
  have eq: "cn_messages cn = (i, m) # ms" using Cons.hyps(2) im by simp
  have "filter (\<lambda>jm. fst jm \<noteq> i) ms = ms"
    using Cons.prems eq by (intro filter_other) auto
  then have d: "deferredDeleteMessage i (inc k cn) = cn\<lparr>cn_messages := ms,
      cn_deferred := cn_deferred cn @ [(i, m)], cn_stats := stat_inc k (cn_stats cn)\<rparr>"
    by (simp add: deferredDeleteMessage_def eq)
  have "resetAllMessages l cn = resetAllMessages l (deferredDeleteMessage i (inc k cn))"
    by (subst resetAllMessages.simps) (simp add: eq k_def)
  also have "\<dots> = (let c = deferredDeleteMessage i (inc k cn) in
      c\<lparr>cn_messages := [], cn_deferred := cn_deferred c @ cn_messages c,
        cn_stats := (cn_stats c)(k := cn_stats c k + int (length (cn_messages c)))\<rparr>)"
    using Cons.hyps(1) [of "deferredDeleteMessage i (inc k cn)"] Cons.prems eq
    unfolding d k_def [symmetric] Let_def by simp
  finally show ?case unfolding d by (simp add: eq k_def [symmetric] Let_def stat_inc_def add.assoc)
qed

text \<open>
  C11: when either side closes the connection, the idle timer is gone, no message is left active,
  each of them waits for its destruction exactly once, in order, each is counted once in the
  statistics of the side that closed, and the table of upstream handlers is empty; nothing is
  written.
\<close>

theorem close_resets_all:
  assumes "distinct (map fst (cn_messages cn))" "ev \<noteq> Connected"
  shows "onEvent ev cn = cn\<lparr>cn_idle_timer := None, cn_messages := [],
     cn_deferred := cn_deferred cn @ cn_messages cn, cn_net := (cn_net cn)\<lparr>nt_upstream_handlers := []\<rparr>,
     cn_stats := (let k = (if ev = LocalClose then cx_destroy_local_with_active_rq
                           else cx_destroy_remote_with_active_rq)
                  in (cn_stats cn)(k := cn_stats cn k + int (length (cn_messages cn))))\<rparr>"
  using assms
  by (cases ev)
    (auto simp: onEvent_def disableIdleTimer_def resetUpstreamHandlerManager_def resetAllMessages_spec)

text \<open>
  C10: bytes that the codec refuses with an exception close the connection at once: the error is
  counted, and every message that was active, those decoded just before included, is reset.
\<close>

theorem decoding_error_closes:
  assumes "cm_reader cm = Some (d, buf)" "buf \<noteq> []"
    and "dispatch_loop (co_decode (cf_codec cfg)) (request_callbacks cfg) d buf
           (resetIdleTimer (cm_conn cm)) = Some (Inl (EnvoyException w), cn)"
    and "gauge_ok (cm_conn cm)"
  shows "\<exists>cm'. dispatch cfg cm = Some (Inr (), cm') \<and> cn_state (cm_conn cm') = Closed
     \<and> cn_messages (cm_conn cm') = []
     \<and> cn_deferred (cm_conn cm') = cn_deferred cn @ cn_messages cn
     \<and> cn_written (cm_conn cm') = cn_written cn
     \<and> cn_stats (cm_conn cm') request_decoding_error = cn_stats cn request_decoding_error + 1"
proof -
  have "gauge_ok cn"
    using gauge.requests.dispatch_loop_kept [OF assms(3)] gauge.inv_resetIdleTimer [OF assms(4)] by blast
  then have "distinct (map fst (cn_messages cn))" by (simp add: gauge_ok_def)
  then show ?thesis
    using assms(1-3)
    by (simp add: dispatch_def resetAllMessages_spec conn_close_def stat_inc_def Let_def)
qed

section \<open>A concrete configuration\<close>

text \<open>
  For concrete runs: a codec whose messages are single bytes, 0 being an error, and a chain with
  one filter that pauses every message, as the router does while it waits for its upstream.
\<close>

definition byte_codec :: "(unit, unit) codec" where
  "byte_codec = \<lparr>co_new = (),
     co_decode = (\<lambda>c buf md. case buf of
        [] \<Rightarrow> Inr (WaitForData, (), [], md)
      | b # bs \<Rightarrow> if b = 0 then Inl (EnvoyException ''zero'')
          else Inr (Done, (), bs, md\<lparr>md_request_id := ucast b, md_origin_message := [b]\<rparr>)),
     co_encode = (\<lambda>md mut buf. Inr (buf, md)),
     co_onError = (\<lambda>md err buf. Inr (buf @ [255]))\<rparr>"

definition pausing_filter :: "(unit, unit, unit) filter_fns" where
  "pausing_filter = (let f = (\<lambda>st. \<lambda>_ _ g nt md mut. \<lparr>fo_status = Inr st, fo_filter = (),
       fo_shared = g, fo_net = nt, fo_metadata = md, fo_mutation = mut, fo_calls = []\<rparr>)
     in \<lparr>ff_onMessageDecoded = f PauseIteration, ff_onMessageEncoded = f ContinueIteration,
         ff_onDestroy = (\<lambda>_ _ nt. nt)\<rparr>)"

definition no_net :: "(unit, unit) net" where
  "no_net = new_net (\<lambda>_. None)"

definition byte_config :: "(unit, unit, unit) config" where
  "byte_config = \<lparr>cf_codec = byte_codec, cf_applicationProtocol = ''byte'', cf_idleTimeout = Some 5,
     cf_filterFactories = [(CodecKind, ())], cf_filters = pausing_filter\<rparr>"

lemmas byte_defs = byte_config_def byte_codec_def pausing_filter_def Let_def


fun handles :: "('c, 'x, 'f) config \<Rightarrow> event list \<Rightarrow> ('c, 'x, 'f) cm \<Rightarrow> ('c, 'x, 'f) cm option" where
  "handles cfg [] cm = Some cm"
| "handles cfg (ev # evs) cm = (case handle cfg ev cm of
     Some (Inr _, cm') \<Rightarrow> handles cfg evs cm'
   | _ \<Rightarrow> None)"

lemma handles_reachable: "reachable cfg g nt cm \<Longrightarrow> handles cfg evs cm = Some cm' \<Longrightarrow> reachable cfg g nt cm'"
  by (induction evs arbitrary: cm) (auto split: option.splits prod.splits sum.splits intro: reachable_step)

declare dispatch_loop.simps [code] send2downstream.simps [code]

definition byte_run :: "event list \<Rightarrow> (unit, unit, unit) cm" where
  "byte_run evs = the (handles byte_config evs (new_cm byte_config () no_net))"

lemma byte_run_reachable:
  "handles byte_config evs (new_cm byte_config () no_net) \<noteq> None \<Longrightarrow> reachable byte_config () no_net (byte_run evs)"
  using handles_reachable [OF reachable_init] by (auto simp: byte_run_def)

lemma byte_run_two:
  "handles byte_config [Read [1, 2] False] (new_cm byte_config () no_net) \<noteq> None \<and>
   map fst (cn_messages (cm_conn (byte_run [Read [1, 2] False]))) = [1, 0]
   \<and> cn_deferred (cm_conn (byte_run [Read [1, 2] False])) = []"
  by code_simp

theorem close_resets_all_witness:
  "map fst (cn_messages (cm_conn (byte_run [Read [1, 2] False]))) = [1, 0]
   \<and> map fst (cn_deferred (onEvent RemoteClose (cm_conn (byte_run [Read [1, 2] False])))) = [1, 0]"
proof -
  have "distinct (map fst (cn_messages (cm_conn (byte_run [Read [1, 2] False]))))"
    using byte_run_two by simp
  from close_resets_all [OF this, of RemoteClose] show ?thesis using byte_run_two by simp
qed

theorem decoding_error_closes_witness:
  "\<exists>cm'. cm_onData byte_config [1, 0] False (new_cm byte_config () no_net) = Some (Inr (), cm')
     \<and> cn_state (cm_conn cm') = Closed \<and> cn_messages (cm_conn cm') = []"
proof -
  let ?cm = "(new_cm byte_config () no_net)\<lparr>cm_reader := Some (new_decoder () Request, [1, 0])\<rparr>"
  let ?l = "dispatch_loop (co_decode (cf_codec byte_config)) (request_callbacks byte_config)
     (new_decoder () Request) [1, 0] (resetIdleTimer (cm_conn ?cm))"
  have "case ?l of Some (Inl (EnvoyException w), _) \<Rightarrow> w = ''zero'' | _ \<Rightarrow> False"
    by code_simp
  then obtain cn where l: "?l = Some (Inl (EnvoyException ''zero''), cn)"
    by (auto split: option.splits prod.splits sum.splits exn.splits)
  have "gauge_ok (cm_conn ?cm)" by (simp add: gauge_ok_def new_cm_def new_conn_def)
  from decoding_error_closes [OF _ _ l this] show ?thesis
    by (auto simp: cm_onData_def new_cm_def byte_defs)
qed

end
