(* ===== verification/Route.thy ===== *)
theory Route
  imports Metadata
begin

text \<open>
  Routing: \<^verbatim>\<open>route/route_matcher_impl.cc\<close>, \<^verbatim>\<open>route/hash_policy_impl.cc\<close> and
  \<^verbatim>\<open>route/config_impl.cc\<close>.

  The protobuf messages of the configuration are records with the fields the code reads.  A header
  matcher of Envoy is a value of the type \<^typ>\<open>'m\<close>; \<^verbatim>\<open>HeaderUtility::matchHeaders\<close>
  is the parameter \<^verbatim>\<open>matchHeaders\<close> and \<^verbatim>\<open>WeightedClusterUtil::pickCluster\<close> the
  parameter \<^verbatim>\<open>pickCluster\<close>, which returns the position of the cluster it picks.
\<close>

section \<open>Configuration messages\<close>

datatype denominator = HUNDRED | TEN_THOUSAND | MILLION

record fractional_percent =
  fp_numerator :: u32
  fp_denominator :: denominator

definition default_percent :: fractional_percent where
  "default_percent = \<lparr>fp_numerator = 0, fp_denominator = HUNDRED\<rparr>"

record runtime_fraction =
  rf_default_value :: fractional_percent
  rf_runtime_key :: string

record mirror_policy_proto =
  mp_cluster :: string
  mp_runtime_fraction :: "runtime_fraction option"

datatype cluster_specifier =
    NoCluster
  | Cluster string
  | WeightedClusters "(string \<times> u32 option) list"

record route_action =
  ra_cluster_specifier :: cluster_specifier
  ra_hash_policy :: "string list"
  ra_request_mirror_policies :: "mirror_policy_proto list"

record 'm route_proto =
  rp_name :: string
  rp_match :: "'m list option"
  rp_route :: route_action
  rp_request_mutation :: "(string \<times> string) list"
  rp_response_mutation :: "(string \<times> string) list"

record 'm route_configuration =
  rc_name :: string
  rc_routes :: "'m route_proto list"

section \<open>Route entries\<close>

record mirror_policy =
  mirror_cluster_name :: string
  mirror_runtime_key :: string
  mirror_default_value :: fractional_percent

definition RequestMirrorPolicyImpl :: "mirror_policy_proto \<Rightarrow> mirror_policy" where
  "RequestMirrorPolicyImpl cfg =
     (case mp_runtime_fraction cfg of
        Some rf \<Rightarrow> \<lparr>mirror_cluster_name = mp_cluster cfg, mirror_runtime_key = rf_runtime_key rf,
                    mirror_default_value = rf_default_value rf\<rparr>
      | None \<Rightarrow> \<lparr>mirror_cluster_name = mp_cluster cfg, mirror_runtime_key = [],
                 mirror_default_value = \<lparr>fp_numerator = 100, fp_denominator = HUNDRED\<rparr>\<rparr>)"

text \<open>\<^verbatim>\<open>featureEnabled\<close> of the runtime of Envoy is a parameter.\<close>

type_synonym feature_enabled = "string \<Rightarrow> fractional_percent \<Rightarrow> u64 \<Rightarrow> bool"

definition shouldShadow :: "feature_enabled \<Rightarrow> mirror_policy \<Rightarrow> u64 \<Rightarrow> bool" where
  "shouldShadow featureEnabled p stable_random =
     featureEnabled (mirror_runtime_key p) (mirror_default_value p) stable_random"

definition buildMirrorPolicies :: "route_action \<Rightarrow> mirror_policy list" where
  "buildMirrorPolicies ra = map RequestMirrorPolicyImpl (ra_request_mirror_policies ra)"

text \<open>
  \<^verbatim>\<open>re_hash_policy\<close> is None when there is no policy object.  The total weight is only set
  for weighted clusters, and only read for them.
\<close>

record 'm route_entry =
  re_route_name :: string
  re_cluster_name :: string
  re_config_headers :: "'m list"
  re_weighted_clusters :: "(string \<times> u64) list"
  re_total_cluster_weight :: u64
  re_request_mutation :: "(string \<times> string) list"
  re_response_mutation :: "(string \<times> string) list"
  re_hash_policy :: "string list option"
  re_mirror_policies :: "mirror_policy list"

text \<open>\<^verbatim>\<open>PROTOBUF_GET_WRAPPED_REQUIRED\<close> throws when the weight is not set.\<close>

fun weighted_cluster_entries :: "(string \<times> u32 option) list \<Rightarrow> (string \<times> u64) list res" where
  "weighted_cluster_entries [] = Inr []"
| "weighted_cluster_entries ((name, None) # cs) = Inl (EnvoyException ''Field 'weight' is missing'')"
| "weighted_cluster_entries ((name, Some w) # cs) =
     bindr (weighted_cluster_entries cs) (\<lambda>rest. Inr ((name, ucast w) # rest))"

definition cluster_of :: "route_action \<Rightarrow> string" where
  "cluster_of ra = (case ra_cluster_specifier ra of Cluster c \<Rightarrow> c | _ \<Rightarrow> [])"

definition RouteEntryImpl :: "'m route_proto \<Rightarrow> 'm route_entry res" where
  "RouteEntryImpl r =
     bindr (case ra_cluster_specifier (rp_route r) of
              WeightedClusters cs \<Rightarrow> weighted_cluster_entries cs
            | _ \<Rightarrow> Inr [])
       (\<lambda>weighted. Inr
          \<lparr>re_route_name = rp_name r,
           re_cluster_name = cluster_of (rp_route r),
           re_config_headers = (case rp_match r of Some hs \<Rightarrow> hs | None \<Rightarrow> []),
           re_weighted_clusters = weighted,
           re_total_cluster_weight = sum_list (map snd weighted),
           re_request_mutation = rp_request_mutation r,
           re_response_mutation = rp_response_mutation r,
           re_hash_policy = (if length (ra_hash_policy (rp_route r)) > 0
                             then Some (ra_hash_policy (rp_route r)) else None),
           re_mirror_policies = buildMirrorPolicies (rp_route r)\<rparr>)"

definition requestMutation :: "'m route_entry \<Rightarrow> mutation \<Rightarrow> mutation" where
  "requestMutation re mut = foldl (\<lambda>m kv. map_assign (fst kv) (snd kv) m) mut (re_request_mutation re)"

definition responseMutation :: "'m route_entry \<Rightarrow> mutation \<Rightarrow> mutation" where
  "responseMutation re mut = foldl (\<lambda>m kv. map_assign (fst kv) (snd kv) m) mut (re_response_mutation re)"

text \<open>A route: the entry it belongs to and the cluster it names.\<close>

record 'm route =
  rt_entry :: "'m route_entry"
  rt_clusterName :: string

type_synonym pick_cluster = "u64 list \<Rightarrow> u64 \<Rightarrow> u64 \<Rightarrow> nat option"

definition clusterEntry :: "pick_cluster \<Rightarrow> u64 \<Rightarrow> 'm route_entry \<Rightarrow> 'm route option" where
  "clusterEntry pickCluster random_value re =
     (if re_weighted_clusters re = [] then Some \<lparr>rt_entry = re, rt_clusterName = re_cluster_name re\<rparr>
      else
        (case pickCluster (map snd (re_weighted_clusters re)) (re_total_cluster_weight re) random_value of
           Some i \<Rightarrow> Some \<lparr>rt_entry = re, rt_clusterName = fst (re_weighted_clusters re ! i)\<rparr>
         | None \<Rightarrow> None))"

type_synonym 'm match_headers = "header_map \<Rightarrow> 'm list \<Rightarrow> bool"

definition headersMatch :: "'m match_headers \<Rightarrow> 'x metadata \<Rightarrow> 'm route_entry \<Rightarrow> bool" where
  "headersMatch matchHeaders md re \<longleftrightarrow>
     re_config_headers re = [] \<or> matchHeaders (md_headers md) (re_config_headers re)"

definition route_matches ::
  "'m match_headers \<Rightarrow> pick_cluster \<Rightarrow> 'x metadata \<Rightarrow> u64 \<Rightarrow> 'm route_entry \<Rightarrow> 'm route option" where
  "route_matches matchHeaders pickCluster md random_value re =
     (if \<not> headersMatch matchHeaders md re then None else clusterEntry pickCluster random_value re)"

section \<open>The route table\<close>

fun RouteMatcherImpl :: "'m route_proto list \<Rightarrow> 'm route_entry list res" where
  "RouteMatcherImpl [] = Inr []"
| "RouteMatcherImpl (r # rs) =
     bindr (RouteEntryImpl r) (\<lambda>re. bindr (RouteMatcherImpl rs) (\<lambda>res. Inr (re # res)))"

fun matcher_route ::
  "'m match_headers \<Rightarrow> pick_cluster \<Rightarrow> 'x metadata \<Rightarrow> u64 \<Rightarrow> 'm route_entry list \<Rightarrow> 'm route option" where
  "matcher_route matchHeaders pickCluster md random_value [] = None"
| "matcher_route matchHeaders pickCluster md random_value (re # res) =
     (case route_matches matchHeaders pickCluster md random_value re of
        Some r \<Rightarrow> Some r
      | None \<Rightarrow> matcher_route matchHeaders pickCluster md random_value res)"

text \<open>\<^verbatim>\<open>Route::ConfigImpl\<close>; None is \<^verbatim>\<open>NullConfigImpl\<close>.\<close>

type_synonym 'm route_table = "'m route_entry list option"

definition new_route_table :: "'m route_configuration \<Rightarrow> 'm route_table res" where
  "new_route_table rc = bindr (RouteMatcherImpl (rc_routes rc)) (\<lambda>res. Inr (Some res))"

definition config_route ::
  "'m match_headers \<Rightarrow> pick_cluster \<Rightarrow> 'm route_table \<Rightarrow> 'x metadata \<Rightarrow> u64 \<Rightarrow> 'm route option" where
  "config_route matchHeaders pickCluster tab md random_value =
     (case tab of
        Some res \<Rightarrow> matcher_route matchHeaders pickCluster md random_value res
      | None \<Rightarrow> None)"

section \<open>The hash policy\<close>

text \<open>
  \<^verbatim>\<open>generateHash\<close>: \<^verbatim>\<open>getString\<close> returns a string by value, so the view pushed into
  the vector is left without the string it views; hashing the vector reads through it.
\<close>

fun generateHash :: "string list \<Rightarrow> 'x metadata \<Rightarrow> u64 option res" where
  "generateHash [] md = Inr None"
| "generateHash (key # keys) md =
     bindr (getString key md) (\<lambda>value.
       bindr (getString key md) (\<lambda>_. Inl (Undefined ''view of a destroyed string'')))"

section \<open>Lemmas\<close>

lemma weighted_cluster_entries_spec:
  "weighted_cluster_entries cs = Inr ws \<Longrightarrow>
     map fst ws = map fst cs \<and> map (Some \<circ> snd) ws = map (map_option ucast \<circ> snd) cs"
proof (induction cs arbitrary: ws rule: weighted_cluster_entries.induct)
  case (3 name w cs)
  then show ?case by (auto elim!: bindr_InrE)
qed simp_all

lemma requestMutation_lookup:
  "map_ok mut \<Longrightarrow> map_find (requestMutation re mut) = map_find mut ++ map_of (rev (re_request_mutation re))"
  using smap.lookup_assign_all unfolding smap.assign_all_def requestMutation_def .

lemma requestMutation_ok: "map_ok mut \<Longrightarrow> map_ok (requestMutation re mut)"
  using smap.ok_assign_all unfolding smap.assign_all_def requestMutation_def .

lemma clusterEntry_entry: "clusterEntry pick rv re = Some r \<Longrightarrow> rt_entry r = re"
  by (auto simp: clusterEntry_def split: if_splits option.splits)

lemma matcher_route_split:
  assumes "matcher_route mh pick md rv res = Some r"
  shows "\<exists>pre re post. res = pre @ re # post \<and> route_matches mh pick md rv re = Some r
     \<and> (\<forall>p \<in> set pre. route_matches mh pick md rv p = None)"
  using assms
proof (induction res)
  case (Cons a res)
  show ?case
  proof (cases "route_matches mh pick md rv a")
    case None
    with Cons obtain pre re post where "res = pre @ re # post" "route_matches mh pick md rv re = Some r"
      "\<forall>p \<in> set pre. route_matches mh pick md rv p = None" by auto
    with None show ?thesis by (intro exI [of _ "a # pre"]) auto
  next
    case (Some r')
    with Cons.prems show ?thesis by (intro exI [of _ "[]"]) auto
  qed
qed simp

section \<open>The first match wins\<close>

text \<open>The condition of a route and the clusters it names, as the configuration says them.\<close>

definition proto_matches :: "'m match_headers \<Rightarrow> 'x metadata \<Rightarrow> 'm route_proto \<Rightarrow> bool" where
  "proto_matches mh md p = (case rp_match p of
     None \<Rightarrow> True
   | Some hs \<Rightarrow> hs = [] \<or> mh (md_headers md) hs)"

definition proto_clusters :: "'m route_proto \<Rightarrow> string set" where
  "proto_clusters p = (case ra_cluster_specifier (rp_route p) of
     Cluster c \<Rightarrow> {c}
   | WeightedClusters cs \<Rightarrow> if cs = [] then {[]} else fst ` set cs
   | NoCluster \<Rightarrow> {[]})"

lemma RouteEntryImpl_fields:
  assumes "RouteEntryImpl p = Inr re"
  shows "headersMatch mh md re \<longleftrightarrow> proto_matches mh md p"
    and "re_request_mutation re = rp_request_mutation p"
    and "fst ` set (re_weighted_clusters re) = (case ra_cluster_specifier (rp_route p) of
           WeightedClusters cs \<Rightarrow> fst ` set cs | _ \<Rightarrow> {})"
    and "re_cluster_name re = cluster_of (rp_route p)"
proof -
  have w: "fst ` set ws = fst ` set cs" if "weighted_cluster_entries cs = Inr ws" for ws cs
    using weighted_cluster_entries_spec [OF that] by (metis list.set_map)
  show "headersMatch mh md re \<longleftrightarrow> proto_matches mh md p" "re_request_mutation re = rp_request_mutation p"
    "re_cluster_name re = cluster_of (rp_route p)"
    using assms by (auto simp: RouteEntryImpl_def headersMatch_def proto_matches_def elim!: bindr_InrE
        split: option.splits)
  show "fst ` set (re_weighted_clusters re) = (case ra_cluster_specifier (rp_route p) of
           WeightedClusters cs \<Rightarrow> fst ` set cs | _ \<Rightarrow> {})"
  proof (cases "ra_cluster_specifier (rp_route p)")
    case (WeightedClusters cs)
    with assms obtain ws where "weighted_cluster_entries cs = Inr ws" "re_weighted_clusters re = ws"
      by (auto simp: RouteEntryImpl_def elim!: bindr_InrE)
    with w WeightedClusters show ?thesis by simp
  qed (use assms in \<open>auto simp: RouteEntryImpl_def elim!: bindr_InrE\<close>)
qed

lemma clusterEntry_cluster:
  assumes "RouteEntryImpl p = Inr re" "clusterEntry pick rv re = Some r"
    and "\<forall>ws t v i. pick ws t v = Some i \<longrightarrow> i < length ws"
  shows "rt_clusterName r \<in> proto_clusters p"
proof (cases "re_weighted_clusters re = []")
  case True
  then have "fst ` set (re_weighted_clusters re) = {}" by simp
  with True assms(2) show ?thesis
    unfolding RouteEntryImpl_fields(3) [OF assms(1)]
    by (auto simp: clusterEntry_def proto_clusters_def cluster_of_def RouteEntryImpl_fields(4) [OF assms(1)]
        split: cluster_specifier.splits)
next
  case False
  with assms(2,3) obtain i where "i < length (re_weighted_clusters re)"
      "rt_clusterName r = fst (re_weighted_clusters re ! i)"
    by (fastforce simp: clusterEntry_def split: option.splits)
  then have "rt_clusterName r \<in> fst ` set (re_weighted_clusters re)" by simp
  then show ?thesis
    unfolding RouteEntryImpl_fields(3) [OF assms(1)]
    by (auto simp: proto_clusters_def split: cluster_specifier.splits)
qed

lemma RouteMatcherImpl_list_all2:
  "RouteMatcherImpl ps = Inr res \<Longrightarrow> list_all2 (\<lambda>p re. RouteEntryImpl p = Inr re) ps res"
  by (induction ps arbitrary: res) (auto elim!: bindr_InrE)

lemma route_matches_iff:
  assumes "RouteEntryImpl p = Inr re" "\<forall>ws t v. ws \<noteq> [] \<longrightarrow> pick ws t v \<noteq> None"
  shows "route_matches mh pick md rv re = None \<longleftrightarrow> \<not> proto_matches mh md p"
proof (cases "re_weighted_clusters re = []")
  case False
  then obtain i where "pick (map snd (re_weighted_clusters re)) (re_total_cluster_weight re) rv = Some i"
    using assms(2) by fastforce
  with False show ?thesis
    by (simp add: route_matches_def RouteEntryImpl_fields(1) [OF assms(1)] clusterEntry_def)
qed (simp add: route_matches_def RouteEntryImpl_fields(1) [OF assms(1)] clusterEntry_def)

text \<open>
  C8: when a route configuration is accepted and Envoy's choice among weighted clusters names one
  of them, a request is routed by the first route of the configuration whose header matchers all
  hold for the metadata of the request, to a cluster this route names and with the mutation it
  asks for; and it finds no route exactly when no route of the configuration matches.
\<close>

theorem route_first_match:
  assumes "new_route_table rc = Inr tab"
    and "\<forall>ws t v i. pick ws t v = Some i \<longrightarrow> i < length ws"
    and "\<forall>ws t v. ws \<noteq> [] \<longrightarrow> pick ws t v \<noteq> None"
  shows "case config_route mh pick tab md rv of
     Some r \<Rightarrow> \<exists>pre p post. rc_routes rc = pre @ p # post \<and> proto_matches mh md p
         \<and> (\<forall>q \<in> set pre. \<not> proto_matches mh md q) \<and> rt_clusterName r \<in> proto_clusters p
         \<and> (\<forall>mut. map_ok mut \<longrightarrow> map_find (requestMutation (rt_entry r) mut) =
                map_find mut ++ map_of (rev (rp_request_mutation p)))
   | None \<Rightarrow> \<forall>p \<in> set (rc_routes rc). \<not> proto_matches mh md p"
proof -
  from assms(1) obtain res where tab: "tab = Some res" and "RouteMatcherImpl (rc_routes rc) = Inr res"
    by (auto simp: new_route_table_def elim!: bindr_InrE)
  then have "list_all2 (\<lambda>p re. RouteEntryImpl p = Inr re) (rc_routes rc) res"
    by (simp add: RouteMatcherImpl_list_all2)
  then have main: "case matcher_route mh pick md rv res of
     Some r \<Rightarrow> \<exists>pre p post re. rc_routes rc = pre @ p # post \<and> proto_matches mh md p
         \<and> (\<forall>q \<in> set pre. \<not> proto_matches mh md q) \<and> RouteEntryImpl p = Inr re
         \<and> clusterEntry pick rv re = Some r
   | None \<Rightarrow> \<forall>p \<in> set (rc_routes rc). \<not> proto_matches mh md p"
  proof (induction rule: list_all2_induct)
    case (Cons p ps re res)
    note m = route_matches_iff [OF Cons(1) assms(3), where mh = mh and md = md and rv = rv]
    show ?case
    proof (cases "proto_matches mh md p")
      case True
      with m obtain r where r: "route_matches mh pick md rv re = Some r" by auto
      then have eq: "matcher_route mh pick md rv (re # res) = Some r" and "clusterEntry pick rv re = Some r"
        by (simp_all add: route_matches_def split: if_splits)
      with Cons(1) True show ?thesis unfolding eq option.case(2)
        by (intro exI [of _ "[]"] exI [of _ p] exI [of _ ps] exI [of _ re] conjI) simp_all
    next
      case False
      with m have n: "matcher_route mh pick md rv (re # res) = matcher_route mh pick md rv res" by simp
      show ?thesis
      proof (cases "matcher_route mh pick md rv res")
        case None
        with n Cons(3) False show ?thesis by simp
      next
        case (Some r)
        with Cons(3) obtain pre p' post re' where "ps = pre @ p' # post" "proto_matches mh md p'"
          "\<forall>q \<in> set pre. \<not> proto_matches mh md q" "RouteEntryImpl p' = Inr re'"
          "clusterEntry pick rv re' = Some r" by auto
        with False show ?thesis unfolding n Some option.case(2)
          by (intro exI [of _ "p # pre"] exI [of _ p'] exI [of _ post] exI [of _ re'] conjI) simp_all
      qed
    qed
  qed simp
  have "rt_clusterName r \<in> proto_clusters p \<and> re_request_mutation (rt_entry r) = rp_request_mutation p"
    if "RouteEntryImpl p = Inr re" "clusterEntry pick rv re = Some r" for p re r
    using clusterEntry_cluster [OF that assms(2)] clusterEntry_entry [OF that(2)]
      RouteEntryImpl_fields(2) [OF that(1)] by simp
  note fact = this
  show ?thesis
  proof (cases "matcher_route mh pick md rv res")
    case None
    with main show ?thesis by (simp add: tab config_route_def)
  next
    case (Some r)
    with main obtain pre p post re where "rc_routes rc = pre @ p # post" "proto_matches mh md p"
      "\<forall>q \<in> set pre. \<not> proto_matches mh md q" "RouteEntryImpl p = Inr re" "clusterEntry pick rv re = Some r"
      by auto
    with fact [of p re r] show ?thesis
      unfolding tab config_route_def option.case(2) Some
      by (intro exI [of _ pre] exI [of _ p] exI [of _ post] conjI) (simp_all add: requestMutation_lookup)
  qed
qed

definition sample_routes :: "(string \<times> string) route_configuration" where
  "sample_routes = (let r = \<lparr>rp_name = ''r'', rp_match = None,
       rp_route = \<lparr>ra_cluster_specifier = WeightedClusters [(''green'', Some 1)], ra_hash_policy = [],
         ra_request_mirror_policies = []\<rparr>, rp_request_mutation = [(''k'', ''v'')], rp_response_mutation = []\<rparr>
     in \<lparr>rc_name = ''routes'', rc_routes = [r\<lparr>rp_match := Some [(''user'', ''bob'')],
          rp_route := (rp_route r)\<lparr>ra_cluster_specifier := Cluster ''blue''\<rparr>\<rparr>, r]\<rparr>)"

theorem route_first_match_witness:
  "\<exists>tab r. new_route_table sample_routes = Inr tab
     \<and> config_route (\<lambda>hs ms. set ms \<subseteq> set hs) (\<lambda>ws t v. if ws = [] then None else Some 0) tab
         (new_metadata :: unit metadata) 7 = Some r
     \<and> rt_clusterName r = ''green''"
proof -
  let ?mh = "\<lambda>hs ms. set ms \<subseteq> set hs"
  let ?pick = "\<lambda>(ws :: u64 list) (t :: u64) (v :: u64). if ws = [] then None else Some (0 :: nat)"
  let ?md = "new_metadata :: unit metadata"
  obtain tab where tab: "new_route_table sample_routes = Inr tab"
    by (simp add: new_route_table_def sample_routes_def RouteEntryImpl_def Let_def)
  have "\<forall>ws t v i. ?pick ws t v = Some i \<longrightarrow> i < length ws" "\<forall>ws t v. ws \<noteq> [] \<longrightarrow> ?pick ws t v \<noteq> None"
    by auto
  note t = route_first_match [OF tab this, of ?mh ?md 7]
  show ?thesis
  proof (cases "config_route ?mh ?pick tab ?md 7")
    case None
    with t show ?thesis by (simp add: sample_routes_def proto_matches_def Let_def)
  next
    case (Some r)
    with t have "rt_clusterName r = ''green''"
      by (auto simp: sample_routes_def proto_matches_def proto_clusters_def new_metadata_def Let_def
          Cons_eq_append_conv)
    with tab Some show ?thesis by blast
  qed
qed

end
