(* ===== verification/Tracing.thy ===== *)
theory Tracing
  imports Route
begin

text \<open>
  Request ids and tracing: \<^verbatim>\<open>request_id/config.cc\<close> and \<^verbatim>\<open>tracing/tracer_impl.cc\<close>,
  \<^verbatim>\<open>tracing/tracer_manager_impl.cc\<close>.

  The tracing driver of Envoy is its \<^verbatim>\<open>injectContext\<close>: the headers it puts into a
  message.  A span is what the code does to it: its name, tags, logs and whether it is finished.
  The uuid generator, \<^verbatim>\<open>StringUtil::atoull\<close> and the stream information are parameters.
\<close>

section \<open>Request ids\<close>

datatype reason = NotTraceable | HealthCheck | Sampling | ServiceForced | ClientForced

definition UUID_LENGTH :: nat where "UUID_LENGTH = 36"
definition TRACE_BYTE_POSITION :: nat where "TRACE_BYTE_POSITION = 14"
definition TRACE_SAMPLED :: char where "TRACE_SAMPLED = CHR ''9''"
definition TRACE_FORCED :: char where "TRACE_FORCED = CHR ''a''"
definition TRACE_CLIENT :: char where "TRACE_CLIENT = CHR ''b''"
definition NO_TRACE :: char where "NO_TRACE = CHR ''4''"

lemmas trace_bytes = UUID_LENGTH_def TRACE_BYTE_POSITION_def TRACE_SAMPLED_def TRACE_FORCED_def
  TRACE_CLIENT_def NO_TRACE_def

definition rid_set :: "string \<Rightarrow> bool \<Rightarrow> 'x metadata \<Rightarrow> (bool \<times> 'x metadata) res" where
  "rid_set uuid force md =
     (if force then Inr (True, putString RequestUUID uuid md)
      else bindr (getString RequestUUID md) (\<lambda>id.
        if id \<noteq> [] then Inr (False, md) else Inr (True, putString RequestUUID uuid md)))"

definition rid_get :: "'x metadata \<Rightarrow> string res" where
  "rid_get md = getString RequestUUID md"

definition toInteger :: "(string \<Rightarrow> u64 option) \<Rightarrow> 'x metadata \<Rightarrow> u64 option res" where
  "toInteger atoull md = bindr (getString RequestUUID md) (\<lambda>uuid.
     if uuid = [] then Inr None
     else if length uuid < 8 then Inr None
     else Inr (atoull (take 8 uuid)))"

definition getTraceReason :: "'x metadata \<Rightarrow> reason res" where
  "getTraceReason md = bindr (getString RequestUUID md) (\<lambda>uuid.
     if uuid = [] then Inr NotTraceable
     else if length uuid \<noteq> UUID_LENGTH then Inr NotTraceable
     else let c = uuid ! TRACE_BYTE_POSITION in
       if c = TRACE_FORCED then Inr ServiceForced
       else if c = TRACE_SAMPLED then Inr Sampling
       else if c = TRACE_CLIENT then Inr ClientForced
       else Inr NotTraceable)"

definition trace_byte :: "reason \<Rightarrow> char option" where
  "trace_byte r = (case r of ServiceForced \<Rightarrow> Some TRACE_FORCED | ClientForced \<Rightarrow> Some TRACE_CLIENT
     | Sampling \<Rightarrow> Some TRACE_SAMPLED | NotTraceable \<Rightarrow> Some NO_TRACE | HealthCheck \<Rightarrow> None)"

definition setTraceReason :: "reason \<Rightarrow> 'x metadata \<Rightarrow> 'x metadata res" where
  "setTraceReason r md = bindr (getString RequestUUID md) (\<lambda>uuid.
     if uuid = [] then Inr md
     else if length uuid \<noteq> UUID_LENGTH then Inr md
     else let uuid' = (case trace_byte r of Some c \<Rightarrow> uuid[TRACE_BYTE_POSITION := c] | None \<Rightarrow> uuid)
       in Inr (putString RequestUUID uuid' md))"

section \<open>Spans\<close>

record span =
  sp_name :: string
  sp_tags :: "(string \<times> string) list"
  sp_logs :: "(nat \<times> string) list"
  sp_finished :: bool

definition setTag :: "string \<Rightarrow> string \<Rightarrow> span \<Rightarrow> span" where
  "setTag k v sp = sp\<lparr>sp_tags := sp_tags sp @ [(k, v)]\<rparr>"

definition finishSpan :: "span \<Rightarrow> span" where
  "finishSpan sp = sp\<lparr>sp_finished := True\<rparr>"

datatype operation_name = Ingress | Egress

definition operation_toString :: "operation_name \<Rightarrow> string" where
  "operation_toString n = (case n of Ingress \<Rightarrow> ''ingress'' | Egress \<Rightarrow> ''egress'')"

record tracing_config =
  tc_operation_name :: operation_name
  tc_client_sampling :: fractional_percent
  tc_random_sampling :: fractional_percent
  tc_overall_sampling :: fractional_percent
  tc_verbose :: bool
  tc_max_tag_length :: u32

text \<open>What the code reads of the stream information: the peer, the cluster and observability name of
  the upstream host, and the times of the events \<^verbatim>\<open>annotateVerbose\<close> logs, in its order.\<close>

record stream_info =
  si_peer_address :: string
  si_upstream_host :: "(string \<times> string) option"
  si_start_time :: nat
  si_timing :: "nat option list"
  si_health_check :: bool
  si_trace_reason :: reason

definition shouldTraceRequest :: "stream_info \<Rightarrow> reason \<times> bool" where
  "shouldTraceRequest si =
     (if si_health_check si then (HealthCheck, False)
      else (si_trace_reason si, si_trace_reason si \<in> {ClientForced, ServiceForced, Sampling}))"

definition timing_labels :: "string list" where
  "timing_labels = [''last_downstream_rx_byte_received'', ''first_upstream_tx_byte_sent'',
     ''last_upstream_tx_byte_sent'', ''first_upstream_rx_byte_received'',
     ''last_upstream_rx_byte_received'', ''first_downstream_tx_byte_sent'',
     ''last_downstream_tx_byte_sent'']"

definition annotateVerbose :: "stream_info \<Rightarrow> span \<Rightarrow> span" where
  "annotateVerbose si sp = foldl (\<lambda>sp tl. case tl of
       (Some t, label) \<Rightarrow> sp\<lparr>sp_logs := sp_logs sp @ [(si_start_time si + t, label)]\<rparr>
     | (None, _) \<Rightarrow> sp) sp (zip (si_timing si) timing_labels)"

definition setCommonTags :: "stream_info \<Rightarrow> tracing_config \<Rightarrow> span \<Rightarrow> span" where
  "setCommonTags si tc sp =
     (let sp1 = setTag ''component'' ''proxy'' (setTag ''peer.address'' (si_peer_address si) sp);
          sp2 = (case si_upstream_host si of
                   Some (cluster, observability) \<Rightarrow>
                     setTag ''upstream_cluster.name'' observability (setTag ''upstream_cluster'' cluster sp1)
                 | None \<Rightarrow> sp1)
      in if tc_verbose tc then annotateVerbose si sp2 else sp2)"

text \<open>The tags of the string properties, in key order.\<close>

definition tag_metadata :: "string \<Rightarrow> 'x metadata \<Rightarrow> span \<Rightarrow> span" where
  "tag_metadata prefix md sp =
     forEach (\<lambda>key val sp'. (True, setTag (prefix @ key) val sp')) md sp"

definition finalizeSpanWithResponse :: "'x metadata \<Rightarrow> stream_info \<Rightarrow> tracing_config \<Rightarrow> span \<Rightarrow> span" where
  "finalizeSpanWithResponse md si tc sp =
     (let sp1 = setTag ''response_size'' (show_nat (unat (md_header_size md + md_body_size md)))
                  (setCommonTags si tc sp);
          sp2 = tag_metadata ''response metadata: '' md sp1;
          sp3 = (if md_response_status md = RS_Error then setTag ''error'' ''true'' sp2 else sp2)
      in finishSpan sp3)"

definition finalizeSpanWithoutResponse :: "stream_info \<Rightarrow> tracing_config \<Rightarrow> response_status \<Rightarrow> span \<Rightarrow> span" where
  "finalizeSpanWithoutResponse si tc st sp =
     (let sp1 = setCommonTags si tc sp
      in finishSpan (if st = RS_Error then setTag ''error'' ''true'' sp1 else sp1))"

section \<open>The tracer\<close>

definition tracing_headers :: "string list" where
  "tracing_headers = [''x-request-id'', ''x-b3-traceid'', ''x-b3-spanid'', ''x-b3-parentspanid'',
     ''x-b3-sampled'', ''x-b3-flags'', ''x-ot-span-context'', ''x-cloud-trace-context'',
     ''traceparent'', ''grpc-trace-bin'']"

fun copy_tracing_headers :: "string list \<Rightarrow> 'x metadata \<Rightarrow> mutation \<Rightarrow> mutation res" where
  "copy_tracing_headers [] md mut = Inr mut"
| "copy_tracing_headers (h # hs) md mut =
     bindr (getString h md) (\<lambda>val.
       copy_tracing_headers hs md (if val \<noteq> [] then map_assign h val mut else mut))"

definition tag_if_set :: "string \<Rightarrow> string \<Rightarrow> span \<Rightarrow> span" where
  "tag_if_set k v sp = (if v \<noteq> [] then setTag k v sp else sp)"

record tracer =
  tr_inject :: "span \<Rightarrow> (string \<times> string) list"
  tr_node_name :: string
  tr_zone_name :: string

definition span_name :: "tracing_config \<Rightarrow> 'x metadata \<Rightarrow> string" where
  "span_name tc md = operation_toString Ingress
     @ (if tc_operation_name tc = Egress then '' '' @ md_operation_name md else [])"

definition startSpan ::
  "tracer \<Rightarrow> tracing_config \<Rightarrow> string \<Rightarrow> 'x metadata \<Rightarrow> mutation
   \<Rightarrow> (span \<times> 'x metadata \<times> mutation) res" where
  "startSpan tr tc cluster_name md mut =
     (let sp = \<lparr>sp_name = span_name tc md, sp_tags = [], sp_logs = [], sp_finished = False\<rparr>;
          md1 = foldl (\<lambda>m kv. ctx_set (fst kv) (snd kv) m) md (tr_inject tr sp)
      in bindr (copy_tracing_headers tracing_headers md1 mut) (\<lambda>mut1.
         bindr (getString RequestUUID md1) (\<lambda>xRequestId.
         bindr (getString ClientTraceId md1) (\<lambda>clientTraceId.
           let sp1 = tag_if_set ''guid:x-client-trace-id'' clientTraceId
                       (tag_if_set ''guid:x-request-id'' xRequestId sp);
               sp2 = setTag ''zone'' (tr_zone_name tr) (setTag ''node_id'' (tr_node_name tr)
                       (setTag ''request_id'' (show_nat (unat (md_request_id md1)))
                       (setTag ''request_size'' (show_nat (unat (md_header_size md1 + md_body_size md1)))
                       (setTag ''upstream_cluster.name'' cluster_name sp1))))
           in Inr (tag_metadata ''request metadata: '' md1 sp2, md1, mut1)))))"

text \<open>\<^verbatim>\<open>NullTracer::startSpan\<close>: a span that records nothing.\<close>

section \<open>The tracer manager\<close>

text \<open>The manager caches a weak reference per hash of a configuration; \<^verbatim>\<open>alive\<close> says which
  of the tracers still exist.  A tracer is a number, 0 the null tracer.\<close>

record tracer_manager =
  tm_tracers :: "(u64 \<times> nat) list"
  tm_next :: nat

definition removeExpiredCacheEntries :: "(nat \<Rightarrow> bool) \<Rightarrow> tracer_manager \<Rightarrow> tracer_manager" where
  "removeExpiredCacheEntries alive tm = tm\<lparr>tm_tracers := filter (\<lambda>e. alive (snd e)) (tm_tracers tm)\<rparr>"

definition getOrCreateMetaProtocolTracer ::
  "(nat \<Rightarrow> bool) \<Rightarrow> u64 option \<Rightarrow> tracer_manager \<Rightarrow> nat \<times> tracer_manager" where
  "getOrCreateMetaProtocolTracer alive config_hash tm =
     (case config_hash of
        None \<Rightarrow> (0, tm)
      | Some cache_key \<Rightarrow>
          (case map_of (tm_tracers tm) cache_key of
             Some t \<Rightarrow>
               if alive t then (t, tm)
               else let tm1 = removeExpiredCacheEntries alive tm; n = Suc (tm_next tm1)
                    in (n, tm1\<lparr>tm_tracers := (cache_key, n) # tm_tracers tm1, tm_next := n\<rparr>)
           | None \<Rightarrow>
               let tm1 = removeExpiredCacheEntries alive tm; n = Suc (tm_next tm1)
               in (n, tm1\<lparr>tm_tracers := (cache_key, n) # tm_tracers tm1, tm_next := n\<rparr>)))"

section \<open>The sampling decision\<close>

text \<open>
  \<^verbatim>\<open>Router::mutateTracingRequestMetadata\<close>.  The two forms of the runtime's
  \<^verbatim>\<open>featureEnabled\<close>, without and with a stable random value, are the parameters
  \<^verbatim>\<open>fe1\<close> and \<^verbatim>\<open>fe\<close>.
\<close>

record sampling_env =
  se_atoull :: "string \<Rightarrow> u64 option"
  se_featureEnabled1 :: "string \<Rightarrow> fractional_percent \<Rightarrow> bool"
  se_featureEnabled :: feature_enabled

definition first_reason ::
  "sampling_env \<Rightarrow> tracing_config \<Rightarrow> u64 \<Rightarrow> 'x metadata \<Rightarrow> reason option res" where
  "first_reason se tc result md =
     bindr (getString ClientTraceId md) (\<lambda>client.
     bindr (getString EnvoyForceTrace md) (\<lambda>force.
       Inr (if client \<noteq> [] \<and> se_featureEnabled1 se ''tracing.client_enabled'' (tc_client_sampling tc)
            then Some ClientForced
            else if force \<noteq> [] then Some ServiceForced
            else if se_featureEnabled se ''tracing.random_sampling'' (tc_random_sampling tc) result
            then Some Sampling
            else None)))"

definition mutateTracingRequestMetadata ::
  "sampling_env \<Rightarrow> tracing_config \<Rightarrow> bool \<Rightarrow> 'x metadata \<Rightarrow> (reason \<times> 'x metadata) res" where
  "mutateTracingRequestMetadata se tc is_first_span md =
     bindr (toInteger (se_atoull se) md) (\<lambda>rid_to_integer.
       case rid_to_integer of
         None \<Rightarrow> Inr (NotTraceable, md)
       | Some v \<Rightarrow>
           let result = v mod 10000 in
           bindr (getTraceReason md) (\<lambda>r0.
             if \<not> is_first_span then Inr (r0, md)
             else bindr (first_reason se tc result md) (\<lambda>fr.
               bindr (case fr of
                        Some r \<Rightarrow> bindr (setTraceReason r md) (\<lambda>md1. Inr (r, md1))
                      | None \<Rightarrow> Inr (r0, md)) (\<lambda>(r, md1).
                 if r \<noteq> NotTraceable
                    \<and> \<not> se_featureEnabled se ''tracing.global_enabled'' (tc_overall_sampling tc) result
                 then bindr (setTraceReason NotTraceable md1) (\<lambda>md2. Inr (NotTraceable, md2))
                 else Inr (r, md1)))))"

text \<open>\<^verbatim>\<open>Router::setXRequestID\<close> and \<^verbatim>\<open>Router::traceRequest\<close>.\<close>

definition setXRequestID :: "string \<Rightarrow> 'x metadata \<Rightarrow> mutation \<Rightarrow> (bool \<times> 'x metadata \<times> mutation) res" where
  "setXRequestID uuid md mut =
     bindr (rid_set uuid False md) (\<lambda>(modified, md1).
       if modified then bindr (rid_get md1) (\<lambda>id. Inr (True, md1, map_assign RequestUUID id mut))
       else Inr (False, md1, mut))"

definition traceRequest ::
  "sampling_env \<Rightarrow> tracer option \<Rightarrow> tracing_config \<Rightarrow> bool \<Rightarrow> string \<Rightarrow> 'x metadata \<Rightarrow> mutation
   \<Rightarrow> (span option \<times> 'x metadata \<times> mutation) res" where
  "traceRequest se tr tc is_first_span cluster_name md mut =
     bindr (mutateTracingRequestMetadata se tc is_first_span md) (\<lambda>(r, md1).
       if r = NotTraceable \<or> r = HealthCheck then Inr (None, md1, mut)
       else case tr of
         None \<Rightarrow> Inr (Some \<lparr>sp_name = [], sp_tags = [], sp_logs = [], sp_finished = False\<rparr>, md1, mut)
       | Some t \<Rightarrow> bindr (startSpan t tc cluster_name md1 mut) (\<lambda>(sp, md2, mut2). Inr (Some sp, md2, mut2)))"

section \<open>The decision travels with the request\<close>

lemma setTraceReason_uuid:
  assumes "getString RequestUUID md = Inr uuid" "length uuid = UUID_LENGTH" "trace_byte r = Some c"
  shows "setTraceReason r md = Inr (putString RequestUUID (uuid[TRACE_BYTE_POSITION := c]) md)"
  using assms by (auto simp: setTraceReason_def UUID_LENGTH_def)

lemma getTraceReason_uuid:
  assumes "getString RequestUUID md = Inr uuid" "length uuid = UUID_LENGTH"
    and "uuid ! TRACE_BYTE_POSITION = c" "trace_byte r = Some c"
  shows "getTraceReason md = Inr r"
proof -
  have "uuid \<noteq> []" using assms(2) by (auto simp: UUID_LENGTH_def)
  with assms show ?thesis
    by (cases r) (auto simp: getTraceReason_def trace_byte_def trace_bytes Let_def)
qed

text \<open>A request whose id says nothing about tracing leaves the decision with an id that says what
  was decided.\<close>

lemma mutateTracing_first:
  assumes id: "getString RequestUUID md = Inr uuid" "length uuid = UUID_LENGTH"
    and no: "uuid ! TRACE_BYTE_POSITION = NO_TRACE"
    and m: "mutateTracingRequestMetadata se tc True md = Inr (r, md')"
  shows "(\<exists>c. trace_byte r = Some c
      \<and> getString RequestUUID md' = Inr (uuid[TRACE_BYTE_POSITION := c]))
    \<and> (r \<noteq> NotTraceable \<longrightarrow> se_atoull se (take 8 uuid) \<noteq> None)"
proof -
  have same: "uuid[TRACE_BYTE_POSITION := NO_TRACE] = uuid" using no by (metis list_update_id)
  have r0: "getTraceReason md = Inr NotTraceable"
    by (rule getTraceReason_uuid [OF id no]) (simp add: trace_byte_def)
  have fr: "first_reason se tc v md = Inr (Some r') \<Longrightarrow> \<exists>c. trace_byte r' = Some c \<and> r' \<noteq> NotTraceable" for v r'
    by (auto simp: first_reason_def trace_byte_def elim!: bindr_InrE split: if_splits)
  have nt: "trace_byte NotTraceable = Some NO_TRACE" by (simp add: trace_byte_def)
  have up: "getString RequestUUID (putString RequestUUID u md) = Inr u" for u by simp
  from m id(1) consider
      (bad) "md' = md" "r = NotTraceable"
    | (none) "md' = md" "r = NotTraceable"
    | (set) v r' where "first_reason se tc v md = Inr (Some r')" "se_atoull se (take 8 uuid) \<noteq> None"
        "setTraceReason r' md = Inr md'" "r = r'"
    | (off) v r' md1 where "first_reason se tc v md = Inr (Some r')" "setTraceReason r' md = Inr md1"
        "setTraceReason NotTraceable md1 = Inr md'" "r = NotTraceable"
    unfolding mutateTracingRequestMetadata_def toInteger_def r0 Let_def
    by (auto elim!: bindr_InrE split: option.splits if_splits)
  then show ?thesis
  proof cases
    case (set v r')
    from fr [OF set(1)] obtain c where "trace_byte r' = Some c" by auto
    with set setTraceReason_uuid [OF id this] show ?thesis by auto
  next
    case (off v r' md1)
    from fr [OF off(1)] obtain c where c: "trace_byte r' = Some c" by auto
    with off setTraceReason_uuid [OF id c] have "md1 = putString RequestUUID (uuid[TRACE_BYTE_POSITION := c]) md"
      by simp
    then have "getString RequestUUID md1 = Inr (uuid[TRACE_BYTE_POSITION := c])" by simp
    with setTraceReason_uuid [OF this _ nt] off(3) id(2) have
      "md' = putString RequestUUID (uuid[TRACE_BYTE_POSITION := NO_TRACE]) md1" by simp
    with off(4) nt show ?thesis by simp
  qed (use id(1) nt same in auto)
qed

lemma inject_keeps_id:
  "\<forall>kv \<in> set kvs. fst kv \<noteq> RequestUUID \<Longrightarrow>
     getString RequestUUID (foldl (\<lambda>m kv. ctx_set (fst kv) (snd kv) m) md kvs) = getString RequestUUID md"
  by (induction kvs arbitrary: md) (auto simp: ctx_set_def getString_def)

lemma copy_tracing_headers_out:
  "h \<notin> set hs \<Longrightarrow> copy_tracing_headers hs md mut = Inr mut' \<Longrightarrow> map_find mut' h = map_find mut h"
  by (induction hs arbitrary: mut) (auto elim!: bindr_InrE split: if_splits)

lemma startSpan_id:
  assumes "startSpan tr tc cl md mut = Inr (sp, md', mut')" "getString RequestUUID md = Inr uuid" "uuid \<noteq> []"
    and "\<forall>s. \<forall>kv \<in> set (tr_inject tr s). fst kv \<noteq> RequestUUID"
  shows "map_find mut' RequestUUID = Some uuid"
proof -
  define md1 where "md1 = foldl (\<lambda>m kv. ctx_set (fst kv) (snd kv) m) md
    (tr_inject tr \<lparr>sp_name = span_name tc md, sp_tags = [], sp_logs = [], sp_finished = False\<rparr>)"
  have u: "getString RequestUUID md1 = Inr uuid" using assms(2,4) by (simp add: md1_def inject_keeps_id)
  obtain hs where hs: "tracing_headers = RequestUUID # hs" "RequestUUID \<notin> set hs"
    by (simp add: tracing_headers_def RequestUUID_def)
  from assms(1) have "copy_tracing_headers tracing_headers md1 mut = Inr mut'"
    unfolding startSpan_def Let_def md1_def [symmetric] by (auto elim!: bindr_InrE)
  then have "copy_tracing_headers hs md1 (map_assign RequestUUID uuid mut) = Inr mut'"
    unfolding hs(1) copy_tracing_headers.simps u bindr_simps using assms(3) by simp
  from copy_tracing_headers_out [OF hs(2) this] show ?thesis by simp
qed

text \<open>
  C24: the decision to trace is made once and travels with the request.  For a request that arrives
  without an id, the first proxy makes one (a fresh uuid has a 4 in its version byte), decides, and
  sends the id upstream; a proxy that receives this id keeps it and traces the request if and only
  if the first one did.
\<close>

theorem trace_decision_travels:
  assumes "length uuid = UUID_LENGTH" "uuid ! TRACE_BYTE_POSITION = NO_TRACE"
    and "getString RequestUUID md = Inr []"
    and "setXRequestID uuid md mut = Inr (is_first, md1, mut1)"
    and "traceRequest se (Some tr) tc is_first cluster md1 mut1 = Inr (sp, md2, mut2)"
    and "\<forall>s. \<forall>kv \<in> set (tr_inject tr s). fst kv \<noteq> RequestUUID"
    and "se_atoull se' = se_atoull se"
  shows "is_first \<and> (\<exists>sent. map_find mut2 RequestUUID = Some sent \<and> length sent = UUID_LENGTH
     \<and> (\<forall>received. getString RequestUUID received = Inr sent \<longrightarrow>
          setXRequestID uuid' received mut' = Inr (False, received, mut')
          \<and> (\<exists>r. mutateTracingRequestMetadata se' tc' False received = Inr (r, received)
                \<and> (r \<notin> {NotTraceable, HealthCheck} \<longleftrightarrow> sp \<noteq> None))))"
proof -
  have ne: "uuid \<noteq> []" using assms(1) by (auto simp: UUID_LENGTH_def)
  from assms(3,4) have 1: "is_first" "md1 = putString RequestUUID uuid md" "mut1 = map_assign RequestUUID uuid mut"
    by (auto simp: setXRequestID_def rid_set_def rid_get_def)
  then have id: "getString RequestUUID md1 = Inr uuid" by simp
  from assms(5) obtain r md' where m: "mutateTracingRequestMetadata se tc True md1 = Inr (r, md')"
    and rest: "if r = NotTraceable \<or> r = HealthCheck then sp = None \<and> mut2 = mut1
       else sp \<noteq> None \<and> (\<exists>sp' md''. startSpan tr tc cluster md' mut1 = Inr (sp', md'', mut2))"
    using 1(1) by (auto simp: traceRequest_def elim!: bindr_InrE split: if_splits)
  from mutateTracing_first [OF id assms(1,2) m] obtain c where c: "trace_byte r = Some c"
      "getString RequestUUID md' = Inr (uuid[TRACE_BYTE_POSITION := c])"
    and at: "r \<noteq> NotTraceable \<longrightarrow> se_atoull se (take 8 uuid) \<noteq> None" by blast
  define sent where "sent = uuid[TRACE_BYTE_POSITION := c]"
  have sl: "length sent = UUID_LENGTH" "sent \<noteq> []" "take 8 sent = take 8 uuid" "sent ! TRACE_BYTE_POSITION = c"
    using assms(1) ne by (simp_all add: sent_def trace_bytes take_update_cancel)
  have r: "r \<noteq> HealthCheck" using c(1) by (auto simp: trace_byte_def)
  have "map_find mut2 RequestUUID = Some sent"
  proof (cases "r = NotTraceable")
    case True
    with c(1) have "c = NO_TRACE" by (simp add: trace_byte_def)
    with assms(2) have "sent = uuid" using list_update_id [of uuid TRACE_BYTE_POSITION] by (simp add: sent_def)
    with True rest 1(3) show ?thesis by simp
  next
    case False
    with rest r obtain sp' md'' where "startSpan tr tc cluster md' mut1 = Inr (sp', md'', mut2)" by auto
    from startSpan_id [OF this c(2)] sl(2) assms(6) show ?thesis by (simp add: sent_def)
  qed
  moreover have "setXRequestID uuid' received mut' = Inr (False, received, mut')
      \<and> (\<exists>r. mutateTracingRequestMetadata se' tc' False received = Inr (r, received)
            \<and> (r \<notin> {NotTraceable, HealthCheck} \<longleftrightarrow> sp \<noteq> None))"
    if rc: "getString RequestUUID received = Inr sent" for received :: "'c metadata"
  proof -
    have "setXRequestID uuid' received mut' = Inr (False, received, mut')"
      using rc sl(2) by (simp add: setXRequestID_def rid_set_def)
    moreover have "getTraceReason received = Inr r" using getTraceReason_uuid [OF rc sl(1,4) c(1)] .
    moreover have "sp \<noteq> None \<longleftrightarrow> r \<noteq> NotTraceable" using rest r by (auto split: if_splits)
    ultimately show ?thesis
      using rc sl at r assms(7)
      by (auto simp: mutateTracingRequestMetadata_def toInteger_def UUID_LENGTH_def split: option.splits)
  qed
  ultimately show ?thesis using 1(1) sl(1) by blast
qed

definition sample_uuid :: string where
  "sample_uuid = ''12345678-1234-4123-8123-123456789abc''"

definition sample_sampling :: sampling_env where
  "sample_sampling = \<lparr>se_atoull = (\<lambda>_. Some 5), se_featureEnabled1 = (\<lambda>_ _. True),
     se_featureEnabled = (\<lambda>_ _ _. True)\<rparr>"

definition sample_tracing :: tracing_config where
  "sample_tracing = \<lparr>tc_operation_name = Egress, tc_client_sampling = default_percent,
     tc_random_sampling = default_percent, tc_overall_sampling = default_percent, tc_verbose = True,
     tc_max_tag_length = 256\<rparr>"

definition sample_tracer :: tracer where
  "sample_tracer = \<lparr>tr_inject = (\<lambda>_. [(''traceparent'', ''00-1'')]), tr_node_name = ''n'', tr_zone_name = ''z''\<rparr>"

theorem trace_decision_travels_witness:
  "\<exists>md1 mut1 sp md2 mut2 sent.
     setXRequestID sample_uuid (new_metadata :: unit metadata) [] = Inr (True, md1, mut1)
   \<and> traceRequest sample_sampling (Some sample_tracer) sample_tracing True ''c'' md1 mut1 = Inr (Some sp, md2, mut2)
   \<and> map_find mut2 RequestUUID = Some sent \<and> length sent = UUID_LENGTH"
proof -
  have "case setXRequestID sample_uuid (new_metadata :: unit metadata) [] of
      Inl _ \<Rightarrow> False
    | Inr (b, md1, mut1) \<Rightarrow> b \<and>
        (case traceRequest sample_sampling (Some sample_tracer) sample_tracing True ''c'' md1 mut1 of
           Inr (Some _, _, _) \<Rightarrow> True | _ \<Rightarrow> False)"
    by code_simp
  then obtain md1 mut1 where a: "setXRequestID sample_uuid (new_metadata :: unit metadata) [] = Inr (True, md1, mut1)"
    and t: "case traceRequest sample_sampling (Some sample_tracer) sample_tracing True ''c'' md1 mut1 of
       Inr (Some _, _, _) \<Rightarrow> True | _ \<Rightarrow> False"
    by (cases "setXRequestID sample_uuid (new_metadata :: unit metadata) []") auto
  then obtain sp md2 mut2 where
    b: "traceRequest sample_sampling (Some sample_tracer) sample_tracing True ''c'' md1 mut1 = Inr (Some sp, md2, mut2)"
    by (cases "traceRequest sample_sampling (Some sample_tracer) sample_tracing True ''c'' md1 mut1")
      (auto split: option.split_asm)
  have "length sample_uuid = UUID_LENGTH" "sample_uuid ! TRACE_BYTE_POSITION = NO_TRACE"
    "\<forall>s. \<forall>kv \<in> set (tr_inject sample_tracer s). fst kv \<noteq> RequestUUID"
    by (simp_all add: sample_uuid_def trace_bytes sample_tracer_def RequestUUID_def)
  from trace_decision_travels [OF this(1,2) getString_new a b this(3) refl] a b show ?thesis by blast
qed

end
