(* ===== verification/Shadow_Writer.thy ===== *)
theory Shadow_Writer
  imports Upstream
begin

text \<open>
  Request mirroring, \<^verbatim>\<open>filters/router/shadow_writer_impl.cc\<close> and \<^verbatim>\<open>.h\<close>: a
  shadow router sends a copy of a request to a second cluster and drops what comes back.  The
  state of its operations is the shadow router with the upstream side.
\<close>

section \<open>Reading the dropped response\<close>

definition null_callbacks :: "(bool, unit, 'x) callbacks" where
  "null_callbacks = \<lparr>cb_newMessageHandler = (\<lambda>complete. ((), complete)),
     cb_onMessageDecoded = (\<lambda>_ _ _ _. (Inr (), True)),
     cb_onHeartbeat = (\<lambda>_ complete. (Inr True, complete))\<rparr>"

text \<open>\<^verbatim>\<open>NullResponseDecoder::decode\<close>.\<close>

definition null_decode ::
  "('c, 'x) codec \<Rightarrow> buffer \<Rightarrow> ('c, 'x) shadow_router
   \<Rightarrow> upstream_response_status res \<times> ('c, 'x) shadow_router" where
  "null_decode co data sr =
     (case onData (co_decode co) null_callbacks (sr_decoder sr) data (sr_complete sr) of
        (Inl e, fin) \<Rightarrow>
          (if envoy_what e \<noteq> None then Inr UR_Reset else Inl e, sr\<lparr>sr_complete := fin\<rparr>)
      | (Inr (_, d, _), fin) \<Rightarrow>
          (Inr (if fin then UR_Complete else UR_MoreData),
           sr\<lparr>sr_decoder := d, sr_complete := fin\<rparr>))"

section \<open>The shadow router as owner of its request\<close>

type_synonym ('c, 'x) shadow = "('c, 'x) shadow_router \<times> ('c, 'x) net"

text \<open>
  \<^verbatim>\<open>resetStream\<close> drops the result of the release: a request calls it when it has no
  connection, when the connection is closed already, or when it registered no callbacks.
  \<^verbatim>\<open>createCodec\<close> moves the codec away.
\<close>

definition shadow_fields :: "('c, 'x) codec \<Rightarrow> ('c, 'x, ('c, 'x) shadow) owner" where
  "shadow_fields co = \<lparr>
     ow_metadata = (\<lambda>s. Some (sr_metadata (fst s))),
     ow_set_metadata = (\<lambda>md s. ((fst s)\<lparr>sr_metadata := md\<rparr>, snd s)),
     ow_request = (\<lambda>s. sr_upstream_request (fst s)),
     ow_set_request = (\<lambda>r s. ((fst s)\<lparr>sr_upstream_request := r\<rparr>, snd s)),
     ow_net = snd,
     ow_set_net = (\<lambda>nt s. (fst s, nt)),
     ow_codec = co,
     ow_createCodec = (\<lambda>s. (sr_codec (fst s), ((fst s)\<lparr>sr_codec := False\<rparr>, snd s))),
     ow_continueDecoding = (\<lambda>s. (Inr (), s)),
     ow_sendLocalReply = (\<lambda>_ _ s. (Inr (), s)),
     ow_resetStream = (\<lambda>s. (Inr (), s)),
     ow_setUpstreamConnection = (\<lambda>c s. (Inr (), (fst s, release_conn c (snd s)))),
     ow_onUpstreamHostSelected = (\<lambda>_ s. s)\<rparr>"

definition shadow_resetStream :: "('c, 'x) codec \<Rightarrow> ('c, 'x) shadow \<Rightarrow> bool res \<times> ('c, 'x) shadow" where
  "shadow_resetStream co s =
     (if sr_upstream_request (fst s) \<noteq> None then releaseUpStreamConnection (shadow_fields co) True s
      else (Inr False, s))"

definition shadow_owner :: "('c, 'x) codec \<Rightarrow> ('c, 'x, ('c, 'x) shadow) owner" where
  "shadow_owner co = (shadow_fields co)
     \<lparr>ow_resetStream := (\<lambda>s. bindS (shadow_resetStream co s) (\<lambda>_ s1. (Inr (), s1)))\<rparr>"

section \<open>Submitting a request\<close>

definition new_shadow_router ::
  "('c, 'x) codec \<Rightarrow> bool \<Rightarrow> 'x metadata \<Rightarrow> ('c, 'x) shadow_router" where
  "new_shadow_router co uninit md = \<lparr>sr_metadata = md, sr_upstream_request = None, sr_codec = True,
     sr_decoder = new_decoder (co_new co) Response, sr_complete = uninit, sr_removed = False\<rparr>"

definition createUpstreamRequest ::
  "('c, 'x) codec \<Rightarrow> string \<Rightarrow> mutation \<Rightarrow> ('c, 'x) shadow \<Rightarrow> bool res \<times> ('c, 'x) shadow" where
  "createUpstreamRequest co cluster_name mut s =
     (case prepareUpstreamRequest cluster_name (Inr None) (snd s) of
        Inl e \<Rightarrow> (Inl e, s)
      | Inr (PrepareError _ _) \<Rightarrow> (Inr False, s)
      | Inr (Prepared pool) \<Rightarrow>
          (case new_upstream_request mut None (sr_metadata (fst s)) of (r, md) \<Rightarrow>
             bindS (ur_start (shadow_owner co) pool
                      ((fst s)\<lparr>sr_upstream_request := Some r, sr_metadata := md\<rparr>, snd s))
               (\<lambda>_ s1. (Inr True, s1))))"

text \<open>The router joins the list of the worker only after the request was started.\<close>

definition submit ::
  "('c, 'x) codec \<Rightarrow> string \<Rightarrow> 'x metadata \<Rightarrow> mutation \<Rightarrow> ('c, 'x) net \<Rightarrow> unit res \<times> ('c, 'x) net" where
  "submit co cluster_name md mut nt =
     (case createUpstreamRequest co cluster_name mut (new_shadow_router co (nt_uninit nt) md, nt) of
        (Inl e, s) \<Rightarrow> (Inl e, snd (destroy_request (shadow_owner co) s))
      | (Inr created, (sr, nt1)) \<Rightarrow>
          (Inr (), if created
                   then nt1\<lparr>nt_active_routers := (nt_next nt1, sr) # nt_active_routers nt1,
                            nt_next := Suc (nt_next nt1)\<rparr>
                   else nt1))"

section \<open>Callbacks\<close>

text \<open>An operation on the shadow router with a number; when it marks the router removed, the router
  leaves the list.\<close>

definition on_shadow ::
  "nat \<Rightarrow> (('c, 'x) shadow \<Rightarrow> 'a res \<times> ('c, 'x) shadow) \<Rightarrow> ('c, 'x) net \<Rightarrow> 'a res \<times> ('c, 'x) net" where
  "on_shadow n f nt =
     (case map_of (nt_active_routers nt) n of
        None \<Rightarrow> (Inl (Undefined ''shadow router destroyed''), nt)
      | Some sr \<Rightarrow>
          (case f (sr, nt) of (res, (sr1, nt1)) \<Rightarrow>
             (res, nt1\<lparr>nt_active_routers :=
                (if sr_removed sr1 then filter (\<lambda>e. fst e \<noteq> n) (nt_active_routers nt1)
                 else map (\<lambda>(k, v). if k = n then (k, sr1) else (k, v)) (nt_active_routers nt1))\<rparr>)))"

definition cleanup :: "('c, 'x) codec \<Rightarrow> ('c, 'x) shadow \<Rightarrow> unit res \<times> ('c, 'x) shadow" where
  "cleanup co s =
     (if sr_removed (fst s) then (Inr (), s)
      else bindS (releaseUpStreamConnection (shadow_owner co) False
                    ((fst s)\<lparr>sr_removed := True\<rparr>, snd s)) (\<lambda>_ s1. (Inr (), s1)))"

definition shadow_onUpstreamData ::
  "('c, 'x) codec \<Rightarrow> buffer \<Rightarrow> bool \<Rightarrow> ('c, 'x) shadow \<Rightarrow> unit res \<times> ('c, 'x) shadow" where
  "shadow_onUpstreamData co data end_stream s =
     (let s1 = ur_onResponseStarted (shadow_owner co) s in
      case null_decode co data (fst s1) of
        (Inl e, sr) \<Rightarrow> (Inl e, (sr, snd s1))
      | (Inr UR_Complete, sr) \<Rightarrow>
          bindS (ur_onResponseComplete (shadow_owner co) (sr, snd s1)) (\<lambda>_. cleanup co)
      | (Inr UR_MoreData, sr) \<Rightarrow>
          if end_stream then cleanup co (sr, snd s1) else (Inr (), (sr, snd s1))
      | (Inr _, sr) \<Rightarrow> (Inl (Panic ''not reached''), (sr, snd s1)))"

definition shadow_onEvent ::
  "('c, 'x) codec \<Rightarrow> connection_event \<Rightarrow> ('c, 'x) shadow \<Rightarrow> unit res \<times> ('c, 'x) shadow" where
  "shadow_onEvent co ev s =
     bindS (onUpstreamConnectionEvent (shadow_owner co) ev s) (\<lambda>_. cleanup co)"

text \<open>
  The destructor of \<^verbatim>\<open>ActiveRouters\<close> at the end of a worker.  Resetting a router with an
  open connection closes it; the pool raises \<^verbatim>\<open>LocalClose\<close>, on which the router leaves the
  list by itself, and the destructor removes it a second time.
\<close>

fun destroy_active_routers ::
  "('c, 'x) codec \<Rightarrow> (nat \<times> ('c, 'x) shadow_router) list \<Rightarrow> ('c, 'x) net \<Rightarrow> unit res \<times> ('c, 'x) net" where
  "destroy_active_routers co [] nt = (Inr (), nt)"
| "destroy_active_routers co ((n, sr) # routers) nt =
     (case shadow_resetStream co (sr, nt) of
        (Inl e, s) \<Rightarrow> (Inl e, snd s)
      | (Inr closed, s) \<Rightarrow>
          if closed \<and> md_message_type (sr_metadata (fst s)) = Request then
            (case shadow_onEvent co LocalClose s of
               (Inl e, s1) \<Rightarrow> (Inl e, snd s1)
             | (Inr _, s1) \<Rightarrow> (Inl (Undefined ''router removed from its list twice''), snd s1))
          else destroy_active_routers co routers (snd s))"

end
