(* ===== verification/Upstream_Handler.thy ===== *)
theory Upstream_Handler
  imports Upstream
begin

text \<open>
  The shared upstream connections of a multiplexed downstream connection:
  \<^verbatim>\<open>upstream_handler.cc\<close>, \<^verbatim>\<open>upstream_handler_impl.cc\<close>,
  \<^verbatim>\<open>upstream_response.cc\<close> and \<^verbatim>\<open>ConnectionManager::getUpstreamHandler\<close>; the
  operations that only touch the upstream side.
\<close>

section \<open>The manager of the handlers\<close>

definition handler_get :: "string \<Rightarrow> ('c, 'x) net \<Rightarrow> nat option" where
  "handler_get key nt = map_find (nt_upstream_handlers nt) key"

definition handler_add :: "string \<Rightarrow> nat \<Rightarrow> ('c, 'x) net \<Rightarrow> ('c, 'x) net" where
  "handler_add key h nt = (if map_find (nt_upstream_handlers nt) key = None
     then nt\<lparr>nt_upstream_handlers := map_assign key h (nt_upstream_handlers nt)\<rparr> else nt)"

definition handler_del :: "string \<Rightarrow> ('c, 'x) net \<Rightarrow> ('c, 'x) net" where
  "handler_del key nt = nt\<lparr>nt_upstream_handlers := map_erase key (nt_upstream_handlers nt)\<rparr>"

section \<open>A handler\<close>

definition new_upstream_handler :: "string \<Rightarrow> ('c, 'x) upstream_handler" where
  "new_upstream_handler key = \<lparr>uh_key = key, uh_upstream_handle = False, uh_conn_data = None,
     uh_request_callbacks = [], uh_response_callbacks = [], uh_upstream_response = None,
     uh_pool_ready = False\<rparr>"

definition get_handler :: "nat \<Rightarrow> ('c, 'x) net \<Rightarrow> ('c, 'x) upstream_handler option" where
  "get_handler h nt = map_of (nt_handlers nt) h"

definition upd_handler ::
  "nat \<Rightarrow> (('c, 'x) upstream_handler \<Rightarrow> ('c, 'x) upstream_handler) \<Rightarrow> ('c, 'x) net \<Rightarrow> ('c, 'x) net" where
  "upd_handler h f nt = nt\<lparr>nt_handlers := map (\<lambda>(k, v). if k = h then (k, f v) else (k, v)) (nt_handlers nt)\<rparr>"

text \<open>What \<^verbatim>\<open>onPoolReady\<close> and \<^verbatim>\<open>onPoolFailure\<close> do to the handler before they
  call the requests that wait for it.\<close>

definition handler_ready :: "nat \<Rightarrow> nat \<Rightarrow> ('c, 'x) net \<Rightarrow> ('c, 'x) net" where
  "handler_ready h c = upd_handler h (\<lambda>u. u\<lparr>uh_conn_data := Some c, uh_upstream_handle := False,
     uh_pool_ready := True\<rparr>)"

definition handler_failed :: "nat \<Rightarrow> ('c, 'x) net \<Rightarrow> ('c, 'x) net" where
  "handler_failed h nt = (case get_handler h nt of
     None \<Rightarrow> nt
   | Some u \<Rightarrow> handler_del (uh_key u) (upd_handler h (\<lambda>u. u\<lparr>uh_upstream_handle := False\<rparr>) nt))"

text \<open>\<^verbatim>\<open>start\<close>: a new handler has no requests waiting when the pool answers at once.\<close>

definition handler_start :: "nat \<Rightarrow> tcp_pool \<Rightarrow> ('c, 'x) net \<Rightarrow> ('c, 'x) net" where
  "handler_start h pool nt = (case tp_answer pool of
     AnswerLater \<Rightarrow> upd_handler h (\<lambda>u. u\<lparr>uh_pool_ready := False, uh_upstream_handle := True\<rparr>) nt
   | AnswerReady addr \<Rightarrow> handler_ready h (nt_next_conn nt) (nt\<lparr>nt_next_conn := Suc (nt_next_conn nt)\<rparr>)
   | AnswerOverflow \<Rightarrow> handler_failed h (upd_handler h (\<lambda>u. u\<lparr>uh_pool_ready := False\<rparr>) nt))"

datatype get_handler_result = HandlerError error string | Handler nat

definition getUpstreamHandler ::
  "string \<Rightarrow> u64 option res \<Rightarrow> ('c, 'x) net \<Rightarrow> get_handler_result res \<times> ('c, 'x) net" where
  "getUpstreamHandler cluster_name hash_key nt =
     (case nt_clusters nt cluster_name of
        None \<Rightarrow> (Inr (HandlerError (Error ClusterNotFound
           (''meta protocol router: unknown cluster '' @ quoted cluster_name)) ''unknown_cluster''), nt)
      | Some cl \<Rightarrow>
          (case cl_tcpConnPool cl hash_key of
             Inl e \<Rightarrow> (Inl e, nt)
           | Inr None \<Rightarrow> (Inr (HandlerError (Error NoHealthyUpstream
               (''meta protocol router: no healthy upstream for '' @ quoted cluster_name))
               ''no_healthy_upstream''), nt)
           | Inr (Some pool) \<Rightarrow>
               let key = cluster_name @ ''_'' @ tp_host pool in
               (case handler_get key nt of
                  Some h \<Rightarrow> (Inr (Handler h), nt)
                | None \<Rightarrow>
                    let h = nt_next nt;
                        nt1 = handler_add key h (nt\<lparr>nt_next := Suc h,
                                nt_handlers := (h, new_upstream_handler key) # nt_handlers nt\<rparr>)
                    in (Inr (Handler h), handler_start h pool nt1))))"

definition isPoolReady :: "nat \<Rightarrow> ('c, 'x) net \<Rightarrow> bool" where
  "isPoolReady h nt = (case get_handler h nt of Some u \<Rightarrow> uh_pool_ready u | None \<Rightarrow> False)"

definition handler_onData :: "nat \<Rightarrow> buffer \<Rightarrow> bool \<Rightarrow> ('c, 'x) net \<Rightarrow> unit res \<times> ('c, 'x) net" where
  "handler_onData h data end_stream nt =
     (case Option.bind (get_handler h nt) uh_conn_data of
        None \<Rightarrow> (Inl (Undefined ''conn_data_ is null''), nt)
      | Some c \<Rightarrow> (Inr (), upstream_write c data end_stream nt))"

text \<open>A callback is only added when the request id has none.\<close>

definition addResponseCallback :: "nat \<Rightarrow> u64 \<Rightarrow> nat \<Rightarrow> ('c, 'x) net \<Rightarrow> ('c, 'x) net" where
  "addResponseCallback h request_id i = upd_handler h (\<lambda>u.
     if map_find (uh_response_callbacks u) request_id \<noteq> None then u
     else u\<lparr>uh_response_callbacks := map_assign request_id i (uh_response_callbacks u)\<rparr>)"

definition addUpsteamRequestCallbacks :: "nat \<Rightarrow> nat \<Rightarrow> ('c, 'x) net \<Rightarrow> ('c, 'x) net" where
  "addUpsteamRequestCallbacks h i =
     upd_handler h (\<lambda>u. u\<lparr>uh_request_callbacks := uh_request_callbacks u @ [i]\<rparr>)"

definition removeUpsteamRequestCallbacks :: "nat \<Rightarrow> nat \<Rightarrow> ('c, 'x) net \<Rightarrow> ('c, 'x) net" where
  "removeUpsteamRequestCallbacks h i =
     upd_handler h (\<lambda>u. u\<lparr>uh_request_callbacks := filter (\<lambda>k. k \<noteq> i) (uh_request_callbacks u)\<rparr>)"

definition handler_onClose :: "nat \<Rightarrow> ('c, 'x) net \<Rightarrow> ('c, 'x) net" where
  "handler_onClose h nt =
     (case get_handler h nt of
        None \<Rightarrow> nt
      | Some u \<Rightarrow>
          let nt1 = handler_del (uh_key u) (upd_handler h (\<lambda>u. u\<lparr>uh_pool_ready := False,
                      uh_upstream_handle := False, uh_conn_data := None\<rparr>) nt);
              nt2 = (if uh_upstream_handle u then nt1\<lparr>nt_cancelled := nt_cancelled nt1 + 1\<rparr> else nt1)
          in release_conn (uh_conn_data u) nt2)"

definition handler_onEvent :: "nat \<Rightarrow> connection_event \<Rightarrow> ('c, 'x) net \<Rightarrow> ('c, 'x) net" where
  "handler_onEvent h ev nt = (if ev = Connected then nt else handler_onClose h nt)"

section \<open>A request sent through a handler\<close>

definition bh_encodeData :: "('c, 'x, 's) owner \<Rightarrow> nat \<Rightarrow> 's \<Rightarrow> unit res \<times> 's" where
  "bh_encodeData ow h = with_metadata ow (\<lambda>md. with_request ow (\<lambda>r s.
     case ow_createCodec ow s of (has_codec, s0) \<Rightarrow>
     if \<not> has_codec then (Inl (Undefined ''codec is null''), s0)
     else case co_encode (ow_codec ow) md (ur_mutation r) (ur_buffer r) of
       Inl e \<Rightarrow> (Inl e, s0)
     | Inr (data, md1) \<Rightarrow>
         (case handler_onData h data False (ow_net ow s0) of
            (Inl e, _) \<Rightarrow> (Inl e, s0)
          | (Inr _, nt) \<Rightarrow>
              (Inr (), upd_request ow (\<lambda>r. r\<lparr>ur_buffer := []\<rparr>)
                 (ow_set_net ow nt (ow_set_metadata ow md1 s0))))))"

definition bh_start :: "('c, 'x, 's) owner \<Rightarrow> nat \<Rightarrow> nat \<Rightarrow> 's \<Rightarrow> filter_status res \<times> 's" where
  "bh_start ow h i s =
     (if isPoolReady h (ow_net ow s)
      then bindS (bh_encodeData ow h s) (\<lambda>_ s1. (Inr ContinueIteration, s1))
      else (Inr PauseIteration, upd_net ow (addUpsteamRequestCallbacks h i) s))"

definition bh_onPoolFailure ::
  "('c, 'x, 's) owner \<Rightarrow> pool_failure_reason \<Rightarrow> string \<Rightarrow> 's \<Rightarrow> unit res \<times> 's" where
  "bh_onPoolFailure ow reason host s =
     bindS (onUpstreamConnectionReset ow reason
              (ur_onUpstreamHostSelected ow host (ow_onUpstreamHostSelected ow host s))) (\<lambda>_ s1.
       let s2 = upd_request ow (\<lambda>r. r\<lparr>ur_buffer := []\<rparr>) s1
       in if is_connection_error reason then ow_continueDecoding ow s2 else (Inr (), s2))"

definition bh_onPoolReady ::
  "('c, 'x, 's) owner \<Rightarrow> nat \<Rightarrow> string \<Rightarrow> 's \<Rightarrow> unit res \<times> 's" where
  "bh_onPoolReady ow h host s =
     bindS (onRequestStart ow True
              (ur_onUpstreamHostSelected ow host (ow_onUpstreamHostSelected ow host s))) (\<lambda>_ s1.
     bindS (bh_encodeData ow h s1) (\<lambda>_ s2.
       (Inr (), upd_request ow (\<lambda>r. r\<lparr>ur_request_complete := True\<rparr>) s2)))"

end
