(* ===== verification/Router.thy ===== *)
theory Router
  imports Conn_Manager Tracing Shadow_Writer Upstream_Handler
begin

text \<open>
  The router, the last filter of every chain: \<^verbatim>\<open>filters/router/router_impl.cc\<close>.  As a
  filter it runs on the record \<^verbatim>\<open>rstep\<close>, which collects what it does and the callbacks
  it makes; the callbacks of the upstream side come later and run on the whole connection.  Both
  are instances of the interface \<^verbatim>\<open>owner\<close> of a request.
\<close>

section \<open>State\<close>

text \<open>
  \<^verbatim>\<open>ro_cached_route\<close> is \<^verbatim>\<open>cached_route_\<close> of the message;
  \<^verbatim>\<open>ro_upstream_host\<close> the host in its stream info.  The request metadata is that of the
  message, and \<^verbatim>\<open>ro_response_metadata\<close> says that the pointer to the metadata of
  the response was set.
\<close>

record 'm router =
  ro_cached_route :: "'m route option option"
  ro_route :: "'m route option"
  ro_upstream_request :: "upstream_request option"
  ro_response_metadata :: bool
  ro_active_span :: "span option"
  ro_is_first_span :: bool
  ro_upstream_host :: "string option"

definition new_router :: "'m router" where
  "new_router = \<lparr>ro_cached_route = None, ro_route = None, ro_upstream_request = None,
     ro_response_metadata = False, ro_active_span = None, ro_is_first_span = False,
     ro_upstream_host = None\<rparr>"

text \<open>
  What the router reads of its surroundings: the routes in force, the tracing configuration, the
  random numbers and the runtime.  Values drawn per message are functions of its number.
\<close>

record ('c, 'x, 'm) router_env =
  rv_codec :: "('c, 'x) codec"
  rv_routes :: "nat \<Rightarrow> 'm route_table"
  rv_matchHeaders :: "'m match_headers"
  rv_pickCluster :: pick_cluster
  rv_stream_id :: "nat \<Rightarrow> u64"
  rv_uuid :: "nat \<Rightarrow> string"
  rv_tracing_config :: "tracing_config option"
  rv_tracer :: "tracer option"
  rv_sampling :: sampling_env
  rv_stream_info :: "nat \<Rightarrow> stream_info"
  rv_featureEnabled :: feature_enabled
  rv_rand :: "nat \<Rightarrow> nat \<Rightarrow> u64"
  rv_multiplexing :: bool

section \<open>The request path\<close>

record ('c, 'x, 'm) rstep =
  rs_router :: "'m router"
  rs_net :: "('c, 'x) net"
  rs_metadata :: "'x metadata"
  rs_mutation :: mutation
  rs_calls :: "filter_call list"

definition rs_call :: "filter_call \<Rightarrow> ('c, 'x, 'm) rstep \<Rightarrow> ('c, 'x, 'm) rstep" where
  "rs_call c s = s\<lparr>rs_calls := rs_calls s @ [c]\<rparr>"

definition upd_router ::
  "('m router \<Rightarrow> 'm router) \<Rightarrow> ('c, 'x, 'm) rstep \<Rightarrow> ('c, 'x, 'm) rstep" where
  "upd_router f s = s\<lparr>rs_router := f (rs_router s)\<rparr>"

text \<open>While a filter runs the pool never makes it continue the chain (\<^verbatim>\<open>ur_start\<close> has no
  such answer).\<close>

definition filter_owner :: "('c, 'x) codec \<Rightarrow> ('c, 'x, ('c, 'x, 'm) rstep) owner" where
  "filter_owner co = \<lparr>
     ow_metadata = (\<lambda>s. Some (rs_metadata s)),
     ow_set_metadata = (\<lambda>md s. s\<lparr>rs_metadata := md\<rparr>),
     ow_request = (\<lambda>s. ro_upstream_request (rs_router s)),
     ow_set_request = (\<lambda>r. upd_router (\<lambda>ro. ro\<lparr>ro_upstream_request := r\<rparr>)),
     ow_net = rs_net,
     ow_set_net = (\<lambda>nt s. s\<lparr>rs_net := nt\<rparr>),
     ow_codec = co,
     ow_createCodec = (\<lambda>s. (True, s)),
     ow_continueDecoding = (\<lambda>s. (Inl (Undefined ''continueDecoding inside the filter''), s)),
     ow_sendLocalReply = (\<lambda>err e s. (Inr (), rs_call (Call_sendLocalReply err e) s)),
     ow_resetStream = (\<lambda>s. (Inr (), rs_call Call_resetStream s)),
     ow_setUpstreamConnection = (\<lambda>_ s. (Inr (), rs_call Call_setUpstreamConnection s)),
     ow_onUpstreamHostSelected = (\<lambda>h. upd_router (\<lambda>ro. ro\<lparr>ro_upstream_host := Some h\<rparr>))\<rparr>"

definition emitLogEntry :: "response_status \<Rightarrow> string \<Rightarrow> ('c, 'x) net \<Rightarrow> ('c, 'x) net" where
  "emitLogEntry st detail nt =
     nt\<lparr>nt_log := nt_log nt @ [(case st of RS_Ok \<Rightarrow> 0 | RS_Error \<Rightarrow> 1, detail)]\<rparr>"

definition am_route ::
  "('c, 'x, 'm) router_env \<Rightarrow> nat \<Rightarrow> ('c, 'x, 'm) rstep \<Rightarrow> 'm route option" where
  "am_route rv i s = (case ro_cached_route (rs_router s) of
     Some r \<Rightarrow> r
   | None \<Rightarrow> config_route (rv_matchHeaders rv) (rv_pickCluster rv) (rv_routes rv i) (rs_metadata s)
               (rv_stream_id rv i))"

definition computeHashKey :: "'m router \<Rightarrow> 'x metadata \<Rightarrow> u64 option res" where
  "computeHashKey ro md = (case Option.bind (ro_route ro) (\<lambda>r. re_hash_policy (rt_entry r)) of
     Some keys \<Rightarrow> generateHash keys md
   | None \<Rightarrow> Inr None)"

text \<open>A local error reply ends the chain.\<close>

definition abort_with ::
  "error \<Rightarrow> string \<Rightarrow> ('c, 'x, 'm) rstep \<Rightarrow> filter_status res \<times> ('c, 'x, 'm) rstep" where
  "abort_with err detail s =
     (Inr AbortIteration,
      rs_call (Call_sendLocalReply err False) (s\<lparr>rs_net := emitLogEntry RS_Error detail (rs_net s)\<rparr>))"

text \<open>The request id, the span and the mutation of the route.\<close>

definition prepare_request ::
  "('c, 'x, 'm) router_env \<Rightarrow> nat \<Rightarrow> 'm route \<Rightarrow> ('c, 'x, 'm) rstep \<Rightarrow> unit res \<times> ('c, 'x, 'm) rstep" where
  "prepare_request rv i rt s =
     (case setXRequestID (rv_uuid rv i) (rs_metadata s) (rs_mutation s) of
        Inl e \<Rightarrow> (Inl e, s)
      | Inr (first, md1, mut1) \<Rightarrow>
          let s1 = upd_router (\<lambda>ro. ro\<lparr>ro_is_first_span := first\<rparr>)
                     (s\<lparr>rs_metadata := md1, rs_mutation := mut1\<rparr>)
          in (case rv_tracing_config rv of
                None \<Rightarrow> (Inr (), s1)
              | Some tc \<Rightarrow>
                  (case traceRequest (rv_sampling rv) (rv_tracer rv) tc first (rt_clusterName rt) md1 mut1 of
                     Inl e \<Rightarrow> (Inl e, s1)
                   | Inr (sp, md2, mut2) \<Rightarrow>
                       (Inr (), upd_router (\<lambda>ro. ro\<lparr>ro_active_span := sp\<rparr>)
                          (s1\<lparr>rs_metadata := md2, rs_mutation := mut2\<rparr>)))))"

definition create_request ::
  "nat option \<Rightarrow> ('c, 'x, 'm) rstep \<Rightarrow> ('c, 'x, 'm) rstep" where
  "create_request handler s =
     (case new_upstream_request (rs_mutation s) handler (rs_metadata s) of (r, md) \<Rightarrow>
        upd_router (\<lambda>ro. ro\<lparr>ro_upstream_request := Some r\<rparr>) (s\<lparr>rs_metadata := md\<rparr>))"

text \<open>The branch of a multiplexed connection, and the one with a connection of its own.\<close>

definition send_by_handler ::
  "('c, 'x, 'm) router_env \<Rightarrow> nat \<Rightarrow> 'm route \<Rightarrow> ('c, 'x, 'm) rstep
   \<Rightarrow> filter_status res \<times> ('c, 'x, 'm) rstep" where
  "send_by_handler rv i rt s =
     (case getUpstreamHandler (rt_clusterName rt) (computeHashKey (rs_router s) (rs_metadata s)) (rs_net s) of
        (Inl e, nt) \<Rightarrow> (Inl e, s\<lparr>rs_net := nt\<rparr>)
      | (Inr (HandlerError err detail), nt) \<Rightarrow> abort_with err detail (s\<lparr>rs_net := nt\<rparr>)
      | (Inr (Handler h), nt) \<Rightarrow>
          bh_start (filter_owner (rv_codec rv)) h i (create_request (Some h)
            (s\<lparr>rs_net := addResponseCallback h (md_request_id (rs_metadata s)) i nt\<rparr>)))"

definition send_by_pool ::
  "('c, 'x, 'm) router_env \<Rightarrow> 'm route \<Rightarrow> ('c, 'x, 'm) rstep
   \<Rightarrow> filter_status res \<times> ('c, 'x, 'm) rstep" where
  "send_by_pool rv rt s =
     (case prepareUpstreamRequest (rt_clusterName rt) (computeHashKey (rs_router s) (rs_metadata s)) (rs_net s) of
        Inl e \<Rightarrow> (Inl e, s)
      | Inr (PrepareError err detail) \<Rightarrow> abort_with err detail s
      | Inr (Prepared pool) \<Rightarrow> ur_start (filter_owner (rv_codec rv)) pool (create_request None s))"

fun mirror_request ::
  "('c, 'x, 'm) router_env \<Rightarrow> nat \<Rightarrow> nat \<Rightarrow> mirror_policy list \<Rightarrow> 'x metadata \<Rightarrow> mutation
   \<Rightarrow> ('c, 'x) net \<Rightarrow> unit res \<times> ('c, 'x) net" where
  "mirror_request rv i k [] md mut nt = (Inr (), nt)"
| "mirror_request rv i k (p # ps) md mut nt =
     (if shouldShadow (rv_featureEnabled rv) p (rv_rand rv i k)
      then bindS (submit (rv_codec rv) (mirror_cluster_name p) (clone md) mut nt)
             (\<lambda>_. mirror_request rv i (Suc k) ps md mut)
      else mirror_request rv i (Suc k) ps md mut nt)"

text \<open>The requests that are sent are mirrored.\<close>

definition then_mirror ::
  "('c, 'x, 'm) router_env \<Rightarrow> nat \<Rightarrow> 'm route \<Rightarrow> 'x metadata \<Rightarrow> filter_status \<Rightarrow> ('c, 'x, 'm) rstep
   \<Rightarrow> filter_status res \<times> ('c, 'x, 'm) rstep" where
  "then_mirror rv i rt metadata_clone filter_status s =
     (if filter_status = AbortIteration then (Inr filter_status, s)
      else case mirror_request rv i 0 (re_mirror_policies (rt_entry rt)) metadata_clone (rs_mutation s)
                  (rs_net s) of
        (Inl e, nt) \<Rightarrow> (Inl e, s\<lparr>rs_net := nt\<rparr>)
      | (Inr _, nt) \<Rightarrow> (Inr filter_status, s\<lparr>rs_net := nt\<rparr>))"

definition router_decode ::
  "('c, 'x, 'm) router_env \<Rightarrow> nat \<Rightarrow> ('c, 'x, 'm) rstep \<Rightarrow> filter_status res \<times> ('c, 'x, 'm) rstep" where
  "router_decode rv i s =
     (let r = am_route rv i s;
          s0 = upd_router (\<lambda>ro. ro\<lparr>ro_cached_route := Some r, ro_route := r\<rparr>) s
      in case r of
        None \<Rightarrow> abort_with (Error RouteNotFound
          (''meta protocol router: no matched route for request ''
             @ quoted (show_nat (unat (md_request_id (rs_metadata s)))))) ''no_matched_route'' s0
      | Some rt \<Rightarrow>
          bindS (prepare_request rv i rt s0) (\<lambda>_ s1.
            let metadata_clone = clone (rs_metadata s1);
                s2 = s1\<lparr>rs_mutation := requestMutation (rt_entry rt) (rs_mutation s1)\<rparr>
            in bindS (if rv_multiplexing rv then send_by_handler rv i rt s2 else send_by_pool rv rt s2)
                 (then_mirror rv i rt metadata_clone)))"

section \<open>The router as a filter\<close>

datatype ('m, 'o) pfilter = FRouter "'m router" | FOther 'o

definition router_onMessageDecoded ::
  "('c, 'x, 'm) router_env \<Rightarrow> nat \<Rightarrow> 'm router \<Rightarrow> ('m, 'o) pfilter \<Rightarrow> ('c, 'x) net \<Rightarrow> 'x metadata
   \<Rightarrow> mutation \<Rightarrow> ('c, 'x, ('m, 'o) pfilter) outcome" where
  "router_onMessageDecoded rv i ro g nt md mut =
     (case router_decode rv i \<lparr>rs_router = ro, rs_net = nt, rs_metadata = md, rs_mutation = mut, rs_calls = []\<rparr> of
        (status, s) \<Rightarrow> \<lparr>fo_status = status, fo_filter = FRouter (rs_router s), fo_shared = g,
          fo_net = rs_net s, fo_metadata = rs_metadata s, fo_mutation = rs_mutation s,
          fo_calls = rs_calls s\<rparr>)"

definition response_result :: "'x metadata \<Rightarrow> outlier_result" where
  "response_result md = (case md_response_status md of
     RS_Ok \<Rightarrow> if md_message_type md = MT_Error then ExtOriginRequestFailed else ExtOriginRequestSuccess
   | RS_Error \<Rightarrow> ExtOriginRequestFailed)"

definition router_onMessageEncoded ::
  "'m router \<Rightarrow> ('m, 'o) pfilter \<Rightarrow> ('c, 'x) net \<Rightarrow> 'x metadata \<Rightarrow> mutation
   \<Rightarrow> ('c, 'x, ('m, 'o) pfilter) outcome" where
  "router_onMessageEncoded ro g nt md mut =
     (let out = (\<lambda>st ro' nt'. \<lparr>fo_status = st, fo_filter = FRouter ro', fo_shared = g, fo_net = nt',
                   fo_metadata = md, fo_mutation = mut, fo_calls = []\<rparr>)
      in case ro_upstream_request ro of
           None \<Rightarrow> out (Inr ContinueIteration) ro nt
         | Some r \<Rightarrow>
             let ro1 = ro\<lparr>ro_response_metadata := True\<rparr> in
             (case ur_upstream_host r of
                None \<Rightarrow> out (Inl (Undefined ''upstream_host_ is null'')) ro1 nt
              | Some h \<Rightarrow> out (Inr ContinueIteration) ro1 (putResult h (response_result md) nt)))"

text \<open>The connection is not closed, only given back.\<close>

definition router_onDestroy :: "nat \<Rightarrow> 'm router \<Rightarrow> ('c, 'x) net \<Rightarrow> ('c, 'x) net" where
  "router_onDestroy i ro nt = (case ro_upstream_request ro of
     None \<Rightarrow> nt
   | Some r \<Rightarrow> (case ur_upstream_handler r of
        Some h \<Rightarrow> removeUpsteamRequestCallbacks h i nt
      | None \<Rightarrow> release_effect False r nt))"

definition other_outcome ::
  "('m, 'o) pfilter \<Rightarrow> ('c, 'x, 'o) outcome \<Rightarrow> ('c, 'x, ('m, 'o) pfilter) outcome" where
  "other_outcome g fo = \<lparr>fo_status = fo_status fo, fo_filter = FOther (fo_filter fo),
     fo_shared = (case g of FOther _ \<Rightarrow> FOther (fo_shared fo) | _ \<Rightarrow> g), fo_net = fo_net fo,
     fo_metadata = fo_metadata fo, fo_mutation = fo_mutation fo, fo_calls = fo_calls fo\<rparr>"

fun shared_of :: "'o \<Rightarrow> ('m, 'o) pfilter \<Rightarrow> 'o" where
  "shared_of d (FOther g) = g"
| "shared_of d (FRouter _) = d"

text \<open>A chain of the router and other filters.\<close>

definition proxy_filters ::
  "('c, 'x, 'm) router_env \<Rightarrow> ('c, 'x, 'o) filter_fns \<Rightarrow> ('c, 'x, ('m, 'o) pfilter) filter_fns" where
  "proxy_filters rv other = \<lparr>
     ff_onMessageDecoded = (\<lambda>i f g nt md mut. case f of
        FRouter ro \<Rightarrow> router_onMessageDecoded rv i ro g nt md mut
      | FOther x \<Rightarrow> other_outcome g (ff_onMessageDecoded other i x (shared_of x g) nt md mut)),
     ff_onMessageEncoded = (\<lambda>i f g nt md mut. case f of
        FRouter ro \<Rightarrow> router_onMessageEncoded ro g nt md mut
      | FOther x \<Rightarrow> other_outcome g (ff_onMessageEncoded other i x (shared_of x g) nt md mut)),
     ff_onDestroy = (\<lambda>i f nt. case f of
        FRouter ro \<Rightarrow> router_onDestroy i ro nt
      | FOther x \<Rightarrow> ff_onDestroy other i x nt)\<rparr>"

section \<open>The callbacks of the upstream side\<close>

text \<open>The router is the last filter: its place among all filters and among the decoder filters.\<close>

definition router_index :: "('c, 'x, 'f) config \<Rightarrow> nat" where
  "router_index cfg = length (cf_filterFactories cfg) - 1"

definition router_position :: "('c, 'x, 'f) config \<Rightarrow> nat" where
  "router_position cfg = length (filter (\<lambda>kf. fst kf \<noteq> EncoderKind) (cf_filterFactories cfg)) - 1"

definition message_router ::
  "('c, 'x, ('m, 'o) pfilter) config \<Rightarrow> ('c, 'x, ('m, 'o) pfilter) message \<Rightarrow> 'm router option" where
  "message_router cfg m =
     (if router_index cfg < length (am_filters m) then
        (case am_filters m ! router_index cfg of FRouter ro \<Rightarrow> Some ro | FOther _ \<Rightarrow> None)
      else None)"

definition get_router ::
  "('c, 'x, ('m, 'o) pfilter) config \<Rightarrow> nat \<Rightarrow> ('c, 'x, ('m, 'o) pfilter) conn \<Rightarrow> 'm router option" where
  "get_router cfg i cn = Option.bind (get_message i cn) (message_router cfg)"

definition upd_message_router ::
  "('c, 'x, ('m, 'o) pfilter) config \<Rightarrow> nat \<Rightarrow> ('m router \<Rightarrow> 'm router)
   \<Rightarrow> ('c, 'x, ('m, 'o) pfilter) conn \<Rightarrow> ('c, 'x, ('m, 'o) pfilter) conn" where
  "upd_message_router cfg i f = upd_message i (\<lambda>m. m\<lparr>am_filters := (am_filters m)
     [router_index cfg := (case am_filters m ! router_index cfg of FRouter ro \<Rightarrow> FRouter (f ro) | x \<Rightarrow> x)]\<rparr>)"

definition conn_owner ::
  "('c, 'x, ('m, 'o) pfilter) config \<Rightarrow> nat \<Rightarrow> ('c, 'x, ('c, 'x, ('m, 'o) pfilter) conn) owner" where
  "conn_owner cfg i = \<lparr>
     ow_metadata = (\<lambda>cn. Option.bind (get_message i cn) am_metadata),
     ow_set_metadata = (\<lambda>md. upd_message i (\<lambda>m. m\<lparr>am_metadata := Some md\<rparr>)),
     ow_request = (\<lambda>cn. Option.bind (get_router cfg i cn) ro_upstream_request),
     ow_set_request = (\<lambda>r. upd_message_router cfg i (\<lambda>ro. ro\<lparr>ro_upstream_request := r\<rparr>)),
     ow_net = cn_net,
     ow_set_net = (\<lambda>nt cn. cn\<lparr>cn_net := nt\<rparr>),
     ow_codec = cf_codec cfg,
     ow_createCodec = (\<lambda>cn. (True, cn)),
     ow_continueDecoding = continueDecoding cfg i (router_position cfg),
     ow_sendLocalReply = am_sendLocalReply cfg i,
     ow_resetStream = (\<lambda>cn. (Inr (), deferredDeleteMessage i cn)),
     ow_setUpstreamConnection = (\<lambda>_. am_setUpstreamConnection i),
     ow_onUpstreamHostSelected = (\<lambda>h. upd_message_router cfg i (\<lambda>ro. ro\<lparr>ro_upstream_host := Some h\<rparr>))\<rparr>"

definition router_onPoolReady ::
  "('c, 'x, ('m, 'o) pfilter) config \<Rightarrow> nat \<Rightarrow> string \<Rightarrow> string \<Rightarrow> ('c, 'x, ('m, 'o) pfilter) conn
   \<Rightarrow> unit res \<times> ('c, 'x, ('m, 'o) pfilter) conn" where
  "router_onPoolReady cfg i host addr cn =
     (let n = nt_next_conn (cn_net cn)
      in ur_onPoolReady (conn_owner cfg i) n host addr (cn\<lparr>cn_net := (cn_net cn)\<lparr>nt_next_conn := Suc n\<rparr>\<rparr>))"

definition router_onPoolFailure ::
  "('c, 'x, ('m, 'o) pfilter) config \<Rightarrow> nat \<Rightarrow> pool_failure_reason \<Rightarrow> string
   \<Rightarrow> ('c, 'x, ('m, 'o) pfilter) conn \<Rightarrow> unit res \<times> ('c, 'x, ('m, 'o) pfilter) conn" where
  "router_onPoolFailure cfg i = ur_onPoolFailure (conn_owner cfg i)"

text \<open>An access log entry, and the end of the span when there is one.\<close>

definition log_entry ::
  "response_status \<Rightarrow> string \<Rightarrow> ('c, 'x, 'f) conn \<Rightarrow> ('c, 'x, 'f) conn" where
  "log_entry st detail cn = cn\<lparr>cn_net := emitLogEntry st detail (cn_net cn)\<rparr>"

definition finalize_without_response ::
  "('c, 'x, 'm) router_env \<Rightarrow> ('c, 'x, ('m, 'o) pfilter) config \<Rightarrow> nat
   \<Rightarrow> ('c, 'x, ('m, 'o) pfilter) conn \<Rightarrow> unit res \<times> ('c, 'x, ('m, 'o) pfilter) conn" where
  "finalize_without_response rv cfg i cn =
     (case Option.bind (get_router cfg i cn) ro_active_span of
        None \<Rightarrow> (Inr (), cn)
      | Some sp \<Rightarrow>
          (case rv_tracing_config rv of
             None \<Rightarrow> (Inl (Undefined ''tracingConfig() is null''), cn)
           | Some tc \<Rightarrow> (Inr (), upd_message_router cfg i (\<lambda>ro. ro\<lparr>ro_active_span :=
                Some (finalizeSpanWithoutResponse (rv_stream_info rv i) tc RS_Error sp)\<rparr>) cn)))"

definition finalize_with_response ::
  "('c, 'x, 'm) router_env \<Rightarrow> ('c, 'x, ('m, 'o) pfilter) config \<Rightarrow> nat \<Rightarrow> 'x metadata option
   \<Rightarrow> ('c, 'x, ('m, 'o) pfilter) conn \<Rightarrow> unit res \<times> ('c, 'x, ('m, 'o) pfilter) conn" where
  "finalize_with_response rv cfg i response_metadata cn =
     (case Option.bind (get_router cfg i cn) ro_active_span of
        None \<Rightarrow> (Inr (), cn)
      | Some sp \<Rightarrow>
          (case (response_metadata, rv_tracing_config rv) of
             (Some md, Some tc) \<Rightarrow> (Inr (), upd_message_router cfg i (\<lambda>ro. ro\<lparr>ro_active_span :=
                Some (finalizeSpanWithResponse md (rv_stream_info rv i) tc sp)\<rparr>) cn)
           | _ \<Rightarrow> (Inl (Undefined ''response metadata or tracingConfig() is null''), cn)))"

definition onUpstreamResponseComplete ::
  "('c, 'x, 'm) router_env \<Rightarrow> ('c, 'x, ('m, 'o) pfilter) config \<Rightarrow> nat \<Rightarrow> 'x metadata option
   \<Rightarrow> ('c, 'x, ('m, 'o) pfilter) conn \<Rightarrow> unit res \<times> ('c, 'x, ('m, 'o) pfilter) conn" where
  "onUpstreamResponseComplete rv cfg i response_metadata cn =
     bindS (ur_onResponseComplete (conn_owner cfg i) cn) (\<lambda>_ cn1.
     bindS (finalize_with_response rv cfg i response_metadata (destroy_request (conn_owner cfg i) cn1)) (\<lambda>_ cn2.
       (Inr (), log_entry RS_Ok [] cn2)))"

definition onUpstreamResponseCallback ::
  "('c, 'x, 'm) router_env \<Rightarrow> ('c, 'x, ('m, 'o) pfilter) config \<Rightarrow> nat \<Rightarrow> 'x metadata
   \<Rightarrow> ('c, 'x, ('m, 'o) pfilter) conn \<Rightarrow> unit res \<times> ('c, 'x, ('m, 'o) pfilter) conn" where
  "onUpstreamResponseCallback rv cfg i md cn =
     bindS (onUpstreamResponseComplete rv cfg i (Some md) cn) (\<lambda>_ cn1.
       (Inr (), deferredDeleteMessage i cn1))"

definition router_onEvent ::
  "('c, 'x, 'm) router_env \<Rightarrow> ('c, 'x, ('m, 'o) pfilter) config \<Rightarrow> nat \<Rightarrow> connection_event
   \<Rightarrow> ('c, 'x, ('m, 'o) pfilter) conn \<Rightarrow> unit res \<times> ('c, 'x, ('m, 'o) pfilter) conn" where
  "router_onEvent rv cfg i ev cn =
     bindS (onUpstreamConnectionEvent (conn_owner cfg i) ev cn) (\<lambda>_. finalize_without_response rv cfg i)"

text \<open>The metadata of the response is that of the response decoder, once the router has seen it.\<close>

definition response_metadata ::
  "('c, 'x, ('m, 'o) pfilter) config \<Rightarrow> nat \<Rightarrow> ('c, 'x, ('m, 'o) pfilter) conn \<Rightarrow> 'x metadata option" where
  "response_metadata cfg i cn = (case get_router cfg i cn of
     Some ro \<Rightarrow> if ro_response_metadata ro
       then Option.bind (Option.bind (get_message i cn) am_response_decoder) rd_metadata else None
   | None \<Rightarrow> None)"

text \<open>After \<^verbatim>\<open>Reset\<close>: closing the upstream connection raises \<^verbatim>\<open>LocalClose\<close> on
  the router before the call returns.\<close>

definition upstream_reset ::
  "('c, 'x, 'm) router_env \<Rightarrow> ('c, 'x, ('m, 'o) pfilter) config \<Rightarrow> nat
   \<Rightarrow> ('c, 'x, ('m, 'o) pfilter) conn \<Rightarrow> unit res \<times> ('c, 'x, ('m, 'o) pfilter) conn" where
  "upstream_reset rv cfg i cn =
     bindS (releaseUpStreamConnection (conn_owner cfg i) True cn) (\<lambda>closed cn1.
     bindS (if closed then router_onEvent rv cfg i LocalClose cn1 else (Inr (), cn1)) (\<lambda>_ cn2.
     bindS (finalize_without_response rv cfg i cn2) (\<lambda>_ cn3.
       (Inr (), log_entry RS_Error ''upstream_reset'' cn3))))"

definition response_incomplete ::
  "('c, 'x, 'm) router_env \<Rightarrow> ('c, 'x, ('m, 'o) pfilter) config \<Rightarrow> nat
   \<Rightarrow> ('c, 'x, ('m, 'o) pfilter) conn \<Rightarrow> unit res \<times> ('c, 'x, ('m, 'o) pfilter) conn" where
  "response_incomplete rv cfg i cn =
     bindS (onUpstreamConnectionReset (conn_owner cfg i) RemoteConnectionFailure cn) (\<lambda>_ cn1.
     bindS (ur_onResponseComplete (conn_owner cfg i) cn1) (\<lambda>_ cn2.
     bindS (finalize_without_response rv cfg i (destroy_request (conn_owner cfg i) cn2)) (\<lambda>_ cn3.
       (Inr (), log_entry RS_Error ''upstream_response_incomplete'' cn3))))"

definition start_response ::
  "('c, 'x, ('m, 'o) pfilter) config \<Rightarrow> nat \<Rightarrow> ('c, 'x, ('m, 'o) pfilter) conn
   \<Rightarrow> unit res \<times> ('c, 'x, ('m, 'o) pfilter) conn" where
  "start_response cfg i = with_request (conn_owner cfg i) (\<lambda>r cn.
     if \<not> ur_response_started r
     then (Inr (), ur_onResponseStarted (conn_owner cfg i) (am_startUpstreamResponse cfg i cn))
     else (Inr (), cn))"

definition router_onUpstreamData ::
  "('c, 'x, 'm) router_env \<Rightarrow> ('c, 'x, ('m, 'o) pfilter) config \<Rightarrow> nat \<Rightarrow> buffer \<Rightarrow> bool
   \<Rightarrow> ('c, 'x, ('m, 'o) pfilter) conn \<Rightarrow> unit res \<times> ('c, 'x, ('m, 'o) pfilter) conn" where
  "router_onUpstreamData rv cfg i data end_stream cn =
     bindS (start_response cfg i cn) (\<lambda>_ cn1.
     bindS (am_upstreamData cfg i data cn1) (\<lambda>(status, _) cn2.
       case status of
         UR_Complete \<Rightarrow> onUpstreamResponseComplete rv cfg i (response_metadata cfg i cn2) cn2
       | UR_Reset \<Rightarrow> upstream_reset rv cfg i cn2
       | UR_MoreData \<Rightarrow> if end_stream then response_incomplete rv cfg i cn2 else (Inr (), cn2)
       | UR_Retry \<Rightarrow> (Inl (Panic ''not reached''), cn2)))"

section \<open>The callbacks of a shared handler\<close>

fun pool_ready_requests ::
  "('c, 'x, ('m, 'o) pfilter) config \<Rightarrow> nat \<Rightarrow> string \<Rightarrow> nat list \<Rightarrow> ('c, 'x, ('m, 'o) pfilter) conn
   \<Rightarrow> unit res \<times> ('c, 'x, ('m, 'o) pfilter) conn" where
  "pool_ready_requests cfg h host [] cn = (Inr (), cn)"
| "pool_ready_requests cfg h host (i # is) cn =
     bindS (bh_onPoolReady (conn_owner cfg i) h host cn) (\<lambda>_. pool_ready_requests cfg h host is)"

fun pool_failed_requests ::
  "('c, 'x, ('m, 'o) pfilter) config \<Rightarrow> pool_failure_reason \<Rightarrow> string \<Rightarrow> nat list
   \<Rightarrow> ('c, 'x, ('m, 'o) pfilter) conn \<Rightarrow> unit res \<times> ('c, 'x, ('m, 'o) pfilter) conn" where
  "pool_failed_requests cfg reason host [] cn = (Inr (), cn)"
| "pool_failed_requests cfg reason host (i # is) cn =
     bindS (bh_onPoolFailure (conn_owner cfg i) reason host cn) (\<lambda>_. pool_failed_requests cfg reason host is)"

definition waiting_requests :: "nat \<Rightarrow> ('c, 'x) net \<Rightarrow> nat list" where
  "waiting_requests h nt = (case get_handler h nt of Some u \<Rightarrow> uh_request_callbacks u | None \<Rightarrow> [])"

definition upd_cn_net ::
  "(('c, 'x) net \<Rightarrow> ('c, 'x) net) \<Rightarrow> ('c, 'x, 'f) conn \<Rightarrow> ('c, 'x, 'f) conn" where
  "upd_cn_net f cn = cn\<lparr>cn_net := f (cn_net cn)\<rparr>"

definition clear_requests :: "nat \<Rightarrow> ('c, 'x, 'f) conn \<Rightarrow> ('c, 'x, 'f) conn" where
  "clear_requests h = upd_cn_net (upd_handler h (\<lambda>u. u\<lparr>uh_request_callbacks := []\<rparr>))"

definition handler_onPoolReady ::
  "('c, 'x, ('m, 'o) pfilter) config \<Rightarrow> nat \<Rightarrow> string \<Rightarrow> ('c, 'x, ('m, 'o) pfilter) conn
   \<Rightarrow> unit res \<times> ('c, 'x, ('m, 'o) pfilter) conn" where
  "handler_onPoolReady cfg h host cn =
     (let n = nt_next_conn (cn_net cn);
          cn1 = upd_cn_net (\<lambda>nt. handler_ready h n (nt\<lparr>nt_next_conn := Suc n\<rparr>)) cn
      in bindS (pool_ready_requests cfg h host (waiting_requests h (cn_net cn1)) cn1) (\<lambda>_ cn2.
           (Inr (), clear_requests h cn2)))"

definition handler_onPoolFailure ::
  "('c, 'x, ('m, 'o) pfilter) config \<Rightarrow> nat \<Rightarrow> pool_failure_reason \<Rightarrow> string
   \<Rightarrow> ('c, 'x, ('m, 'o) pfilter) conn \<Rightarrow> unit res \<times> ('c, 'x, ('m, 'o) pfilter) conn" where
  "handler_onPoolFailure cfg h reason host cn =
     (let cn1 = upd_cn_net (handler_failed h) cn
      in bindS (pool_failed_requests cfg reason host (waiting_requests h (cn_net cn1)) cn1) (\<lambda>_ cn2.
           (Inr (), clear_requests h cn2)))"

text \<open>\<^verbatim>\<open>UpstreamHandlerImpl::onMessageDecoded\<close>: the response is written to the downstream
  connection, then the callback of its request id runs.\<close>

definition handler_onMessageDecoded ::
  "('c, 'x, 'm) router_env \<Rightarrow> ('c, 'x, ('m, 'o) pfilter) config \<Rightarrow> nat \<Rightarrow> 'x metadata
   \<Rightarrow> ('c, 'x, ('m, 'o) pfilter) conn \<Rightarrow> unit res \<times> ('c, 'x, ('m, 'o) pfilter) conn" where
  "handler_onMessageDecoded rv cfg h md cn =
     (let cn1 = conn_write (md_origin_message md) False cn;
          request_id = md_request_id md
      in case Option.bind (get_handler h (cn_net cn1)) (\<lambda>u. map_find (uh_response_callbacks u) request_id) of
           None \<Rightarrow> (Inr (), cn1)
         | Some i \<Rightarrow>
             bindS (onUpstreamResponseCallback rv cfg i (md\<lparr>md_origin_message := []\<rparr>) cn1) (\<lambda>_ cn2.
               (Inr (), upd_cn_net (upd_handler h (\<lambda>u. u\<lparr>uh_response_callbacks :=
                  map_erase request_id (uh_response_callbacks u)\<rparr>)) cn2)))"

text \<open>\<^verbatim>\<open>UpstreamHandlerResponseDecoder\<close>; the state is the connection and the bit
  \<^verbatim>\<open>complete_\<close>.\<close>

definition handler_callbacks ::
  "('c, 'x, 'm) router_env \<Rightarrow> ('c, 'x, ('m, 'o) pfilter) config \<Rightarrow> nat
   \<Rightarrow> (('c, 'x, ('m, 'o) pfilter) conn \<times> bool, unit, 'x) callbacks" where
  "handler_callbacks rv cfg h = \<lparr>cb_newMessageHandler = (\<lambda>s. ((), s)),
     cb_onMessageDecoded = (\<lambda>_ md mut s.
       case co_encode (cf_codec cfg) md mut (md_origin_message md) of
         Inl e \<Rightarrow> (Inl e, (fst s, True))
       | Inr (b, md1) \<Rightarrow>
           (case handler_onMessageDecoded rv cfg h (md1\<lparr>md_origin_message := b\<rparr>) (fst s) of
              (r, cn) \<Rightarrow> (r, (cn, True)))),
     cb_onHeartbeat = (\<lambda>_ s. (Inr True, s))\<rparr>"

definition handler_onUpstreamData ::
  "('c, 'x, 'm) router_env \<Rightarrow> ('c, 'x, ('m, 'o) pfilter) config \<Rightarrow> nat \<Rightarrow> buffer
   \<Rightarrow> ('c, 'x, ('m, 'o) pfilter) conn \<Rightarrow> buffer res \<times> ('c, 'x, ('m, 'o) pfilter) conn" where
  "handler_onUpstreamData rv cfg h data cn =
     (case get_handler h (cn_net cn) of
        None \<Rightarrow> (Inl (Undefined ''upstream handler destroyed''), cn)
      | Some u \<Rightarrow>
          (case (case uh_upstream_response u of
                   Some dc \<Rightarrow> dc
                 | None \<Rightarrow> (new_decoder (co_new (cf_codec cfg)) Response, nt_uninit (cn_net cn))) of
             (d, fin) \<Rightarrow>
               (case onData (co_decode (cf_codec cfg)) (handler_callbacks rv cfg h) d data (cn, fin) of
                  (Inl e, (cn1, _)) \<Rightarrow>
                    if envoy_what e \<noteq> None
                    then (Inr [], upd_cn_net (upd_handler h (\<lambda>u. u\<lparr>uh_upstream_response := None\<rparr>)) cn1)
                    else (Inl e, cn1)
                | (Inr (_, d1, rest), (cn1, fin1)) \<Rightarrow>
                    (Inr rest, upd_cn_net (upd_handler h (\<lambda>u. u\<lparr>uh_upstream_response :=
                       (if fin1 then None else Some (d1, fin1))\<rparr>)) cn1))))"

section \<open>The proxy\<close>

text \<open>The events of a connection with its upstream side.\<close>

datatype proxy_event =
    Core event
  | PoolReady nat string string
  | PoolFailure nat pool_failure_reason string
  | UpstreamRead nat buffer bool
  | UpstreamEvent nat connection_event
  | HandlerReady nat string
  | HandlerFailure nat pool_failure_reason string
  | HandlerRead nat buffer
  | HandlerEvent nat connection_event
  | ShadowReady nat string string
  | ShadowFailure nat pool_failure_reason string
  | ShadowRead nat buffer bool
  | ShadowEvent nat connection_event
  | ClustersChange "string \<Rightarrow> cluster option"

definition on_net ::
  "(('c, 'x) net \<Rightarrow> unit res \<times> ('c, 'x) net) \<Rightarrow> ('c, 'x, 'f) conn \<Rightarrow> unit res \<times> ('c, 'x, 'f) conn" where
  "on_net f cn = (case f (cn_net cn) of (r, nt) \<Rightarrow> (r, cn\<lparr>cn_net := nt\<rparr>))"

definition shadow_onPoolReady ::
  "('c, 'x) codec \<Rightarrow> string \<Rightarrow> string \<Rightarrow> ('c, 'x) shadow \<Rightarrow> unit res \<times> ('c, 'x) shadow" where
  "shadow_onPoolReady co host addr s =
     (let n = nt_next_conn (snd s)
      in ur_onPoolReady (shadow_owner co) n host addr (fst s, (snd s)\<lparr>nt_next_conn := Suc n\<rparr>))"

fun proxy_conn_event ::
  "('c, 'x, 'm) router_env \<Rightarrow> ('c, 'x, ('m, 'o) pfilter) config \<Rightarrow> proxy_event
   \<Rightarrow> ('c, 'x, ('m, 'o) pfilter) conn \<Rightarrow> unit res \<times> ('c, 'x, ('m, 'o) pfilter) conn" where
  "proxy_conn_event rv cfg (PoolReady i host addr) cn = router_onPoolReady cfg i host addr cn"
| "proxy_conn_event rv cfg (PoolFailure i reason host) cn = router_onPoolFailure cfg i reason host cn"
| "proxy_conn_event rv cfg (UpstreamRead i data e) cn = router_onUpstreamData rv cfg i data e cn"
| "proxy_conn_event rv cfg (UpstreamEvent i ev) cn = router_onEvent rv cfg i ev cn"
| "proxy_conn_event rv cfg (HandlerReady h host) cn = handler_onPoolReady cfg h host cn"
| "proxy_conn_event rv cfg (HandlerFailure h reason host) cn = handler_onPoolFailure cfg h reason host cn"
| "proxy_conn_event rv cfg (HandlerRead h data) cn =
     bindS (handler_onUpstreamData rv cfg h data cn) (\<lambda>_ cn1. (Inr (), cn1))"
| "proxy_conn_event rv cfg (HandlerEvent h ev) cn = (Inr (), upd_cn_net (handler_onEvent h ev) cn)"
| "proxy_conn_event rv cfg (ShadowReady n host addr) cn =
     on_net (on_shadow n (shadow_onPoolReady (cf_codec cfg) host addr)) cn"
| "proxy_conn_event rv cfg (ShadowFailure n reason host) cn =
     on_net (on_shadow n (ur_onPoolFailure (shadow_owner (cf_codec cfg)) reason host)) cn"
| "proxy_conn_event rv cfg (ShadowRead n data e) cn =
     on_net (on_shadow n (shadow_onUpstreamData (cf_codec cfg) data e)) cn"
| "proxy_conn_event rv cfg (ShadowEvent n ev) cn =
     on_net (on_shadow n (shadow_onEvent (cf_codec cfg) ev)) cn"
| "proxy_conn_event rv cfg (ClustersChange cl) cn = (Inr (), upd_cn_net (\<lambda>nt. nt\<lparr>nt_clusters := cl\<rparr>) cn)"
| "proxy_conn_event rv cfg (Core ev) cn = (Inr (), cn)"

definition proxy_handle ::
  "('c, 'x, 'm) router_env \<Rightarrow> ('c, 'x, ('m, 'o) pfilter) config \<Rightarrow> proxy_event
   \<Rightarrow> ('c, 'x, ('m, 'o) pfilter) cm \<Rightarrow> (unit res \<times> ('c, 'x, ('m, 'o) pfilter) cm) option" where
  "proxy_handle rv cfg ev cm = (case ev of
     Core e \<Rightarrow> handle cfg e cm
   | _ \<Rightarrow> on_conn (proxy_conn_event rv cfg ev) cm)"

inductive proxy_reachable ::
  "('c, 'x, 'm) router_env \<Rightarrow> ('c, 'x, ('m, 'o) pfilter) config \<Rightarrow> ('m, 'o) pfilter \<Rightarrow> ('c, 'x) net
   \<Rightarrow> ('c, 'x, ('m, 'o) pfilter) cm \<Rightarrow> bool" for rv cfg g nt where
  proxy_init: "proxy_reachable rv cfg g nt (new_cm cfg g nt)"
| proxy_step: "proxy_reachable rv cfg g nt cm \<Longrightarrow> proxy_handle rv cfg ev cm = Some (Inr (), cm')
     \<Longrightarrow> proxy_reachable rv cfg g nt cm'"

section \<open>Reading back a message\<close>

lemma map_of_update_at [simp]:
  "map_of (update_at i f ms) j = (if j = i then map_option f (map_of ms j) else map_of ms j)"
  by (induction ms) (auto simp: update_at_def)

lemma update_at_append [simp]: "update_at i f (xs @ ys) = update_at i f xs @ update_at i f ys"
  by (simp add: update_at_def)

lemma get_message_upd [simp]:
  "get_message j (upd_message i f cn) =
     (if j = i then map_option f (get_message j cn) else get_message j cn)"
proof -
  have "cn_messages (upd_message i f cn) @ cn_deferred (upd_message i f cn)
      = update_at i f (cn_messages cn @ cn_deferred cn)" by (simp add: upd_message_def)
  then show ?thesis unfolding get_message_def
    by (simp del: update_at_append map_of_append)
qed

lemma get_message_frame [simp]:
  "get_message i (cn\<lparr>cn_net := nt\<rparr>) = get_message i cn"
  "get_message i (cn\<lparr>cn_stats := st\<rparr>) = get_message i cn"
  "get_message i (cn\<lparr>cn_shared := g\<rparr>) = get_message i cn"
  "get_message i (cn\<lparr>cn_streams := ss\<rparr>) = get_message i cn"
  "get_message i (conn_write b e cn) = get_message i cn"
  "get_message i (conn_close t cn) = get_message i cn"
  by (simp_all add: get_message_def)

lemma map_of_filter_other: "j \<noteq> i \<Longrightarrow> map_of (filter (\<lambda>jm. fst jm \<noteq> i) ms) j = map_of ms j"
  by (induction ms) auto

lemma map_of_filter_same: "map_of (filter (\<lambda>jm. fst jm \<noteq> i) ms) i = None"
  by (induction ms) auto

lemma get_message_delete:
  assumes "distinct (map fst (cn_messages cn @ cn_deferred cn))"
  shows "get_message j (deferredDeleteMessage i cn) = get_message j cn"
proof (cases "map_of (cn_messages cn) i")
  case (Some m)
  have "i \<notin> fst ` set (cn_deferred cn)"
    using assms map_of_SomeD [OF Some] by force
  then have "map_of (cn_deferred cn) i = None" by (simp add: map_of_eq_None_iff)
  with Some show ?thesis
    by (cases "j = i")
      (auto simp: deferredDeleteMessage_def get_message_def map_of_filter_other map_of_filter_same
        map_add_def split: option.split)
qed (simp add: deferredDeleteMessage_def)

lemma cn_net_delete [simp]: "cn_net (deferredDeleteMessage i cn) = cn_net cn"
  by (simp add: deferredDeleteMessage_def split: option.split)

lemma conn_frame_net [simp]:
  "cn_net (conn_write b e cn) = cn_net cn"
  "cn_net (conn_close t cn) = cn_net cn"
  by (simp_all add: conn_write_def conn_close_def)

section \<open>The owner of a request\<close>

text \<open>
  What a request relies on from its owner: the metadata, the request and the upstream side are
  separate objects, each reads back what was stored, and the selection of a host touches none of
  them.  A routing owner also has a codec whenever it is asked for one.
\<close>

definition sent_state ::
  "('c, 'x, 's) owner \<Rightarrow> nat \<Rightarrow> buffer \<Rightarrow> 'x metadata \<Rightarrow> 's \<Rightarrow> 's" where
  "sent_state ow conn data md s = upd_net ow (upstream_write conn data False)
     (upd_request ow (\<lambda>r. r\<lparr>ur_buffer := []\<rparr>) (ow_set_metadata ow md (snd (ow_createCodec ow s))))"

definition ready_state ::
  "('c, 'x, 's) owner \<Rightarrow> nat \<Rightarrow> string \<Rightarrow> string \<Rightarrow> 'x metadata \<Rightarrow> 's \<Rightarrow> 's" where
  "ready_state ow conn host addr md s = ow_set_metadata ow (putString RealServerAddress addr md)
     (upd_request ow (\<lambda>r. r\<lparr>ur_conn_data := Some conn, ur_conn_pool_handle := False\<rparr>)
       (upd_net ow (putResult host LocalOriginConnectSuccess)
         (ur_onUpstreamHostSelected ow host (ow_onUpstreamHostSelected ow host s))))"

locale request_owner =
  fixes ow :: "('c, 'x, 's) owner"
  assumes request_set: "ow_request ow s \<noteq> None \<Longrightarrow> ow_request ow (ow_set_request ow q s) = q"
    and request_unset: "ow_request ow s = None \<Longrightarrow> ow_request ow (ow_set_request ow None s) = None"
    and request_net: "ow_net ow (ow_set_request ow q s) = ow_net ow s"
    and request_metadata: "ow_metadata ow (ow_set_request ow q s) = ow_metadata ow s"
    and net_set: "ow_net ow (ow_set_net ow nt s) = nt"
    and net_request: "ow_request ow (ow_set_net ow nt s) = ow_request ow s"
    and net_metadata: "ow_metadata ow (ow_set_net ow nt s) = ow_metadata ow s"
    and metadata_set: "ow_metadata ow s \<noteq> None \<Longrightarrow> ow_metadata ow (ow_set_metadata ow md s) = Some md"
    and metadata_request: "ow_request ow (ow_set_metadata ow md s) = ow_request ow s"
    and metadata_net: "ow_net ow (ow_set_metadata ow md s) = ow_net ow s"
    and host_request: "ow_request ow (ow_onUpstreamHostSelected ow h s) = ow_request ow s"
    and host_net: "ow_net ow (ow_onUpstreamHostSelected ow h s) = ow_net ow s"
    and host_metadata: "ow_metadata ow (ow_onUpstreamHostSelected ow h s) = ow_metadata ow s"
    and codec_request: "ow_request ow (snd (ow_createCodec ow s)) = ow_request ow s"
    and codec_net: "ow_net ow (snd (ow_createCodec ow s)) = ow_net ow s"
    and codec_metadata: "ow_metadata ow (snd (ow_createCodec ow s)) = ow_metadata ow s"
begin

lemmas reads = request_net request_metadata net_set net_request net_metadata metadata_request
  metadata_net host_request host_net host_metadata codec_request codec_net codec_metadata

lemma upd_request_reads [simp]:
  "ow_request ow (upd_request ow f s) = map_option f (ow_request ow s)" 
  "ow_net ow (upd_request ow f s) = ow_net ow s"
  "ow_metadata ow (upd_request ow f s) = ow_metadata ow s"
  by (cases "ow_request ow s"; simp add: upd_request_def reads request_set request_unset)+

lemma upd_net_reads [simp]:
  "ow_request ow (upd_net ow g s) = ow_request ow s"
  "ow_net ow (upd_net ow g s) = g (ow_net ow s)"
  "ow_metadata ow (upd_net ow g s) = ow_metadata ow s"
  by (simp_all add: upd_net_def reads)

lemmas [simp] = request_net request_metadata net_set net_request net_metadata metadata_request
  metadata_net host_request host_net host_metadata

lemma with_request_Some [simp]: "ow_request ow s = Some r \<Longrightarrow> with_request ow f s = f r s"
  by (simp add: with_request_def)

lemma with_metadata_Some [simp]: "ow_metadata ow s = Some md \<Longrightarrow> with_metadata ow f s = f md s"
  by (simp add: with_metadata_def)

lemma encodeData_writes:
  assumes "ow_request ow s = Some r" "ow_metadata ow s = Some md" "fst (ow_createCodec ow s)"
    and "co_encode (ow_codec ow) md (ur_mutation r) (ur_buffer r) = Inr (data, md1)"
    and "ur_conn_data r = Some c"
  shows "ur_encodeData ow s = (Inr (), sent_state ow c data md1 s)"
    and "ow_request ow (sent_state ow c data md1 s) = Some (r\<lparr>ur_buffer := []\<rparr>)"
    and "ow_metadata ow (sent_state ow c data md1 s) = Some md1"
    and "ow_net ow (sent_state ow c data md1 s) = upstream_write c data False (ow_net ow s)"
  using assms codec_request [of s] codec_net [of s] codec_metadata [of s]
  by (cases "ow_createCodec ow s"; simp add: ur_encodeData_def sent_state_def metadata_set)+

lemma onPoolReady_eq:
  assumes "ow_request ow s = Some r" "ow_metadata ow s = Some md"
  shows "ur_onPoolReady ow c host addr s =
    bindS (onRequestStart ow (ur_conn_pool_handle r) (ready_state ow c host addr md s)) (\<lambda>_ s4.
    bindS (ur_encodeData ow s4) (\<lambda>_ s5.
    bindS (hand_over_stream ow s5) (\<lambda>_ s6.
      (Inr (), upd_request ow (\<lambda>r. r\<lparr>ur_request_complete := True\<rparr>) s6))))"
  using assms by (simp add: ur_onPoolReady_def ready_state_def Let_def ur_onUpstreamHostSelected_def)

lemma ready_state_reads:
  assumes "ow_request ow s = Some r" "ow_metadata ow s = Some md"
  shows "ow_request ow (ready_state ow c host addr md s) = Some (r\<lparr>ur_upstream_host := Some host,
       ur_conn_data := Some c, ur_conn_pool_handle := False\<rparr>)"
    and "ow_metadata ow (ready_state ow c host addr md s) = Some (putString RealServerAddress addr md)"
    and "ow_net ow (ready_state ow c host addr md s) = putResult host LocalOriginConnectSuccess (ow_net ow s)"
  using assms by (simp_all add: ready_state_def ur_onUpstreamHostSelected_def metadata_set)

text \<open>From the state in which the filters have all run: the request is written to the
  connection, with the values of its mutation, and nothing else.\<close>

lemma poolReady_writes:
  assumes "ow_request ow s = Some r" "ow_metadata ow s = Some md"
    and "onRequestStart ow (ur_conn_pool_handle r) (ready_state ow c host addr md s) = (Inr (), s4)"
    and "ow_request ow s4 = ow_request ow (ready_state ow c host addr md s)"
    and "ow_metadata ow s4 = ow_metadata ow (ready_state ow c host addr md s)"
    and "ow_net ow s4 = ow_net ow (ready_state ow c host addr md s)"
    and "fst (ow_createCodec ow s4)"
    and "co_encode (ow_codec ow) (putString RealServerAddress addr md) (ur_mutation r) (ur_buffer r)
           = Inr (data, md1)"
    and "md_message_type md1 = Request"
  defines "s' \<equiv> upd_request ow (\<lambda>r. r\<lparr>ur_request_complete := True\<rparr>) (sent_state ow c data md1 s4)"
  shows "ur_onPoolReady ow c host addr s = (Inr (), s')"
    and "ow_request ow s' = Some (r\<lparr>ur_upstream_host := Some host, ur_conn_data := Some c,
           ur_conn_pool_handle := False, ur_buffer := [], ur_request_complete := True\<rparr>)"
    and "ow_metadata ow s' = Some md1"
    and "ow_net ow s' = upstream_write c data False (putResult host LocalOriginConnectSuccess (ow_net ow s))"
proof -
  let ?r = "r\<lparr>ur_upstream_host := Some host, ur_conn_data := Some c, ur_conn_pool_handle := False\<rparr>"
  note s4 = assms(4-6) [unfolded ready_state_reads [OF assms(1,2)]]
  have "co_encode (ow_codec ow) (putString RealServerAddress addr md) (ur_mutation ?r) (ur_buffer ?r) = Inr (data, md1)"
    "ur_conn_data ?r = Some c" using assms(8) by simp_all
  note w = encodeData_writes [OF s4(1,2) assms(7) this]
  show "ur_onPoolReady ow c host addr s = (Inr (), s')"
    using w assms(3,9) by (simp add: onPoolReady_eq [OF assms(1,2)] hand_over_stream_def s'_def)
qed (use assms(4-6) [unfolded ready_state_reads [OF assms(1,2)]]
  encodeData_writes [of s4 "r\<lparr>ur_upstream_host := Some host, ur_conn_data := Some c, ur_conn_pool_handle := False\<rparr>"
    "putString RealServerAddress addr md" data md1 c] assms(7,8) in \<open>simp_all add: s'_def\<close>)

text \<open>A reset of the connection is reported to the client.\<close>

lemma connectionReset_eq:
  assumes "ow_request ow s = Some r" "ow_metadata ow s = Some md" "md_message_type md \<noteq> Oneway"
    and "reset_message reason (ur_upstream_host r) = Inr msg"
  shows "onUpstreamConnectionReset ow reason s =
    bindS (ow_sendLocalReply ow (Error Unspecified msg) False s) (\<lambda>_. with_request ow (\<lambda>r1 s1.
      if \<not> ur_response_complete r1 then ow_resetStream ow s1 else (Inr (), s1)))"
  using assms by (simp add: onUpstreamConnectionReset_def)

end

interpretation filter_request: request_owner "filter_owner co :: ('c, 'x, ('c, 'x, 'm) rstep) owner" for co
  by unfold_locales (simp_all add: filter_owner_def upd_router_def)

interpretation shadow_request: request_owner "shadow_owner co" for co
  by unfold_locales (simp_all add: shadow_owner_def shadow_fields_def)

lemma get_router_upd:
  "get_router cfg j (upd_message_router cfg i f cn) =
     (if j = i then map_option f (get_router cfg j cn) else get_router cfg j cn)"
  by (cases "get_message i cn")
    (auto simp: get_router_def upd_message_router_def message_router_def split: pfilter.split)

lemma upd_message_router_frame [simp]:
  "cn_net (upd_message_router cfg i f cn) = cn_net cn"
  "Option.bind (get_message j (upd_message_router cfg i f cn)) am_metadata =
     Option.bind (get_message j cn) am_metadata"
  by (cases "get_message j cn"; auto simp: upd_message_router_def)+

lemma get_router_frame [simp]:
  "get_router cfg i (cn\<lparr>cn_net := nt\<rparr>) = get_router cfg i cn"
  "get_router cfg j (upd_message i (\<lambda>m. m\<lparr>am_metadata := md\<rparr>) cn) = get_router cfg j cn"
  by (cases "get_message i cn"; auto simp: get_router_def message_router_def)+

interpretation conn_request: request_owner "conn_owner cfg i" for cfg i
proof (unfold_locales, goal_cases)
  case (1 s q)
  then show ?case by (cases "get_router cfg i s") (simp_all add: conn_owner_def get_router_upd)
next
  case (2 s)
  then show ?case by (cases "get_router cfg i s") (simp_all add: conn_owner_def get_router_upd)
next
  case (8 s md)
  then show ?case by (cases "get_message i s") (simp_all add: conn_owner_def)
next
  case (11 h s)
  then show ?case by (cases "get_router cfg i s") (simp_all add: conn_owner_def get_router_upd)
qed (simp_all add: conn_owner_def)

section \<open>Invariants of the proxy\<close>

locale proxy_invariant = conn_invariant cfg inv
  for cfg :: "('c, 'x, ('m, 'o) pfilter) config" and inv :: "('c, 'x, ('m, 'o) pfilter) conn \<Rightarrow> bool"
begin

lemma inv_owner:
  "inv cn \<Longrightarrow> inv (upd_net (conn_owner cfg i) f cn)"
  "inv cn \<Longrightarrow> inv (upd_request (conn_owner cfg i) g cn)"
  "inv cn \<Longrightarrow> inv (ow_set_metadata (conn_owner cfg i) md cn)"
  "inv cn \<Longrightarrow> inv (ow_onUpstreamHostSelected (conn_owner cfg i) h cn)"
  "inv cn \<Longrightarrow> inv (ow_set_net (conn_owner cfg i) nt cn)"
  "inv cn \<Longrightarrow> inv (ow_set_request (conn_owner cfg i) q cn)"
  "inv cn \<Longrightarrow> inv (snd (ow_resetStream (conn_owner cfg i) cn))"
  "inv cn \<Longrightarrow> inv (snd (ow_sendLocalReply (conn_owner cfg i) err e cn))"
  "inv cn \<Longrightarrow> inv (snd (ow_continueDecoding (conn_owner cfg i) cn))"
  "inv cn \<Longrightarrow> inv (snd (ow_createCodec (conn_owner cfg i) cn))"
  "inv cn \<Longrightarrow> inv (ur_onUpstreamHostSelected (conn_owner cfg i) h cn)"
  "inv cn \<Longrightarrow> inv (upd_message_router cfg i fr cn)"
  by (simp_all add: upd_net_def upd_request_def conn_owner_def upd_message_router_def inv_net inv_message
      inv_delete inv_am_sendLocalReply inv_continueDecoding ur_onUpstreamHostSelected_def)

lemma inv_setUpstreamConnection:
  "inv cn \<Longrightarrow> inv (snd (ow_setUpstreamConnection (conn_owner cfg i) c cn))"
  by (auto simp: conn_owner_def am_setUpstreamConnection_def put_stream_def
      intro!: inv_the_metadata inv_streams split: sum.split)

lemma inv_with_request:
  "inv cn \<Longrightarrow> (\<And>r. inv (snd (f r cn))) \<Longrightarrow> inv (snd (with_request ow f cn))"
  by (simp add: with_request_def split: option.split)

lemma inv_with_metadata:
  "inv cn \<Longrightarrow> (\<And>md. inv (snd (f md cn))) \<Longrightarrow> inv (snd (with_metadata ow f cn))"
  by (simp add: with_metadata_def split: option.split)

lemmas inv_intros = inv_owner inv_setUpstreamConnection inv_with_request inv_with_metadata inv_bindS

lemma inv_connectionReset:
  "inv cn \<Longrightarrow> inv (snd (onUpstreamConnectionReset (conn_owner cfg i) reason cn))"
  unfolding onUpstreamConnectionReset_def
  by (intro inv_with_metadata inv_with_request) (auto intro!: inv_intros split: sum.split)

lemma inv_connectionEvent:
  "inv cn \<Longrightarrow> inv (snd (onUpstreamConnectionEvent (conn_owner cfg i) ev cn))"
  by (auto simp: onUpstreamConnectionEvent_def intro!: inv_intros inv_connectionReset
      split: connection_event.split option.split)

lemma inv_release: "inv cn \<Longrightarrow> inv (snd (releaseUpStreamConnection (conn_owner cfg i) c cn))"
  by (auto simp: releaseUpStreamConnection_def intro!: inv_intros)

lemma inv_encodeData: "inv cn \<Longrightarrow> inv (snd (ur_encodeData (conn_owner cfg i) cn))"
  using inv_owner(10)
  by (auto simp: ur_encodeData_def intro!: inv_intros split: prod.split sum.split option.split)
    (metis snd_conv)+

lemma inv_hand_over: "inv cn \<Longrightarrow> inv (snd (hand_over_stream (conn_owner cfg i) cn))"
  by (auto simp: hand_over_stream_def intro!: inv_intros)

lemma inv_onPoolReady: "inv cn \<Longrightarrow> inv (snd (ur_onPoolReady (conn_owner cfg i) c host addr cn))"
  by (auto simp: ur_onPoolReady_def onRequestStart_def Let_def
      intro!: inv_intros inv_encodeData inv_hand_over)

lemma inv_onPoolFailure: "inv cn \<Longrightarrow> inv (snd (ur_onPoolFailure (conn_owner cfg i) reason host cn))"
  by (auto simp: ur_onPoolFailure_def Let_def intro!: inv_intros inv_connectionReset)

lemma inv_onResponseComplete: "inv cn \<Longrightarrow> inv (snd (ur_onResponseComplete (conn_owner cfg i) cn))"
  by (auto simp: ur_onResponseComplete_def intro!: inv_intros)

lemma inv_destroy_request: "inv cn \<Longrightarrow> inv (destroy_request (conn_owner cfg i) cn)"
  by (auto simp: destroy_request_def intro!: inv_owner split: option.split)

lemma inv_log_entry: "inv cn \<Longrightarrow> inv (log_entry st d cn)"
  by (simp add: log_entry_def inv_net)

lemma inv_finalize:
  "inv cn \<Longrightarrow> inv (snd (finalize_without_response rv cfg i cn))"
  "inv cn \<Longrightarrow> inv (snd (finalize_with_response rv cfg i md cn))"
  by (auto simp: finalize_without_response_def finalize_with_response_def intro!: inv_owner
      split: option.split)

lemma inv_responseComplete: "inv cn \<Longrightarrow> inv (snd (onUpstreamResponseComplete rv cfg i md cn))"
  by (auto simp: onUpstreamResponseComplete_def intro!: inv_intros inv_onResponseComplete inv_finalize
      inv_destroy_request inv_log_entry)

lemma inv_router_onEvent: "inv cn \<Longrightarrow> inv (snd (router_onEvent rv cfg i ev cn))"
  by (auto simp: router_onEvent_def intro!: inv_intros inv_connectionEvent inv_finalize)

lemma inv_router_onUpstreamData: "inv cn \<Longrightarrow> inv (snd (router_onUpstreamData rv cfg i data e cn))"
  by (auto simp: router_onUpstreamData_def start_response_def am_startUpstreamResponse_def
      upstream_reset_def response_incomplete_def ur_onResponseStarted_def
      intro!: inv_intros inv_message inv_upstreamData inv_responseComplete inv_release
        inv_router_onEvent inv_finalize inv_log_entry inv_connectionReset inv_onResponseComplete
        inv_destroy_request split: upstream_response_status.split)

lemma inv_bh_encodeData: "inv cn \<Longrightarrow> inv (snd (bh_encodeData (conn_owner cfg i) h cn))"
  using inv_owner(10)
  by (auto simp: bh_encodeData_def intro!: inv_intros split: prod.split sum.split option.split)
    (metis snd_conv)+

lemma inv_pool_ready_requests: "inv cn \<Longrightarrow> inv (snd (pool_ready_requests cfg h host is cn))"
proof (induction "is" arbitrary: cn)
  case (Cons i "is")
  have "inv (snd (bh_onPoolReady (conn_owner cfg i) h host cn))"
    using Cons.prems by (auto simp: bh_onPoolReady_def onRequestStart_def intro!: inv_intros inv_bh_encodeData)
  then show ?case by (auto intro!: inv_bindS Cons.IH)
qed simp

lemma inv_pool_failed_requests: "inv cn \<Longrightarrow> inv (snd (pool_failed_requests cfg reason host is cn))"
proof (induction "is" arbitrary: cn)
  case (Cons i "is")
  have "inv (snd (bh_onPoolFailure (conn_owner cfg i) reason host cn))"
    using Cons.prems by (auto simp: bh_onPoolFailure_def Let_def intro!: inv_intros inv_connectionReset)
  then show ?case by (auto intro!: inv_bindS Cons.IH)
qed simp

lemma inv_upd_cn_net: "inv cn \<Longrightarrow> inv (upd_cn_net f cn)"
  by (simp add: upd_cn_net_def inv_net)

lemma inv_on_net: "inv cn \<Longrightarrow> inv (snd (on_net f cn))"
  by (auto simp: on_net_def intro: inv_net split: prod.split)

end

fun is_handler_read :: "proxy_event \<Rightarrow> bool" where
  "is_handler_read (HandlerRead _ _) \<longleftrightarrow> True"
| "is_handler_read _ \<longleftrightarrow> False"

fun is_core_stream_data :: "proxy_event \<Rightarrow> bool" where
  "is_core_stream_data (Core ev) \<longleftrightarrow> is_stream_data ev"
| "is_core_stream_data _ \<longleftrightarrow> False"

context proxy_invariant begin

lemma inv_proxy_conn_event:
  assumes "inv cn" "\<not> is_handler_read ev"
  shows "inv (snd (proxy_conn_event rv cfg ev cn))"
proof (cases ev)
  case (HandlerReady h host)
  with assms show ?thesis
    by (auto simp: handler_onPoolReady_def Let_def clear_requests_def
        intro!: inv_bindS inv_pool_ready_requests inv_upd_cn_net)
next
  case (HandlerFailure h reason host)
  with assms show ?thesis
    by (auto simp: handler_onPoolFailure_def Let_def clear_requests_def
        intro!: inv_bindS inv_pool_failed_requests inv_upd_cn_net)
qed (use assms in \<open>auto simp: router_onPoolReady_def router_onPoolFailure_def Let_def
    intro!: inv_onPoolReady inv_net inv_onPoolFailure inv_router_onUpstreamData inv_router_onEvent
      inv_upd_cn_net inv_on_net\<close>)

lemma inv_proxy_handle:
  assumes "proxy_handle rv cfg ev cm = Some (r, cm')" "inv (cm_conn cm)"
    and "\<not> is_handler_read ev" "\<not> is_core_stream_data ev"
  shows "inv (cm_conn cm')"
  using assms
  by (cases ev) (auto simp: proxy_handle_def simp del: proxy_conn_event.simps handle.simps
      intro: inv_handle elim!: inv_on_conn intro!: inv_proxy_conn_event)

end

text \<open>The responses of a shared handler, like the data of a stream, are written whatever the state
  of the connection.\<close>

locale proxy_invariant_streams = proxy_invariant cfg inv + conn_invariant_streams cfg inv
  for cfg :: "('c, 'x, ('m, 'o) pfilter) config" and inv :: "('c, 'x, ('m, 'o) pfilter) conn \<Rightarrow> bool"
begin

lemma inv_handler_onMessageDecoded: "inv cn \<Longrightarrow> inv (snd (handler_onMessageDecoded rv cfg h md cn))"
  by (auto simp: handler_onMessageDecoded_def Let_def onUpstreamResponseCallback_def
      intro!: inv_write_any inv_bindS inv_responseComplete inv_delete inv_upd_cn_net split: option.split)

end

sublocale proxy_invariant_streams \<subseteq> handled: kept_by_callbacks "handler_callbacks rv cfg h" "\<lambda>s. inv (fst s)"
  for rv h
proof
  fix s s' :: "('c, 'x, ('m, 'o) pfilter) conn \<times> bool" and k md mut r w
  assume i: "inv (fst s)"
  show "cb_newMessageHandler (handler_callbacks rv cfg h) s = (k, s') \<Longrightarrow> inv (fst s')"
    using i by (auto simp: handler_callbacks_def)
  show "cb_onMessageDecoded (handler_callbacks rv cfg h) k md mut s = (r, s') \<Longrightarrow> inv (fst s')"
    using i inv_handler_onMessageDecoded [OF i]
    by (auto simp: handler_callbacks_def split: sum.splits prod.splits) (metis snd_conv)
  show "cb_onHeartbeat (handler_callbacks rv cfg h) md s = (w, s') \<Longrightarrow> inv (fst s')"
    using i by (auto simp: handler_callbacks_def)
qed

context proxy_invariant_streams begin

lemma inv_handler_onUpstreamData:
  assumes "inv cn"
  shows "inv (snd (handler_onUpstreamData rv cfg h data cn))"
proof -
  have "onData dec (handler_callbacks rv cfg h) d data (cn, fin) = (r, (cn1, fin1)) \<Longrightarrow> inv cn1"
    for dec d fin r cn1 fin1
    using handled.onData_kept [of "(cn, fin)" dec rv h d data r "(cn1, fin1)"] assms by simp
  then show ?thesis
    using assms
    by (auto simp: handler_onUpstreamData_def intro!: inv_upd_cn_net split: option.split prod.split sum.split)
qed

lemma inv_proxy_handle_any:
  assumes "proxy_handle rv cfg ev cm = Some (r, cm')" "inv (cm_conn cm)"
  shows "inv (cm_conn cm')"
proof (cases "is_handler_read ev \<or> is_core_stream_data ev")
  case True
  then show ?thesis
  proof (cases ev)
    case (HandlerRead h data)
    have "inv (snd (proxy_conn_event rv cfg ev (cm_conn cm)))"
      unfolding HandlerRead using assms(2) by (auto intro!: inv_bindS inv_handler_onUpstreamData)
    with assms(1) show ?thesis
      by (auto simp: proxy_handle_def HandlerRead simp del: proxy_conn_event.simps elim!: inv_on_conn)
  qed (use True assms in \<open>auto simp: proxy_handle_def simp del: handle.simps elim: inv_handle_any\<close>)
qed (use assms in \<open>auto elim: inv_proxy_handle\<close>)

lemma inv_proxy_reachable:
  "proxy_reachable rv cfg g nt cm \<Longrightarrow> inv (new_conn g nt) \<Longrightarrow> inv (cm_conn cm)"
  by (induction rule: proxy_reachable.induct) (auto simp: new_cm_def elim: inv_proxy_handle_any)

end

interpretation proxy_gauge: proxy_invariant_streams cfg gauge_ok for cfg
  by unfold_locales

interpretation proxy_closed: proxy_invariant cfg "\<lambda>cn. cn_state cn \<noteq> Open \<and> cn_written cn = w" for cfg w
  by unfold_locales

end
