(* ===== verification/Proxy.thy ===== *)
theory Proxy
  imports Router "HOL-Library.Multiset"
begin

text \<open>
  The proxy as a whole: what becomes of a request between the client, the filters and the upstream
  hosts.  The state is a connection with its upstream side; the theorems follow a message through
  the connection manager, its chain of filters, the router and the callbacks of the pools.
\<close>

section \<open>The chain of a message\<close>

lemma createFilterChain_lengths:
  "length (am_filters (foldl (\<lambda>m' kf. add_kind kf m') m fs)) = length (am_filters m) + length fs"
  by (induction fs arbitrary: m)
    (auto simp: add_kind_def addDecoderFilter_def addEncoderFilter_def addFilter_def
      split: filter_kind.split)

text \<open>The filters of a message are destroyed once each.\<close>

lemma destroyed_add_kind:
  "mset (destroyed_filters (add_kind kf m)) = add_mset (length (am_filters m)) (mset (destroyed_filters m))"
  by (cases kf; cases "fst kf")
    (auto simp: add_kind_def addDecoderFilter_def addEncoderFilter_def addFilter_def destroyed_filters_def)

lemma destroyed_createFilterChain:
  "mset (destroyed_filters m) = mset [0..<length (am_filters m)] \<Longrightarrow>
   mset (destroyed_filters (foldl (\<lambda>m' kf. add_kind kf m') m fs)) =
     mset [0..<length (am_filters m) + length fs]"
proof (induction fs arbitrary: m)
  case (Cons kf fs)
  have l: "length (am_filters (add_kind kf m)) = Suc (length (am_filters m))"
    using createFilterChain_lengths [of m "[kf]"] by simp
  have "mset (destroyed_filters (add_kind kf m)) = mset [0..<length (am_filters (add_kind kf m))]"
    using Cons.prems by (simp add: destroyed_add_kind l)
  from Cons.IH [OF this] show ?case by (simp add: l)
qed simp

definition chain_ok :: "('c, 'x, 'f) config \<Rightarrow> ('c, 'x, 'f) conn \<Rightarrow> bool" where
  "chain_ok cfg cn \<longleftrightarrow> list_all (\<lambda>(i, m). same_chain (createFilterChain cfg new_message) m)
     (cn_messages cn @ cn_deferred cn)"

lemma same_chain_trans: "same_chain m m1 \<Longrightarrow> same_chain m1 m2 \<Longrightarrow> same_chain m m2"
  by (simp add: same_chain_def)

lemma chain_ok_message:
  assumes "chain_ok cfg cn" "\<And>m. same_chain m (f m)"
  shows "chain_ok cfg (upd_message i f cn)"
proof -
  have "list_all (\<lambda>(i, m). same_chain m0 m) ms \<Longrightarrow> list_all (\<lambda>(i, m). same_chain m0 m) (update_at i f ms)" for m0 ms
    by (induction ms) (auto simp: update_at_def intro: same_chain_trans [OF _ assms(2)] split: if_splits)
  with assms(1) show ?thesis by (simp add: chain_ok_def upd_message_def)
qed

interpretation chain: conn_invariant_streams cfg "chain_ok cfg" for cfg
proof (unfold_locales, goal_cases)
  case (1 cn f i)
  then show ?case by (intro chain_ok_message)
next
  case (2 cn i)
  then show ?case
    by (auto simp: chain_ok_def deferredDeleteMessage_def list_all_iff split: option.split
        dest!: map_of_SomeD)
qed (simp_all add: chain_ok_def conn_write_def conn_close_def newMessageHandler_def clearDeferred_def Let_def)

interpretation proxy_chain: proxy_invariant_streams cfg "chain_ok cfg" for cfg
  by unfold_locales

text \<open>
  C7: every message that exists has the chain of filters its configuration describes, whatever has
  happened on the connection: the decoder and encoder filters are those of the factories, in their
  order, each entry refers to a filter that exists, and the destructor of the message destroys each
  of its filters exactly once.
\<close>

theorem message_chain_type:
  assumes "proxy_reachable rv cfg g nt cm"
    and "(i, m) \<in> set (cn_messages (cm_conn cm) @ cn_deferred (cm_conn cm))"
  shows "am_decoder_filters m = am_decoder_filters (createFilterChain cfg new_message)
     \<and> am_encoder_filters m = am_encoder_filters (createFilterChain cfg new_message)
     \<and> length (am_filters m) = length (cf_filterFactories cfg)
     \<and> mset (destroyed_filters m) = mset [0..<length (am_filters m)]"
proof -
  have "chain_ok cfg (cm_conn cm)"
    using proxy_chain.inv_proxy_reachable [OF assms(1)] by (simp add: chain_ok_def new_conn_def)
  with assms(2) have c: "same_chain (createFilterChain cfg new_message) m"
    by (auto simp: chain_ok_def list_all_iff)
  have l: "length (am_filters (createFilterChain cfg new_message)) = length (cf_filterFactories cfg)"
    by (simp add: createFilterChain_def createFilterChain_lengths new_message_def)
  have "mset (destroyed_filters (createFilterChain cfg new_message)) = mset [0..<length (cf_filterFactories cfg)]"
    using destroyed_createFilterChain [where fs = "cf_filterFactories cfg" and m = new_message]
    by (simp add: createFilterChain_def new_message_def destroyed_filters_def)
  moreover have "destroyed_filters m = destroyed_filters (createFilterChain cfg new_message)"
    using c by (simp add: destroyed_filters_def same_chain_def)
  ultimately show ?thesis using c l by (simp add: same_chain_def)
qed


section \<open>What the steps of a message do\<close>

definition active :: "nat \<Rightarrow> ('c, 'x, 'f) conn \<Rightarrow> bool" where
  "active i cn \<longleftrightarrow> i \<in> set (map fst (cn_messages cn))"

definition deferred :: "nat \<Rightarrow> ('c, 'x, 'f) conn \<Rightarrow> bool" where
  "deferred i cn \<longleftrightarrow> i \<in> set (map fst (cn_deferred cn))"

definition distinct_messages :: "('c, 'x, 'f) conn \<Rightarrow> bool" where
  "distinct_messages cn \<longleftrightarrow> distinct (map fst (cn_messages cn @ cn_deferred cn))"

lemma distinct_messages_gauge: "gauge_ok cn \<Longrightarrow> distinct_messages cn"
  by (simp add: gauge_ok_def distinct_messages_def)

lemma message_lists_upd [simp]:
  "map fst (cn_messages (upd_message i f cn)) = map fst (cn_messages cn)"
  "map fst (cn_deferred (upd_message i f cn)) = map fst (cn_deferred cn)"
  by (simp_all add: upd_message_def)

lemma messages_upd [simp]:
  "active j (upd_message i f cn) = active j cn"
  "deferred j (upd_message i f cn) = deferred j cn"
  "distinct_messages (upd_message i f cn) = distinct_messages cn"
  unfolding active_def deferred_def distinct_messages_def map_append by simp_all

lemma messages_frame [simp]:
  "active j (cn\<lparr>cn_net := nt\<rparr>) = active j cn" "deferred j (cn\<lparr>cn_net := nt\<rparr>) = deferred j cn"
  "distinct_messages (cn\<lparr>cn_net := nt\<rparr>) = distinct_messages cn"
  "active j (cn\<lparr>cn_stats := st\<rparr>) = active j cn" "deferred j (cn\<lparr>cn_stats := st\<rparr>) = deferred j cn"
  "distinct_messages (cn\<lparr>cn_stats := st\<rparr>) = distinct_messages cn"
  "active j (conn_write b e cn) = active j cn" "deferred j (conn_write b e cn) = deferred j cn"
  "distinct_messages (conn_write b e cn) = distinct_messages cn"
  by (simp_all add: active_def deferred_def distinct_messages_def)

lemma map_of_active: "active i cn \<longleftrightarrow> map_of (cn_messages cn) i \<noteq> None"
  by (simp add: active_def map_of_eq_None_iff)

lemma delete_active:
  assumes "distinct_messages cn"
  shows "\<not> active i (deferredDeleteMessage i cn)"
    and "distinct_messages (deferredDeleteMessage i cn)"
    and "get_message j (deferredDeleteMessage i cn) = get_message j cn"
    and "active i cn \<Longrightarrow> deferred i (deferredDeleteMessage i cn)"
    and "deferred j cn \<Longrightarrow> deferred j (deferredDeleteMessage i cn)"
    and "j \<noteq> i \<Longrightarrow> active j (deferredDeleteMessage i cn) = active j cn"
proof -
  show "get_message j (deferredDeleteMessage i cn) = get_message j cn"
    using assms by (intro get_message_delete) (simp add: distinct_messages_def)
  have "i \<notin> fst ` set (cn_deferred cn)" if "map_of (cn_messages cn) i = Some m" for m
    using assms map_of_SomeD [OF that] unfolding distinct_messages_def by force
  then show "distinct_messages (deferredDeleteMessage i cn)"
    using assms by (auto simp: deferredDeleteMessage_def distinct_messages_def distinct_map_filter
        split: option.split)
qed (auto simp: deferredDeleteMessage_def deferred_def active_def map_of_eq_None_iff
    split: option.splits dest: map_of_SomeD)

lemma delete_frame [simp]:
  "cn_written (deferredDeleteMessage i cn) = cn_written cn"
  "cn_state (deferredDeleteMessage i cn) = cn_state cn"
  "cn_stats (deferredDeleteMessage i cn) = cn_stats cn"
  by (simp_all add: deferredDeleteMessage_def split: option.split)

lemma upd_message_router_conn [simp]:
  "cn_written (upd_message_router cfg i f cn) = cn_written cn"
  "cn_state (upd_message_router cfg i f cn) = cn_state cn"
  "active j (upd_message_router cfg i f cn) = active j cn"
  "deferred j (upd_message_router cfg i f cn) = deferred j cn"
  "distinct_messages (upd_message_router cfg i f cn) = distinct_messages cn"
  by (simp_all add: upd_message_router_def)

text \<open>A local reply on an open connection.\<close>

lemma sendLocalReply_open:
  assumes "get_message i cn = Some m" "am_metadata m = Some md" "cn_state cn = Open"
    and "co_onError (cf_codec cfg) md err [] = Inr b"
  shows "am_sendLocalReply cfg i err False cn =
     (Inr (), upd_message i (\<lambda>m. m\<lparr>am_local_response_sent := True\<rparr>)
        (inc local_response_business_exception (conn_write b False cn)))"
  using assms
  by (simp add: am_sendLocalReply_def the_metadata_def the_message_def cm_sendLocalReply_def
      AppException_encode_def response_stat_def Let_def)

text \<open>A chain that goes on after a local reply runs no filter and deletes the message.\<close>

lemma continueDecoding_replied:
  assumes "get_message i cn = Some m" "am_metadata m = Some md" "am_local_response_sent m"
    and "distinct_messages cn"
  shows "\<exists>cn'. continueDecoding cfg i k cn = (Inr (), cn') \<and> cn_written cn' = cn_written cn
     \<and> cn_state cn' = cn_state cn \<and> cn_net cn' = cn_net cn \<and> distinct_messages cn'
     \<and> (\<not> active i cn \<longrightarrow> \<not> active i cn') \<and> (deferred i cn \<longrightarrow> deferred i cn')"
proof -
  let ?cn1 = "upd_message i (\<lambda>m. m\<lparr>am_filter_action := None\<rparr>) cn"
  have "applyDecoderFilters cfg i (Some k) st cn = (Inr ContinueIteration, ?cn1)" for st
    using assms by (simp add: applyDecoderFilters_def the_message_def)
  then show ?thesis
    using assms delete_active [of "(upd_message i (\<lambda>m. m\<lparr>am_pending_stream_decoded := False\<rparr>) ?cn1)
        \<lparr>cn_stats := request_stats (md_message_type md) (stat_inc request (cn_stats ?cn1))\<rparr>" i]
    by (auto simp: continueDecoding_def the_metadata_def the_message_def maybeDeferredDeleteMessage_def
        local_response_sent_def Let_def)
qed

section \<open>Requests the upstream refuses\<close>

lemma conn_owner_sel [simp]:
  "ow_net (conn_owner cfg i) = cn_net"
  "ow_codec (conn_owner cfg i) = cf_codec cfg"
  "ow_createCodec (conn_owner cfg i) cn = (True, cn)"
  "ow_continueDecoding (conn_owner cfg i) = continueDecoding cfg i (router_position cfg)"
  "ow_sendLocalReply (conn_owner cfg i) = am_sendLocalReply cfg i"
  "ow_resetStream (conn_owner cfg i) cn = (Inr (), deferredDeleteMessage i cn)"
  "ow_metadata (conn_owner cfg i) cn = Option.bind (get_message i cn) am_metadata"
  "ow_request (conn_owner cfg i) cn = Option.bind (get_router cfg i cn) ro_upstream_request"
  by (simp_all add: conn_owner_def)

lemmas conn_reads [simp] =
  conn_request.upd_request_reads [unfolded conn_owner_sel]
  conn_request.upd_net_reads [unfolded conn_owner_sel]
  conn_request.host_request [unfolded conn_owner_sel]
  conn_request.host_net [unfolded conn_owner_sel]
  conn_request.host_metadata [unfolded conn_owner_sel]
  conn_request.metadata_request [unfolded conn_owner_sel]
  conn_request.metadata_net [unfolded conn_owner_sel]

text \<open>An update of the request or of the upstream side leaves the rest of the connection alone.\<close>

definition same_conn :: "('c, 'x, 'f) conn \<Rightarrow> ('c, 'x, 'f) conn \<Rightarrow> bool" where
  "same_conn cn cn' \<longleftrightarrow> cn_written cn' = cn_written cn \<and> cn_state cn' = cn_state cn
     \<and> map fst (cn_messages cn') = map fst (cn_messages cn) \<and> map fst (cn_deferred cn') = map fst (cn_deferred cn)
     \<and> cn_stats cn' = cn_stats cn"

lemma same_conn_messages:
  assumes "same_conn cn cn'"
  shows "active j cn' = active j cn" "deferred j cn' = deferred j cn"
    "distinct_messages cn' = distinct_messages cn"
  using assms unfolding same_conn_def active_def deferred_def distinct_messages_def map_append by simp_all

lemma same_conn_trans: "same_conn cn cn1 \<Longrightarrow> same_conn cn1 cn2 \<Longrightarrow> same_conn cn cn2"
  by (simp add: same_conn_def)

lemma same_conn_owner:
  "same_conn cn (upd_request (conn_owner cfg i) f cn)"
  "same_conn cn (upd_net (conn_owner cfg i) g cn)"
  "same_conn cn (ur_onUpstreamHostSelected (conn_owner cfg i) h cn)"
  "same_conn cn (ow_onUpstreamHostSelected (conn_owner cfg i) h cn)"
  "same_conn cn (ow_set_metadata (conn_owner cfg i) md cn)"
  "same_conn cn (upd_message_router cfg i fr cn)"
  by (simp_all add: same_conn_def upd_request_def upd_net_def ur_onUpstreamHostSelected_def conn_owner_def
      upd_message_router_def)

text \<open>The connection of a request is reset before its response is complete: one error reply is
  written and the message is deleted.\<close>

lemma connectionReset_conn:
  assumes "active i cn \<or> deferred i cn" "distinct_messages cn" "get_message i cn = Some m" "am_metadata m = Some md"
    and "md_message_type md \<noteq> Oneway" "cn_state cn = Open"
    and "Option.bind (get_router cfg i cn) ro_upstream_request = Some r" "\<not> ur_response_complete r"
    and "reset_message reason (ur_upstream_host r) = Inr msg"
    and "co_onError (cf_codec cfg) md (Error Unspecified msg) [] = Inr b"
  shows "\<exists>cn' m'. onUpstreamConnectionReset (conn_owner cfg i) reason cn = (Inr (), cn')
     \<and> cn_written cn' = cn_written cn @ [(b, False)] \<and> cn_state cn' = Open \<and> cn_net cn' = cn_net cn
     \<and> \<not> active i cn' \<and> deferred i cn' \<and> distinct_messages cn'
     \<and> get_message i cn' = Some m' \<and> am_metadata m' = Some md \<and> am_local_response_sent m'
     \<and> am_filters m' = am_filters m"
proof -
  let ?cn1 = "upd_message i (\<lambda>m. m\<lparr>am_local_response_sent := True\<rparr>)
        (inc local_response_business_exception (conn_write b False cn))"
  have reply: "am_sendLocalReply cfg i (Error Unspecified msg) False cn = (Inr (), ?cn1)"
    by (rule sendLocalReply_open [OF assms(3,4,6,10)])
  have "get_router cfg i ?cn1 = get_router cfg i cn"
    by (cases "get_message i cn") (simp_all add: get_router_def message_router_def)
  then have r: "ow_request (conn_owner cfg i) ?cn1 = Some r" using assms(7) by simp
  have "onUpstreamConnectionReset (conn_owner cfg i) reason cn =
      bindS (am_sendLocalReply cfg i (Error Unspecified msg) False cn) (\<lambda>_. with_request (conn_owner cfg i) (\<lambda>r1 s1.
        if \<not> ur_response_complete r1 then ow_resetStream (conn_owner cfg i) s1 else (Inr (), s1)))"
    using conn_request.connectionReset_eq [of cfg i cn r md reason msg] assms by simp
  then have eq: "onUpstreamConnectionReset (conn_owner cfg i) reason cn = (Inr (), deferredDeleteMessage i ?cn1)"
    using reply r assms(8) by (simp add: with_request_def)
  have d: "distinct_messages ?cn1" "active i ?cn1 \<or> deferred i ?cn1" "cn_net ?cn1 = cn_net cn"
    using assms(1,2) by simp_all
  show ?thesis
    using assms(3,4,6) delete_active [OF d(1)] d(2,3)
    by (intro exI [of _ "deferredDeleteMessage i ?cn1"] exI [of _ "m\<lparr>am_local_response_sent := True\<rparr>"])
      (auto simp: eq)
qed


lemma same_conn_failure:
  "same_conn cn (ur_onUpstreamHostSelected (conn_owner cfg i) host (upd_request (conn_owner cfg i) f
     (ow_onUpstreamHostSelected (conn_owner cfg i) host cn)))"
  by (meson same_conn_owner same_conn_trans)

lemma get_message_owner:
  assumes "get_message i cn = Some m" "am_metadata m = Some md"
  shows "\<exists>m'. get_message i (ur_onUpstreamHostSelected (conn_owner cfg i) host (upd_request (conn_owner cfg i) f
       (ow_onUpstreamHostSelected (conn_owner cfg i) host cn))) = Some m' \<and> am_metadata m' = Some md"
  using assms by (simp add: ur_onUpstreamHostSelected_def upd_request_def conn_owner_def upd_message_router_def)

text \<open>
  C4: whatever the reason for which a connection pool refuses the request of an active message,
  the client gets exactly one reply, the error of that reason, the message is deleted, and nothing
  goes upstream.
\<close>

theorem pool_failure_answered:
  assumes "proxy_reachable rv cfg g nt cm" "active i (cm_conn cm)" "cn_state (cm_conn cm) = Open"
    and "get_message i (cm_conn cm) = Some m" "am_metadata m = Some md" "md_message_type md \<noteq> Oneway"
    and "Option.bind (get_router cfg i (cm_conn cm)) ro_upstream_request = Some r"
    and "\<not> ur_response_complete r"
    and "reset_message reason (Some host) = Inr msg"
    and "co_onError (cf_codec cfg) md (Error Unspecified msg) [] = Inr b"
  shows "\<exists>cm'. proxy_handle rv cfg (PoolFailure i reason host) cm = Some (Inr (), cm')
     \<and> cn_written (cm_conn cm') = cn_written (cm_conn cm) @ [(b, False)]
     \<and> \<not> active i (cm_conn cm') \<and> deferred i (cm_conn cm')
     \<and> nt_written (cn_net (cm_conn cm')) = nt_written (cn_net (cm_conn cm))"
proof -
  let ?ow = "conn_owner cfg i" and ?cn = "cm_conn cm"
  let ?f = "\<lambda>r. r\<lparr>ur_conn_pool_handle := False\<rparr>"
  have "gauge_ok ?cn"
    using proxy_gauge.inv_proxy_reachable [OF assms(1)] by (simp add: gauge_ok_def new_conn_def)
  then have d: "distinct_messages ?cn" by (rule distinct_messages_gauge)
  define cn1 where "cn1 = ur_onUpstreamHostSelected ?ow host
    (upd_request ?ow ?f (ow_onUpstreamHostSelected ?ow host ?cn))"
  have same: "same_conn ?cn cn1" unfolding cn1_def by (rule same_conn_failure)
  obtain m1 where m1: "get_message i cn1 = Some m1" "am_metadata m1 = Some md"
    using get_message_owner [OF assms(4,5)] unfolding cn1_def by blast
  have r1: "Option.bind (get_router cfg i cn1) ro_upstream_request = Some (?f r\<lparr>ur_upstream_host := Some host\<rparr>)"
    and net: "cn_net cn1 = cn_net ?cn"
    using assms(7) by (simp_all add: cn1_def ur_onUpstreamHostSelected_def)
  obtain cn2 m2 where cn2: "onUpstreamConnectionReset ?ow reason cn1 = (Inr (), cn2)"
     "cn_written cn2 = cn_written ?cn @ [(b, False)]" "cn_net cn2 = cn_net ?cn"
     "\<not> active i cn2" "deferred i cn2" "distinct_messages cn2"
     "get_message i cn2 = Some m2" "am_metadata m2 = Some md" "am_local_response_sent m2"
    using connectionReset_conn [OF _ _ m1 assms(6) _ r1, of reason msg b] assms(2,3,8-10) d net
      same_conn_messages [OF same] same
    by (auto simp: same_conn_def)
  define cn3 where "cn3 = upd_net ?ow (pool_failure_result reason host)
    (upd_request ?ow (\<lambda>r. r\<lparr>ur_buffer := []\<rparr>) cn2)"
  have same3: "same_conn cn2 cn3" "same_conn cn2 (upd_request ?ow (\<lambda>r. r\<lparr>ur_buffer := []\<rparr>) cn2)"
    unfolding cn3_def by (meson same_conn_owner same_conn_trans)+
  have eq: "router_onPoolFailure cfg i reason host ?cn =
      (if is_connection_error reason then continueDecoding cfg i (router_position cfg) cn3
       else (Inr (), upd_request ?ow (\<lambda>r. r\<lparr>ur_buffer := []\<rparr>) cn2))"
    using cn2(1) by (simp add: router_onPoolFailure_def ur_onPoolFailure_def Let_def cn1_def [symmetric] cn3_def)
  have net3: "nt_written (cn_net cn3) = nt_written (cn_net ?cn)"
    using cn2(3) by (simp add: cn3_def pool_failure_result_def putResult_def)
  have "\<exists>cn'. router_onPoolFailure cfg i reason host ?cn = (Inr (), cn')
     \<and> cn_written cn' = cn_written ?cn @ [(b, False)] \<and> \<not> active i cn' \<and> deferred i cn'
     \<and> nt_written (cn_net cn') = nt_written (cn_net ?cn)"
  proof (cases "is_connection_error reason")
    case True
    obtain m3 where "get_message i cn3 = Some m3" "am_metadata m3 = Some md" "am_local_response_sent m3"
      using cn2(7-9) by (auto simp: cn3_def upd_request_def upd_net_def conn_owner_def upd_message_router_def)
    from continueDecoding_replied [OF this, of cfg "router_position cfg"] True show ?thesis
      unfolding eq using cn2 same3(1) net3 same_conn_messages [OF same3(1)] by (auto simp: same_conn_def)
  next
    case False
    then show ?thesis
      unfolding eq using cn2 same3(2) same_conn_messages [OF same3(2)] by (auto simp: same_conn_def)
  qed
  then show ?thesis by (auto simp: proxy_handle_def on_conn_def)
qed

section \<open>Requests the upstream takes\<close>

lemma decoder_filters_length:
  "length (am_decoder_filters (foldl (\<lambda>m' kf. add_kind kf m') m fs)) =
     length (am_decoder_filters m) + length (filter (\<lambda>kf. fst kf \<noteq> EncoderKind) fs)"
  by (induction fs arbitrary: m)
    (auto simp: add_kind_def addDecoderFilter_def addEncoderFilter_def addFilter_def
      split: filter_kind.split)

lemma router_is_last:
  assumes "chain_ok cfg cn" "get_message i cn = Some m"
  shows "drop (Suc (router_position cfg)) (am_decoder_filters m) = []"
proof -
  have "(i, m) \<in> set (cn_messages cn @ cn_deferred cn)"
    using assms(2) unfolding get_message_def by (rule map_of_SomeD)
  with assms(1) have "am_decoder_filters m = am_decoder_filters (createFilterChain cfg new_message)"
    by (auto simp: chain_ok_def list_all_iff same_chain_def)
  moreover have "length (am_decoder_filters (createFilterChain cfg new_message)) =
      length (filter (\<lambda>kf. fst kf \<noteq> EncoderKind) (cf_filterFactories cfg))"
    by (simp add: createFilterChain_def decoder_filters_length) (simp add: new_message_def)
  ultimately show ?thesis by (simp add: router_position_def)
qed

lemma proxy_reachable_ok:
  assumes "proxy_reachable rv cfg g nt cm"
  shows "chain_ok cfg (cm_conn cm)" "distinct_messages (cm_conn cm)"
  using proxy_chain.inv_proxy_reachable [OF assms] proxy_gauge.inv_proxy_reachable [OF assms]
  by (simp_all add: chain_ok_def gauge_ok_def new_conn_def distinct_messages_def)

text \<open>The chain goes on after the router, its last filter: the request is counted and stays.\<close>

lemma continueDecoding_last:
  assumes "get_message i cn = Some m" "am_metadata m = Some md" "md_message_type md = Request"
    and "md_origin_message md = []" "\<not> am_local_response_sent m"
    and "drop (Suc k) (am_decoder_filters m) = []"
  shows "\<exists>cn'. continueDecoding cfg i k cn = (Inr (), cn') \<and> cn_written cn' = cn_written cn
     \<and> cn_net cn' = cn_net cn \<and> map fst (cn_messages cn') = map fst (cn_messages cn)
     \<and> get_message i cn' = Some (m\<lparr>am_filter_action := None, am_pending_stream_decoded := False\<rparr>)"
proof -
  let ?cn1 = "upd_message i (\<lambda>m. m\<lparr>am_filter_action := None\<rparr>) cn"
  have a: "applyDecoderFilters cfg i (Some k) (continue_state md) cn = (Inr ContinueIteration, ?cn1)"
    using assms by (simp add: applyDecoderFilters_def the_message_def continue_state_def commonPrefix_def)
  have "m\<lparr>am_filter_action := None, am_pending_stream_decoded := False\<rparr> = m\<lparr>am_filter_action := None\<rparr>"
    if "\<not> am_pending_stream_decoded m" using that by (cases m) simp
  then show ?thesis
    using assms a
    by (auto simp: continueDecoding_def the_metadata_def the_message_def maybeDeferredDeleteMessage_def
        local_response_sent_def is_one_way_def Let_def)
qed

text \<open>
  C3: when a connection is handed to a request that was waiting for it, the bytes of the request,
  encoded with the values the filters and the route set and the address of the host, are written to
  that connection, once; nothing is written to the client, and the message waits for its response.
\<close>

theorem pool_ready_sends:
  assumes "proxy_reachable rv cfg g nt cm" "active i (cm_conn cm)"
    and "get_message i (cm_conn cm) = Some m" "am_metadata m = Some md" "md_message_type md = Request"
    and "md_origin_message md = []" "\<not> am_local_response_sent m"
    and "Option.bind (get_router cfg i (cm_conn cm)) ro_upstream_request = Some r"
    and "co_encode (cf_codec cfg) (putString RealServerAddress addr md) (ur_mutation r) (ur_buffer r)
           = Inr (data, md1)"
    and "md_message_type md1 = Request"
  shows "\<exists>cm'. proxy_handle rv cfg (PoolReady i host addr) cm = Some (Inr (), cm')
     \<and> nt_written (cn_net (cm_conn cm')) = nt_written (cn_net (cm_conn cm))
         @ [(nt_next_conn (cn_net (cm_conn cm)), data, False)]
     \<and> cn_written (cm_conn cm') = cn_written (cm_conn cm) \<and> active i (cm_conn cm')
     \<and> Option.bind (get_router cfg i (cm_conn cm')) ro_upstream_request =
         Some (r\<lparr>ur_upstream_host := Some host, ur_conn_data := Some (nt_next_conn (cn_net (cm_conn cm))),
           ur_conn_pool_handle := False, ur_buffer := [], ur_request_complete := True\<rparr>)"
proof -
  let ?cn = "cm_conn cm" and ?n = "nt_next_conn (cn_net (cm_conn cm))" and ?ow = "conn_owner cfg i"
  let ?cn0 = "?cn\<lparr>cn_net := (cn_net ?cn)\<lparr>nt_next_conn := Suc ?n\<rparr>\<rparr>"
  define cn1 where "cn1 = ready_state ?ow ?n host addr md ?cn0"
  have req: "ow_request ?ow ?cn0 = Some r" "ow_metadata ?ow ?cn0 = Some md" using assms(3,4,8) by simp_all
  obtain m1 where m1: "get_message i cn1 = Some m1" "am_metadata m1 = Some (putString RealServerAddress addr md)"
     "\<not> am_local_response_sent m1" "am_decoder_filters m1 = am_decoder_filters m"
    using assms(3,7) by (auto simp: cn1_def ready_state_def ur_onUpstreamHostSelected_def upd_request_def
        upd_net_def conn_owner_def upd_message_router_def)
  have same: "same_conn ?cn0 cn1"
    unfolding cn1_def ready_state_def by (meson same_conn_owner same_conn_trans)
  have last: "drop (Suc (router_position cfg)) (am_decoder_filters m1) = []"
    using router_is_last [OF proxy_reachable_ok(1) [OF assms(1)] assms(3)] m1(4) by simp
  have "\<exists>cn2. onRequestStart ?ow (ur_conn_pool_handle r) cn1 = (Inr (), cn2) \<and> cn_written cn2 = cn_written cn1
     \<and> cn_net cn2 = cn_net cn1 \<and> map fst (cn_messages cn2) = map fst (cn_messages cn1)
     \<and> ow_metadata ?ow cn2 = ow_metadata ?ow cn1 \<and> ow_request ?ow cn2 = ow_request ?ow cn1"
  proof (cases "ur_conn_pool_handle r")
    case True
    from continueDecoding_last [OF m1(1,2) _ _ m1(3) last, of cfg] assms(5,6) obtain cn2 where
      "continueDecoding cfg i (router_position cfg) cn1 = (Inr (), cn2)" "cn_written cn2 = cn_written cn1"
      "cn_net cn2 = cn_net cn1" "map fst (cn_messages cn2) = map fst (cn_messages cn1)"
      "get_message i cn2 = Some (m1\<lparr>am_filter_action := None, am_pending_stream_decoded := False\<rparr>)"
      by auto
    with True m1(1) show ?thesis by (simp add: onRequestStart_def get_router_def message_router_def)
  qed (simp add: onRequestStart_def)
  then obtain cn2 where cn2: "onRequestStart ?ow (ur_conn_pool_handle r) cn1 = (Inr (), cn2)"
     "cn_written cn2 = cn_written cn1" "cn_net cn2 = cn_net cn1" "map fst (cn_messages cn2) = map fst (cn_messages cn1)"
     "ow_metadata ?ow cn2 = ow_metadata ?ow cn1" "ow_request ?ow cn2 = ow_request ?ow cn1" by blast
  let ?cn3 = "upd_request ?ow (\<lambda>r. r\<lparr>ur_request_complete := True\<rparr>) (sent_state ?ow ?n data md1 cn2)"
  have sent: "same_conn cn2 ?cn3"
    unfolding sent_state_def conn_owner_sel(3) snd_conv by (meson same_conn_owner same_conn_trans)
  have "ow_net ?ow cn2 = ow_net ?ow (ready_state ?ow ?n host addr md ?cn0)" "fst (ow_createCodec ?ow cn2)"
    "co_encode (ow_codec ?ow) (putString RealServerAddress addr md) (ur_mutation r) (ur_buffer r) = Inr (data, md1)"
    using cn2(3) assms(9) by (simp_all add: cn1_def)
  note w = conn_request.poolReady_writes [OF req cn2(1) [unfolded cn1_def] cn2(6) [unfolded cn1_def]
      cn2(5) [unfolded cn1_def] this assms(10)]
  have "cn_written ?cn3 = cn_written ?cn" "active i ?cn3 = active i ?cn"
    using sent same cn2(2,4) unfolding same_conn_def active_def by simp_all
  then show ?thesis
    using w(1,2,4) assms(2)
    by (simp add: proxy_handle_def on_conn_def router_onPoolReady_def upstream_write_def putResult_def
        del: conn_reads)
qed


section \<open>What the router decides\<close>

text \<open>
  Why the router refuses a request, said of the route that was found and of the clusters: no route; no
  such cluster; a cluster in maintenance, which requests on shared connections are sent to all the same; no
  host.
\<close>

definition refusal_reason ::
  "('c, 'x, 'm) router_env \<Rightarrow> ('c, 'x) net \<Rightarrow> 'm route option \<Rightarrow> error_type \<Rightarrow> bool" where
  "refusal_reason rv nt r t \<longleftrightarrow>
     (case r of
        None \<Rightarrow> t = RouteNotFound
      | Some rt \<Rightarrow>
          (case nt_clusters nt (rt_clusterName rt) of
             None \<Rightarrow> t = ClusterNotFound
           | Some cl \<Rightarrow>
               if cl_maintenanceMode cl \<and> \<not> rv_multiplexing rv then t = Unspecified
               else t = NoHealthyUpstream \<and> (\<forall>h. cl_tcpConnPool cl h = Inr None)))"

text \<open>The request id and the span of a request that has a route; they throw when a property they
  read is not a string.\<close>

definition prepared ::
  "('c, 'x, 'm) router_env \<Rightarrow> nat \<Rightarrow> 'm route option \<Rightarrow> ('c, 'x, 'm) rstep \<Rightarrow> unit res \<times> ('c, 'x, 'm) rstep" where
  "prepared rv i r s =
     (let s0 = upd_router (\<lambda>ro. ro\<lparr>ro_cached_route := Some r, ro_route := r\<rparr>) s
      in case r of None \<Rightarrow> (Inr (), s0) | Some rt \<Rightarrow> prepare_request rv i rt s0)"

definition refused_as :: "error_type \<Rightarrow> ('c, 'x, 'm) rstep \<Rightarrow> filter_status res \<times> ('c, 'x, 'm) rstep \<Rightarrow> bool" where
  "refused_as t s r \<longleftrightarrow> (\<exists>msg detail. r = abort_with (Error t msg) detail s)"

lemma refused_as_abort [simp]: "refused_as t s (abort_with (Error t msg) detail s)"
  by (auto simp: refused_as_def)

lemma same_net [simp]: "s\<lparr>rs_net := rs_net s\<rparr> = (s :: ('c, 'x, 'm) rstep)"
  by simp

lemma send_refused:
  assumes "refusal_reason rv (rs_net s) (Some rt) t"
  shows "refused_as t s (if rv_multiplexing rv then send_by_handler rv i rt s else send_by_pool rv rt s)"
proof (cases "nt_clusters (rs_net s) (rt_clusterName rt)")
  case None
  with assms show ?thesis
    by (simp add: refusal_reason_def send_by_handler_def getUpstreamHandler_def send_by_pool_def prepareUpstreamRequest_def)
next
  case (Some cl)
  with assms show ?thesis
    by (cases "cl_maintenanceMode cl \<and> \<not> rv_multiplexing rv")
      (auto simp: refusal_reason_def send_by_handler_def getUpstreamHandler_def send_by_pool_def prepareUpstreamRequest_def)
qed

lemma prepare_request_frame:
  "prepare_request rv i rt s = (r, s1) \<Longrightarrow> rs_calls s1 = rs_calls s \<and> rs_net s1 = rs_net s"
  by (auto simp: prepare_request_def upd_router_def Let_def split: sum.splits prod.splits option.splits)

lemma router_decode_refused:
  assumes "refusal_reason rv (rs_net s) (am_route rv i s) t" "prepared rv i (am_route rv i s) s = (Inr (), s1)"
  shows "\<exists>s2. refused_as t s2 (router_decode rv i s) \<and>
    rs_metadata s2 = rs_metadata s1 \<and> rs_calls s2 = rs_calls s \<and> rs_net s2 = rs_net s"
proof (cases "am_route rv i s")
  case None
  with assms show ?thesis
    by (intro exI [of _ s1]) (auto simp: router_decode_def refusal_reason_def prepared_def upd_router_def Let_def)
next
  case (Some rt)
  let ?s2 = "s1\<lparr>rs_mutation := requestMutation (rt_entry rt) (rs_mutation s1)\<rparr>"
  let ?send = "if rv_multiplexing rv then send_by_handler rv i rt ?s2 else send_by_pool rv rt ?s2"
  have p: "prepare_request rv i rt (upd_router (\<lambda>ro. ro\<lparr>ro_cached_route := Some (Some rt), ro_route := Some rt\<rparr>) s) = (Inr (), s1)"
    using assms(2) Some by (simp add: prepared_def)
  have f: "rs_calls s1 = rs_calls s" "rs_net s1 = rs_net s"
    using prepare_request_frame [OF p] by (simp_all add: upd_router_def)
  obtain msg detail where send: "?send = abort_with (Error t msg) detail ?s2"
    using send_refused [of rv ?s2 rt t i] assms(1) Some f by (auto simp: refused_as_def)
  have "router_decode rv i s = bindS ?send (then_mirror rv i rt (clone (rs_metadata s1)))"
    using Some p by (simp add: router_decode_def Let_def)
  also have "\<dots> = abort_with (Error t msg) detail ?s2"
    unfolding send by (simp add: abort_with_def then_mirror_def)
  finally show ?thesis using f by (intro exI [of _ ?s2]) simp
qed

text \<open>A request enters a chain that has the router alone.\<close>

lemma am_onMessageDecoded_router:
  assumes "cf_filters cfg = proxy_filters rv other"
    and "cf_filterFactories cfg = [(CodecKind, FRouter new_router)]"
    and "get_message i cn = Some (createFilterChain cfg new_message)" "md_message_type md = Request"
    and "router_decode rv i \<lparr>rs_router = new_router, rs_net = cn_net cn,
           rs_metadata = putString ApplicationProtocol (cf_applicationProtocol cfg) md,
           rs_mutation = mut, rs_calls = []\<rparr> = (status, s')"
  shows "\<exists>cn1 m1. same_conn (inc request_decoding_success cn) cn1 \<and> cn_net cn1 = rs_net s'
     \<and> get_message i cn1 = Some m1 \<and> am_metadata m1 = Some (rs_metadata s')
     \<and> am_filters m1 = [FRouter (rs_router s')] \<and> am_filter_action m1 = Some (rs_mutation s')
     \<and> am_decoder_filters m1 = [(0, True)] \<and> \<not> am_local_response_sent m1
     \<and> am_onMessageDecoded cfg i md mut cn =
         bindS (bindS (bindS (filter_callbacks cfg i (rs_calls s') cn1) (\<lambda>_ cn2. (status, cn2))) (\<lambda>st cn2.
           if local_response_sent i cn2 then
             (Inr ContinueIteration, upd_message i (\<lambda>m. m\<lparr>am_filter_action := None\<rparr>) cn2)
           else if st \<noteq> ContinueIteration then (Inr st, cn2)
           else (Inr ContinueIteration, upd_message i (\<lambda>m. m\<lparr>am_filter_action := None\<rparr>) cn2)))
         (\<lambda>st cn2. case st of
             PauseIteration \<Rightarrow> (Inr (), upd_message i (\<lambda>m. m\<lparr>am_pending_stream_decoded := True\<rparr>) cn2)
           | AbortIteration \<Rightarrow> (Inr (), deferredDeleteMessage i cn2)
           | ContinueIteration \<Rightarrow> maybeDeferredDeleteMessage i cn2
           | Retry \<Rightarrow> (Inl (Panic ''invalid filter status''), cn2))"
proof -
  let ?md = "putString ApplicationProtocol (cf_applicationProtocol cfg) md"
  define cnA where "cnA = upd_message i (\<lambda>m. m\<lparr>am_filter_action := Some mut\<rparr>)
    (upd_message i (\<lambda>m. m\<lparr>am_metadata := Some ?md\<rparr>)
      (upd_message i (\<lambda>m. m\<lparr>am_bytes_sent := am_bytes_sent m + getMessageSize md\<rparr>)
        (inc request_decoding_success cn)))"
  define cn1 where "cn1 = (upd_message i (\<lambda>m'. m'\<lparr>am_filters := (am_filters m')[0 := FRouter (rs_router s')],
      am_metadata := Some (rs_metadata s'), am_filter_action := Some (rs_mutation s')\<rparr>) cnA)
      \<lparr>cn_shared := cn_shared cnA, cn_net := rs_net s'\<rparr>"
  have chain: "createFilterChain cfg new_message = new_message\<lparr>am_filters := [FRouter new_router],
      am_decoder_filters := [(0, True)], am_encoder_filters := [(0, True)]\<rparr>"
    using assms(2) by (simp add: createFilterChain_def add_kind_def addFilter_def new_message_def)
  have same: "same_conn (inc request_decoding_success cn) cn1"
    unfolding same_conn_def cn1_def cnA_def by simp
  have m1: "get_message i cn1 = Some (new_message\<lparr>am_filters := [FRouter (rs_router s')],
      am_decoder_filters := [(0, True)], am_encoder_filters := [(0, True)],
      am_metadata := Some (rs_metadata s'), am_bytes_sent := getMessageSize md,
      am_filter_action := Some (rs_mutation s')\<rparr>)"
    using assms(3) unfolding chain by (simp add: cn1_def cnA_def new_message_def)
  have mA: "get_message i cnA = Some (new_message\<lparr>am_filters := [FRouter new_router],
      am_decoder_filters := [(0, True)], am_encoder_filters := [(0, True)],
      am_metadata := Some ?md, am_bytes_sent := getMessageSize md, am_filter_action := Some mut\<rparr>)"
    using assms(3) unfolding chain by (simp add: cnA_def new_message_def)
  have net: "cn_net cnA = cn_net cn" and net1: "cn_net cn1 = rs_net s'"
    by (simp_all add: cnA_def cn1_def)
  have run: "run_decoder_filter cfg i 0 cnA = bindS (filter_callbacks cfg i (rs_calls s') cn1) (\<lambda>_ cn2. (status, cn2))"
    using assms(1,5) mA net
    by (simp add: run_decoder_filter_def the_message_def proxy_filters_def router_onMessageDecoded_def
        Let_def cn1_def new_message_def)
  have "applyDecoderFilters cfg i None CanStartFromCurrent cnA =
      bindS (run_decoder_filter cfg i 0 cnA) (\<lambda>st cn2.
           if local_response_sent i cn2 then
             (Inr ContinueIteration, upd_message i (\<lambda>m. m\<lparr>am_filter_action := None\<rparr>) cn2)
           else if st \<noteq> ContinueIteration then (Inr st, cn2)
           else (Inr ContinueIteration, upd_message i (\<lambda>m. m\<lparr>am_filter_action := None\<rparr>) cn2))"
    by (simp add: applyDecoderFilters_def the_message_def mA commonPrefix_def new_message_def cong: if_cong)
  moreover have "am_onMessageDecoded cfg i md mut cn =
      bindS (applyDecoderFilters cfg i None CanStartFromCurrent cnA) (\<lambda>st cn2. case st of
             PauseIteration \<Rightarrow> (Inr (), upd_message i (\<lambda>m. m\<lparr>am_pending_stream_decoded := True\<rparr>) cn2)
           | AbortIteration \<Rightarrow> (Inr (), deferredDeleteMessage i cn2)
           | ContinueIteration \<Rightarrow> maybeDeferredDeleteMessage i cn2
           | Retry \<Rightarrow> (Inl (Panic ''invalid filter status''), cn2))"
    using assms(4) by (simp add: am_onMessageDecoded_def stream_switch_def Let_def cnA_def)
  ultimately show ?thesis
    unfolding run using same m1 net1
    by (intro exI [of _ cn1] exI [of _ "the (get_message i cn1)"]) (simp add: new_message_def)
qed

text \<open>
  C5: a request that no route matches, whose cluster is unknown or in maintenance, or for which no
  host is healthy, is answered with exactly one error reply of that kind, made for the message as it then is; the
  message is deleted, the refusal is in the access log and nothing is sent upstream.
\<close>

theorem refused_request_answered:
  assumes "cf_filters cfg = proxy_filters rv other"
    and "cf_filterFactories cfg = [(CodecKind, FRouter new_router)]"
    and "get_message i cn = Some (createFilterChain cfg new_message)"
    and "active i cn" "distinct_messages cn" "cn_state cn = Open" "md_message_type md = Request"
    and "md1 = putString ApplicationProtocol (cf_applicationProtocol cfg) md"
    and "route = config_route (rv_matchHeaders rv) (rv_pickCluster rv) (rv_routes rv i) md1 (rv_stream_id rv i)"
    and "refusal_reason rv (cn_net cn) route t"
    and "prepared rv i route \<lparr>rs_router = new_router, rs_net = cn_net cn, rs_metadata = md1, rs_mutation = mut, rs_calls = []\<rparr>
      = (Inr (), s1)"
    and "\<forall>err. err_type err = t \<longrightarrow> (\<exists>b. co_onError (cf_codec cfg) (rs_metadata s1) err [] = Inr b)"
  shows "\<exists>cn' err b detail. am_onMessageDecoded cfg i md mut cn = (Inr (), cn') \<and> err_type err = t
     \<and> co_onError (cf_codec cfg) (rs_metadata s1) err [] = Inr b
     \<and> cn_written cn' = cn_written cn @ [(b, False)] \<and> \<not> active i cn' \<and> deferred i cn'
     \<and> nt_written (cn_net cn') = nt_written (cn_net cn) \<and> nt_log (cn_net cn') = nt_log (cn_net cn) @ [(1, detail)]"
proof -
  let ?s = "\<lparr>rs_router = new_router, rs_net = cn_net cn, rs_metadata = md1, rs_mutation = mut, rs_calls = []\<rparr>"
  have route: "am_route rv i ?s = route" using assms(9) by (simp add: am_route_def new_router_def)
  from assms(10,11) route obtain msg detail s2 where e: "router_decode rv i ?s = abort_with (Error t msg) detail s2"
      "rs_metadata s2 = rs_metadata s1" "rs_calls s2 = []" "rs_net s2 = cn_net cn"
    using router_decode_refused [of rv ?s i t s1] by (auto simp: refused_as_def)
  let ?err = "Error t msg"
  define s' where "s' = snd (abort_with ?err detail s2)"
  have s': "router_decode rv i ?s = (Inr AbortIteration, s')" "rs_metadata s' = rs_metadata s1"
      "rs_calls s' = [Call_sendLocalReply ?err False]" "rs_net s' = emitLogEntry RS_Error detail (cn_net cn)"
    using e by (simp_all add: s'_def abort_with_def rs_call_def)
  obtain b where b: "co_onError (cf_codec cfg) (rs_metadata s') ?err [] = Inr b" using assms(12) [rule_format, of ?err] s'(2) by auto
  obtain cn1 m1 where cn1: "same_conn (inc request_decoding_success cn) cn1" "cn_net cn1 = rs_net s'"
     "get_message i cn1 = Some m1" "am_metadata m1 = Some (rs_metadata s')"
    and eq: "am_onMessageDecoded cfg i md mut cn =
         bindS (bindS (bindS (filter_callbacks cfg i (rs_calls s') cn1) (\<lambda>_ cn2. (Inr AbortIteration, cn2))) (\<lambda>st cn2.
           if local_response_sent i cn2 then
             (Inr ContinueIteration, upd_message i (\<lambda>m. m\<lparr>am_filter_action := None\<rparr>) cn2)
           else if st \<noteq> ContinueIteration then (Inr st, cn2)
           else (Inr ContinueIteration, upd_message i (\<lambda>m. m\<lparr>am_filter_action := None\<rparr>) cn2)))
         (\<lambda>st cn2. case st of
             PauseIteration \<Rightarrow> (Inr (), upd_message i (\<lambda>m. m\<lparr>am_pending_stream_decoded := True\<rparr>) cn2)
           | AbortIteration \<Rightarrow> (Inr (), deferredDeleteMessage i cn2)
           | ContinueIteration \<Rightarrow> maybeDeferredDeleteMessage i cn2
           | Retry \<Rightarrow> (Inl (Panic ''invalid filter status''), cn2))"
    using am_onMessageDecoded_router [OF assms(1-3,7) s'(1) [unfolded assms(8)]] by auto
  let ?cn2 = "upd_message i (\<lambda>m. m\<lparr>am_local_response_sent := True\<rparr>)
        (inc local_response_business_exception (conn_write b False cn1))"
  have open1: "cn_state cn1 = Open" using cn1(1) assms(6) by (simp add: same_conn_def)
  have "filter_callbacks cfg i (rs_calls s') cn1 = (Inr (), ?cn2)"
    using sendLocalReply_open [OF cn1(3,4) open1 b] s'(3) by (simp add: filter_callback_def)
  then have "am_onMessageDecoded cfg i md mut cn = maybeDeferredDeleteMessage i
      (upd_message i (\<lambda>m. m\<lparr>am_filter_action := None\<rparr>) ?cn2)"
    unfolding eq using cn1(3) by (simp add: local_response_sent_def)
  then have "am_onMessageDecoded cfg i md mut cn = (Inr (), deferredDeleteMessage i
      ((upd_message i (\<lambda>m. m\<lparr>am_pending_stream_decoded := False\<rparr>)
         (upd_message i (\<lambda>m. m\<lparr>am_filter_action := None\<rparr>) ?cn2))
       \<lparr>cn_stats := request_stats (md_message_type (rs_metadata s')) (stat_inc request (cn_stats ?cn2))\<rparr>))"
    (is "_ = (Inr (), deferredDeleteMessage i ?cn3)")
    using cn1(3,4)
    by (simp add: maybeDeferredDeleteMessage_def the_metadata_def the_message_def local_response_sent_def Let_def)
  moreover have "distinct_messages ?cn3" "active i ?cn3" "cn_written ?cn3 = cn_written cn @ [(b, False)]"
    "nt_written (cn_net ?cn3) = nt_written (cn_net cn)" "nt_log (cn_net ?cn3) = nt_log (cn_net cn) @ [(1, detail)]"
    using same_conn_messages [OF cn1(1)] assms(4,5) cn1(1,2) s'(4)
    by (simp_all add: same_conn_def emitLogEntry_def)
  ultimately show ?thesis
    using delete_active [of ?cn3 i] b s'(2)
    by (intro exI [of _ "deferredDeleteMessage i ?cn3"] exI [of _ ?err] exI [of _ b] exI [of _ detail]) simp
qed

section \<open>Responses\<close>

lemma get_message_response [simp]:
  "get_message i (upd_response i f cn) =
     map_option (\<lambda>m. m\<lparr>am_response_decoder := map_option f (am_response_decoder m)\<rparr>) (get_message i cn)"
  by (simp add: upd_response_def)

lemma upd_response_messages [simp]:
  "active j (upd_response i f cn) = active j cn" "deferred j (upd_response i f cn) = deferred j cn"
  "distinct_messages (upd_response i f cn) = distinct_messages cn" "cn_net (upd_response i f cn) = cn_net cn"
  "cn_shared (upd_response i f cn) = cn_shared cn"
  by (simp_all add: upd_response_def)

text \<open>The response passes the router on its way back.\<close>

lemma router_encoder_chain:
  assumes "cf_filters cfg = proxy_filters rv other" "get_message i cn = Some m"
    and "am_filters m = [FRouter ro]" "am_encoder_filters m = [(0, True)]" "\<not> am_local_response_sent m"
    and "am_response_decoder m = Some rd" "rd_metadata rd = Some md"
    and "ro_upstream_request ro = Some r" "ur_upstream_host r = Some h"
  shows "\<exists>cn'. applyMessageEncodedFilters cfg i mut cn = (Inr (ContinueIteration, mut), cn')
     \<and> same_conn cn cn' \<and> cn_net cn' = putResult h (response_result md) (cn_net cn)
     \<and> get_message i cn' = Some (m\<lparr>am_filters := [FRouter (ro\<lparr>ro_response_metadata := True\<rparr>)],
          am_encoder_filter_action := None\<rparr>)"
proof -
  let ?cn2 = "upd_message i (\<lambda>m. m\<lparr>am_encoder_filter_action := Some mut\<rparr>) cn"
  define cn3 where "cn3 = (upd_message i (\<lambda>m'. m'\<lparr>
      am_filters := (am_filters m')[0 := FRouter (ro\<lparr>ro_response_metadata := True\<rparr>)],
      am_response_decoder := Some (rd\<lparr>rd_metadata := Some md\<rparr>), am_encoder_filter_action := Some mut\<rparr>) ?cn2)
      \<lparr>cn_shared := cn_shared ?cn2, cn_net := putResult h (response_result md) (cn_net ?cn2)\<rparr>"
  have "run_encoder_filter cfg i 0 ?cn2 = (Inr ContinueIteration, cn3)"
    using assms
    by (simp add: run_encoder_filter_def the_message_def proxy_filters_def router_onMessageEncoded_def
        Let_def cn3_def)
  moreover have "rd\<lparr>rd_metadata := Some md\<rparr> = rd" using assms(7) by simp
  moreover have "get_message i cn3 = Some (m\<lparr>am_filters := [FRouter (ro\<lparr>ro_response_metadata := True\<rparr>)],
      am_encoder_filter_action := Some mut\<rparr>)"
    using assms calculation(2) by (simp add: cn3_def)
  moreover have "same_conn cn cn3" "cn_net cn3 = putResult h (response_result md) (cn_net cn)"
    by (simp_all add: cn3_def same_conn_def)
  ultimately show ?thesis
    using assms
    by (simp add: applyMessageEncodedFilters_def applyEncoderFilters_def the_message_def commonPrefix_def
        local_response_sent_def the_encoder_mutation_def same_conn_def)
qed

text \<open>The bytes of the upstream complete a response: it is encoded for the client, written once,
  and the message is deleted.\<close>

lemma upstreamData_complete:
  assumes "cf_filters cfg = proxy_filters rv other" "get_message i cn = Some m" "distinct_messages cn"
    and "am_filters m = [FRouter ro]" "am_encoder_filters m = [(0, True)]" "\<not> am_local_response_sent m"
    and "am_response_decoder m = Some rd" "am_metadata m = Some rq" "cn_state cn = Open"
    and "ro_upstream_request ro = Some r" "ur_upstream_host r = Some h"
    and "co_decode (cf_codec cfg) (d_codec (rd_decoder rd)) data (fresh_metadata (d_messageType (rd_decoder rd)))
           = Inr (Done, c', rest, md)" "md_message_type md \<noteq> Heartbeat"
    and "getString RealServerAddress rq = Inr addr"
    and "co_encode (cf_codec cfg) (putString RealServerAddress addr md) [] (md_origin_message md) = Inr (b, md1)"
    and "md_request_id md1 = md_request_id rq"
  shows "\<exists>cn' m'. am_upstreamData cfg i data cn = (Inr (UR_Complete, rest), cn')
     \<and> cn_written cn' = cn_written cn @ [(b, False)] \<and> cn_state cn' = Open
     \<and> \<not> active i cn' \<and> (active i cn \<longrightarrow> deferred i cn') \<and> distinct_messages cn'
     \<and> cn_net cn' = putResult h (response_result md) (cn_net cn)
     \<and> get_message i cn' = Some m' \<and> am_filters m' = [FRouter (ro\<lparr>ro_response_metadata := True\<rparr>)]
     \<and> am_metadata m' = Some rq"
proof -
  let ?cn1 = "upd_response i (\<lambda>rd. rd\<lparr>rd_metadata := Some md\<rparr>)
     (upd_message i (\<lambda>m. m\<lparr>am_bytes_received := am_bytes_received m + getMessageSize md\<rparr>) cn)"
  let ?m1 = "m\<lparr>am_bytes_received := am_bytes_received m + getMessageSize md,
     am_response_decoder := Some (rd\<lparr>rd_metadata := Some md\<rparr>)\<rparr>"
  have m1: "get_message i ?cn1 = Some ?m1" using assms(2,7) by simp
  obtain cn2 where cn2: "applyMessageEncodedFilters cfg i [] ?cn1 = (Inr (ContinueIteration, []), cn2)"
     "same_conn ?cn1 cn2" "cn_net cn2 = putResult h (response_result md) (cn_net cn)"
     "get_message i cn2 = Some (?m1\<lparr>am_filters := [FRouter (ro\<lparr>ro_response_metadata := True\<rparr>)],
          am_encoder_filter_action := None\<rparr>)"
    using router_encoder_chain [OF assms(1) m1, of ro "rd\<lparr>rd_metadata := Some md\<rparr>" md r h "[]"] assms(4-6,10,11)
    by auto
  define cn3 where "cn3 = conn_write b False (upd_response i (\<lambda>rd. rd\<lparr>rd_complete := True,
       rd_response_status := UR_Complete, rd_metadata := Some (md1\<lparr>md_origin_message := []\<rparr>)\<rparr>) cn2)"
  have open2: "cn_state cn2 = Open" using cn2(2) assms(9) by (simp add: same_conn_def upd_response_def)
  define cn4 where "cn4 = cn3\<lparr>cn_stats := response_stats md1 (cn_stats cn3)\<rparr>"
  have fwd: "forward_response cfg i [] cn2 = (Inr (), cn4)"
    using cn2(4) open2 assms(8,14,15)
    by (simp add: forward_response_def the_metadata_def the_message_def cn3_def cn4_def Let_def)
  have "rd_onMessageDecoded cfg i md [] cn = (Inr (), cn4)"
    using cn2(1) fwd by (simp add: rd_onMessageDecoded_def Let_def)
  then have "deliver (response_callbacks cfg i) md cn = (Inr False, cn4)"
    using assms(13) by (simp add: deliver_def response_callbacks_def)
  then have od: "onData (co_decode (cf_codec cfg)) (response_callbacks cfg i) (rd_decoder rd) data cn =
      (Inr (rest = [], idle c' (rd_decoder rd), rest), cn4)"
    using onData_done [of "co_decode (cf_codec cfg)", OF assms(12), of "response_callbacks cfg i" cn] by simp
  let ?cn4 = "upd_response i (\<lambda>r. r\<lparr>rd_decoder := idle c' (rd_decoder rd)\<rparr>) cn4"
  have "\<exists>rd4. Option.bind (get_message i cn4) am_response_decoder = Some rd4 \<and> rd_response_status rd4 = UR_Complete"
    using cn2(4) by (simp add: cn4_def cn3_def)
  then have rd: "rd_onData cfg i data cn = (Inr (UR_Complete, rest), ?cn4)"
    using assms(2,7) od by (auto simp: rd_onData_def the_message_def bind_eq_Some_conv)
  have m4: "\<exists>m4. get_message i ?cn4 = Some m4 \<and> am_filters m4 = [FRouter (ro\<lparr>ro_response_metadata := True\<rparr>)]
      \<and> am_metadata m4 = Some rq \<and> (\<exists>rd4. am_response_decoder m4 = Some rd4 \<and>
        rd_metadata rd4 = Some (md1\<lparr>md_origin_message := []\<rparr>))"
    using cn2(4) assms(8) by (simp add: cn3_def cn4_def)
  then have "upstreamData_try cfg i data cn = (Inr (UR_Complete, rest), deferredDeleteMessage i ?cn4)"
    using rd assms(16)
    by (auto simp: upstreamData_try_def the_message_def am_requestId_def rd_requestId_def)
  then have eq: "am_upstreamData cfg i data cn = (Inr (UR_Complete, rest), deferredDeleteMessage i ?cn4)"
    by (simp add: am_upstreamData_def)
  have f: "distinct_messages ?cn4" "active i ?cn4 = active i cn" "cn_written ?cn4 = cn_written cn @ [(b, False)]"
    "cn_state ?cn4 = Open" "cn_net ?cn4 = putResult h (response_result md) (cn_net cn)"
    using same_conn_messages [OF cn2(2)] assms(3) cn2(2,3) open2
    by (simp_all add: cn3_def cn4_def same_conn_def upd_response_def)
  show ?thesis
    using m4 f delete_active [OF f(1), of i] by (intro exI [of _ "deferredDeleteMessage i ?cn4"]) (auto simp: eq)
qed

lemma get_router_single:
  assumes "cf_filterFactories cfg = [kf]" "get_message i cn = Some m" "am_filters m = [FRouter ro]"
  shows "get_router cfg i cn = Some ro"
  using assms by (simp add: get_router_def message_router_def router_index_def)

lemma upd_message_router_single:
  assumes "cf_filterFactories cfg = [kf]" "get_message i cn = Some m" "am_filters m = [FRouter ro]"
  shows "get_message i (upd_message_router cfg i f cn) = Some (m\<lparr>am_filters := [FRouter (f ro)]\<rparr>)"
  using assms by (simp add: upd_message_router_def router_index_def)

lemma start_response_single:
  assumes "cf_filterFactories cfg = [kf]" "get_message i cn = Some m" "am_filters m = [FRouter ro]"
    and "ro_upstream_request ro = Some r" "\<not> ur_response_started r"
  shows "\<exists>cn1. start_response cfg i cn = (Inr (), cn1) \<and> same_conn cn cn1 \<and> cn_net cn1 = cn_net cn
     \<and> get_message i cn1 = Some (m\<lparr>am_response_decoder := Some (new_response_decoder (co_new (cf_codec cfg))),
          am_filters := [FRouter (ro\<lparr>ro_upstream_request := Some (r\<lparr>ur_response_started := True\<rparr>)\<rparr>)]\<rparr>)"
proof -
  define cn1 where "cn1 = ur_onResponseStarted (conn_owner cfg i) (am_startUpstreamResponse cfg i cn)"
  have m0: "get_message i (am_startUpstreamResponse cfg i cn) =
      Some (m\<lparr>am_response_decoder := Some (new_response_decoder (co_new (cf_codec cfg)))\<rparr>)"
    using assms(2) by (simp add: am_startUpstreamResponse_def)
  have "start_response cfg i cn = (Inr (), cn1)"
    using get_router_single [OF assms(1-3)] assms(4,5) by (simp add: start_response_def with_request_def cn1_def)
  moreover have "same_conn cn cn1" "cn_net cn1 = cn_net cn"
    by (simp_all add: cn1_def ur_onResponseStarted_def upd_request_def conn_owner_def same_conn_def
        upd_message_router_def am_startUpstreamResponse_def)
  ultimately show ?thesis
    using upd_message_router_single [OF assms(1) m0, of ro] get_router_single [OF assms(1) m0, of ro] assms(3,4)
    by (simp add: cn1_def ur_onResponseStarted_def upd_request_def conn_owner_def)
qed

text \<open>The end of a response: the connection goes back to its pool.\<close>

lemma responseComplete_single:
  assumes "cf_filterFactories cfg = [kf]" "get_message i cn = Some m" "am_filters m = [FRouter ro]"
    and "ro_upstream_request ro = Some r" "ro_active_span ro = None"
  shows "\<exists>cn'. onUpstreamResponseComplete rv cfg i rm cn = (Inr (), cn') \<and> same_conn cn cn'
     \<and> cn_net cn' = emitLogEntry RS_Ok [] (release_conn (ur_conn_data r) (cn_net cn))
     \<and> Option.bind (get_router cfg i cn') ro_upstream_request = None"
proof -
  let ?ow = "conn_owner cfg i"
  note r0 = get_router_single [OF assms(1-3)]
  define cn1 where "cn1 = upd_net ?ow (release_conn (ur_conn_data r))
    (upd_request ?ow (\<lambda>r. r\<lparr>ur_response_complete := True, ur_conn_data := None\<rparr>) cn)"
  have c1: "ur_onResponseComplete ?ow cn = (Inr (), cn1)"
    using r0 assms(4) by (simp add: ur_onResponseComplete_def with_request_def cn1_def)
  have r1: "Option.bind (get_router cfg i cn1) ro_upstream_request =
      Some (r\<lparr>ur_response_complete := True, ur_conn_data := None\<rparr>)"
    using r0 assms(4) by (simp add: cn1_def)
  have "get_router cfg i cn1 = Some (ro\<lparr>ro_upstream_request :=
      Some (r\<lparr>ur_response_complete := True, ur_conn_data := None\<rparr>)\<rparr>)"
    using r0 assms(4) by (simp add: cn1_def upd_net_def upd_request_def conn_owner_def get_router_upd)
  then have r2: "get_router cfg i (destroy_request ?ow cn1) = Some (ro\<lparr>ro_upstream_request := None\<rparr>)"
    "cn_net (destroy_request ?ow cn1) = cn_net cn1"
    by (simp_all add: destroy_request_def upd_net_def conn_owner_def get_router_upd release_conn_def)
  have s: "same_conn cn (destroy_request ?ow cn1)"
    by (simp add: destroy_request_def cn1_def same_conn_def upd_net_def upd_request_def conn_owner_def
        upd_message_router_def split: option.split)
  have net: "cn_net cn1 = release_conn (ur_conn_data r) (cn_net cn)" by (simp add: cn1_def)
  show ?thesis
    using c1 r2 s net assms(5)
    by (simp add: onUpstreamResponseComplete_def finalize_with_response_def log_entry_def same_conn_def)
qed

text \<open>
  C2: when the upstream bytes are a whole response to the request of a message, the client gets
  that response, with the address of the host added, exactly once; the message is deleted, the
  upstream connection goes back to its pool, and the outcome is reported to the outlier detector
  and the access log.
\<close>

theorem response_forwarded:
  assumes "proxy_reachable rv cfg g nt cm" "cf_filters cfg = proxy_filters rv other"
    and "cf_filterFactories cfg = [(CodecKind, f0)]"
    and "active i (cm_conn cm)" "get_message i (cm_conn cm) = Some m" "am_filters m = [FRouter ro]"
    and "\<not> am_local_response_sent m" "am_metadata m = Some rq" "cn_state (cm_conn cm) = Open"
    and "ro_upstream_request ro = Some r" "ro_active_span ro = None" "ur_upstream_host r = Some h"
    and "ur_conn_data r = Some c" "\<not> ur_response_started r"
    and "co_decode (cf_codec cfg) (co_new (cf_codec cfg)) data (fresh_metadata Response) = Inr (Done, c', rest, md)"
    and "md_message_type md \<noteq> Heartbeat" "getString RealServerAddress rq = Inr addr"
    and "co_encode (cf_codec cfg) (putString RealServerAddress addr md) [] (md_origin_message md) = Inr (b, md1)"
    and "md_request_id md1 = md_request_id rq"
  shows "\<exists>cm'. proxy_handle rv cfg (UpstreamRead i data e) cm = Some (Inr (), cm')
     \<and> cn_written (cm_conn cm') = cn_written (cm_conn cm) @ [(b, False)]
     \<and> \<not> active i (cm_conn cm') \<and> deferred i (cm_conn cm')
     \<and> cn_net (cm_conn cm') = emitLogEntry RS_Ok [] (release_conn (Some c)
         (putResult h (response_result md) (cn_net (cm_conn cm))))"
proof -
  let ?cn = "cm_conn cm" and ?ow = "conn_owner cfg i"
  let ?ro1 = "ro\<lparr>ro_upstream_request := Some (r\<lparr>ur_response_started := True\<rparr>)\<rparr>"
  obtain cn1 where st: "start_response cfg i ?cn = (Inr (), cn1)" and same: "same_conn ?cn cn1" "cn_net cn1 = cn_net ?cn"
    and m1: "get_message i cn1 = Some (m\<lparr>am_response_decoder := Some (new_response_decoder (co_new (cf_codec cfg))),
      am_filters := [FRouter ?ro1]\<rparr>)"
    using start_response_single [OF assms(3,5,6,10,14)] by blast
  have enc: "am_encoder_filters m = [(0, True)]"
  proof -
    have "(i, m) \<in> set (cn_messages ?cn @ cn_deferred ?cn)"
      using assms(5) unfolding get_message_def by (rule map_of_SomeD)
    with proxy_reachable_ok(1) [OF assms(1)] have "am_encoder_filters m = am_encoder_filters (createFilterChain cfg new_message)"
      by (auto simp: chain_ok_def list_all_iff same_chain_def)
    then show ?thesis using assms(3) by (simp add: createFilterChain_def add_kind_def addFilter_def new_message_def)
  qed
  let ?rd = "new_response_decoder (co_new (cf_codec cfg))"
  have dec: "co_decode (cf_codec cfg) (d_codec (rd_decoder ?rd)) data (fresh_metadata (d_messageType (rd_decoder ?rd)))
      = Inr (Done, c', rest, md)"
    using assms(15) by (simp add: new_response_decoder_def new_decoder_def)
  have d1: "distinct_messages cn1" "active i cn1" "cn_state cn1 = Open"
    using same_conn_messages [OF same(1)] same(1) proxy_reachable_ok(2) [OF assms(1)] assms(4,9)
    by (simp_all add: same_conn_def)
  obtain cn2 m2 where cn2: "am_upstreamData cfg i data cn1 = (Inr (UR_Complete, rest), cn2)"
     "cn_written cn2 = cn_written cn1 @ [(b, False)]" "\<not> active i cn2" "deferred i cn2"
     "cn_net cn2 = putResult h (response_result md) (cn_net cn1)"
     "get_message i cn2 = Some m2" "am_filters m2 = [FRouter (?ro1\<lparr>ro_response_metadata := True\<rparr>)]"
    using upstreamData_complete [OF assms(2) m1 d1(1), of ?ro1 ?rd rq "r\<lparr>ur_response_started := True\<rparr>" h data c' rest md addr b md1]
      enc assms(7,8,10,12,16-19) d1 dec by auto
  obtain cn3 where cn3: "onUpstreamResponseComplete rv cfg i (response_metadata cfg i cn2) cn2 = (Inr (), cn3)"
     "same_conn cn2 cn3" "cn_net cn3 = emitLogEntry RS_Ok [] (release_conn (Some c) (cn_net cn2))"
    using responseComplete_single [OF assms(3) cn2(6,7), of "r\<lparr>ur_response_started := True\<rparr>"] assms(11,13) by auto
  have "router_onUpstreamData rv cfg i data e ?cn = (Inr (), cn3)"
    using st cn2(1) cn3(1) by (simp add: router_onUpstreamData_def)
  then show ?thesis
    using cn3 cn2(2-5) same same_conn_messages [OF cn3(2)]
    by (simp add: proxy_handle_def on_conn_def same_conn_def)
qed

text \<open>
  C25: bytes of the upstream that the codec refuses make the proxy write two error replies for the
  one request: that of the response that cannot be decoded, and that of the upstream connection,
  which the router itself closes and then takes for a failure.
\<close>

theorem bad_response_two_replies:
  assumes "proxy_reachable rv cfg g nt cm" "cf_filterFactories cfg = [(CodecKind, f0)]"
    and "active i (cm_conn cm)" "get_message i (cm_conn cm) = Some m" "am_filters m = [FRouter ro]"
    and "am_metadata m = Some rq" "md_message_type rq = Request" "cn_state (cm_conn cm) = Open"
    and "ro_upstream_request ro = Some r" "ro_active_span ro = None" "ur_upstream_host r = Some h"
    and "ur_conn_data r = Some c" "\<not> ur_response_started r" "\<not> ur_response_complete r"
    and "co_decode (cf_codec cfg) (co_new (cf_codec cfg)) data (fresh_metadata Response) = Inl (EnvoyException w)"
    and "co_onError (cf_codec cfg) rq (Error BadResponse w) [] = Inr b1"
    and "co_onError (cf_codec cfg) rq (Error Unspecified
           (''meta protocol upstream request: local connection failure '' @ quoted h)) [] = Inr b2"
  shows "\<exists>cm'. proxy_handle rv cfg (UpstreamRead i data e) cm = Some (Inr (), cm')
     \<and> cn_written (cm_conn cm') = cn_written (cm_conn cm) @ [(b1, False), (b2, False)]
     \<and> \<not> active i (cm_conn cm') \<and> deferred i (cm_conn cm')
     \<and> nt_closed (cn_net (cm_conn cm')) = nt_closed (cn_net (cm_conn cm)) @ [c]"
proof -
  let ?cn = "cm_conn cm" and ?ow = "conn_owner cfg i"
  let ?rd = "new_response_decoder (co_new (cf_codec cfg))"
  let ?r1 = "r\<lparr>ur_response_started := True\<rparr>"
  let ?ro1 = "ro\<lparr>ro_upstream_request := Some ?r1\<rparr>"
  obtain cn1 where st: "start_response cfg i ?cn = (Inr (), cn1)" "same_conn ?cn cn1" "cn_net cn1 = cn_net ?cn"
     "get_message i cn1 = Some (m\<lparr>am_response_decoder := Some ?rd, am_filters := [FRouter ?ro1]\<rparr>)"
    using start_response_single [OF assms(2,4,5,9,13)] by blast
  let ?m1 = "m\<lparr>am_response_decoder := Some ?rd, am_filters := [FRouter ?ro1]\<rparr>"
  define cnB where "cnB = upd_message i (\<lambda>m. if am_metadata m = None then m\<lparr>am_metadata := Some new_metadata\<rparr> else m)
      (inc response_decoding_error cn1)"
  have mB: "get_message i cnB = Some ?m1" "am_metadata ?m1 = Some rq"
    using st(4) assms(6) by (simp_all add: cnB_def)
  have B: "cn_state cnB = Open" "distinct_messages cnB" "active i cnB" "cn_written cnB = cn_written ?cn"
    "cn_net cnB = cn_net ?cn"
    using st(2,3) assms(3,8) same_conn_messages [OF st(2)] proxy_reachable_ok(2) [OF assms(1)]
    by (simp_all add: cnB_def same_conn_def)
  define cn2 where "cn2 = deferredDeleteMessage i (upd_message i (\<lambda>m. m\<lparr>am_local_response_sent := True\<rparr>)
        (inc local_response_business_exception (conn_write b1 False cnB)))"
  have "rd_onData cfg i data cn1 = (Inl (EnvoyException w), cn1)"
    using st(4) onData_throw [of "co_decode (cf_codec cfg)" "rd_decoder ?rd" data "EnvoyException w" "response_callbacks cfg i" cn1] assms(15)
    by (simp add: rd_onData_def the_message_def new_response_decoder_def new_decoder_def)
  then have u: "am_upstreamData cfg i data cn1 = (Inr (UR_Reset, []), cn2)"
    using sendLocalReply_open [OF mB B(1) assms(16)]
    by (simp add: am_upstreamData_def upstreamData_try_def am_onError_def Let_def cnB_def cn2_def)
  have c2: "cn_written cn2 = cn_written ?cn @ [(b1, False)]" "distinct_messages cn2" "deferred i cn2"
    "cn_state cn2 = Open" "cn_net cn2 = cn_net ?cn"
    "get_message i cn2 = Some (?m1\<lparr>am_local_response_sent := True\<rparr>)"
    using B mB delete_active [of "upd_message i (\<lambda>m. m\<lparr>am_local_response_sent := True\<rparr>)
        (inc local_response_business_exception (conn_write b1 False cnB))" i]
    by (simp_all add: cn2_def)
  have r2: "get_router cfg i cn2 = Some ?ro1"
    using get_router_single [OF assms(2) c2(6)] by simp
  let ?g = "\<lambda>r. r\<lparr>ur_stream_reset := True, ur_conn_pool_handle := False, ur_conn_data := None\<rparr>"
  define cn3 where "cn3 = upd_net ?ow (release_effect True ?r1) (upd_request ?ow ?g cn2)"
  have rel: "releaseUpStreamConnection ?ow True cn2 = (Inr True, cn3)"
    using r2 assms(12) by (simp add: releaseUpStreamConnection_def with_request_def cn3_def)
  have s3: "same_conn cn2 cn3" unfolding cn3_def by (meson same_conn_owner same_conn_trans)
  obtain m3 where m3: "get_message i cn3 = Some m3" "am_metadata m3 = Some rq"
     "am_filters m3 = [FRouter (?ro1\<lparr>ro_upstream_request := Some (?g ?r1)\<rparr>)]"
    using upd_message_router_single [OF assms(2) c2(6), of ?ro1] r2 mB(2)
    by (simp add: cn3_def upd_net_def upd_request_def conn_owner_def)
  note r3 = get_router_single [OF assms(2) m3(1,3)]
  have "nt_closed (cn_net cn3) = nt_closed (cn_net ?cn) @ [c]"
    using c2(5) assms(12) by (simp add: cn3_def release_effect_def release_conn_def Let_def)
  moreover obtain cn4 m4 where c4: "onUpstreamConnectionReset ?ow LocalConnectionFailure cn3 = (Inr (), cn4)"
     "cn_written cn4 = cn_written cn3 @ [(b2, False)]" "cn_net cn4 = cn_net cn3" "\<not> active i cn4" "deferred i cn4"
     "get_message i cn4 = Some m4" "am_filters m4 = am_filters m3"
    using connectionReset_conn [OF _ _ m3(1,2), of cfg "?g ?r1" LocalConnectionFailure _ b2] r3 s3 c2 assms(7,11,14,17)
      same_conn_messages [OF s3]
    by (auto simp: same_conn_def reset_message_def)
  moreover have "finalize_without_response rv cfg i cn4 = (Inr (), cn4)"
    using get_router_single [OF assms(2) c4(6)] c4(7) m3(3) assms(10) by (simp add: finalize_without_response_def)
  ultimately have "router_onUpstreamData rv cfg i data e ?cn = (Inr (), log_entry RS_Error ''upstream_reset'' cn4)"
    using st(1) u rel by (simp add: router_onUpstreamData_def upstream_reset_def router_onEvent_def onUpstreamConnectionEvent_def)
  then show ?thesis
    using c4 s3 c2(1) \<open>nt_closed (cn_net cn3) = _\<close>
    by (simp add: proxy_handle_def on_conn_def log_entry_def emitLogEntry_def same_conn_def)
qed

section \<open>A concrete proxy\<close>

text \<open>One route to one cluster, the byte codec, and the router alone in the chain.\<close>

definition byte_route :: "unit route_entry" where
  "byte_route = \<lparr>re_route_name = ''r'', re_cluster_name = ''up'', re_config_headers = [],
     re_weighted_clusters = [], re_total_cluster_weight = 0, re_request_mutation = [],
     re_response_mutation = [], re_hash_policy = None, re_mirror_policies = []\<rparr>"

definition byte_env :: "(unit, unit, unit) router_env" where
  "byte_env = \<lparr>rv_codec = byte_codec, rv_routes = (\<lambda>_. Some [byte_route]),
     rv_matchHeaders = (\<lambda>_ _. True), rv_pickCluster = (\<lambda>_ _ _. None), rv_stream_id = (\<lambda>_. 7),
     rv_uuid = (\<lambda>_. sample_uuid), rv_tracing_config = None, rv_tracer = None,
     rv_sampling = sample_sampling,
     rv_stream_info = (\<lambda>_. \<lparr>si_peer_address = [], si_upstream_host = None, si_start_time = 0,
       si_timing = [], si_health_check = False, si_trace_reason = NotTraceable\<rparr>),
     rv_featureEnabled = (\<lambda>_ _ _. True), rv_rand = (\<lambda>_ _. 0), rv_multiplexing = False\<rparr>"

definition byte_proxy :: "(unit, unit, (unit, unit) pfilter) config" where
  "byte_proxy = \<lparr>cf_codec = byte_codec, cf_applicationProtocol = ''byte'', cf_idleTimeout = None,
     cf_filterFactories = [(CodecKind, FRouter new_router)],
     cf_filters = proxy_filters byte_env pausing_filter\<rparr>"

definition byte_net :: "pool_answer \<Rightarrow> (unit, unit) net" where
  "byte_net a = new_net (\<lambda>c. if c = ''up'' then Some \<lparr>cl_maintenanceMode = False,
     cl_tcpConnPool = (\<lambda>_. Inr (Some \<lparr>tp_host = ''h'', tp_answer = a\<rparr>))\<rparr> else None)"

fun proxy_handles ::
  "('c, 'x, 'm) router_env \<Rightarrow> ('c, 'x, ('m, 'o) pfilter) config \<Rightarrow> proxy_event list
   \<Rightarrow> ('c, 'x, ('m, 'o) pfilter) cm \<Rightarrow> ('c, 'x, ('m, 'o) pfilter) cm option" where
  "proxy_handles rv cfg [] cm = Some cm"
| "proxy_handles rv cfg (ev # evs) cm = (case proxy_handle rv cfg ev cm of
     Some (Inr _, cm') \<Rightarrow> proxy_handles rv cfg evs cm'
   | _ \<Rightarrow> None)"

lemma proxy_handles_reachable:
  "proxy_reachable rv cfg g nt cm \<Longrightarrow> proxy_handles rv cfg evs cm = Some cm' \<Longrightarrow> proxy_reachable rv cfg g nt cm'"
  by (induction evs arbitrary: cm) (auto split: option.splits prod.splits sum.splits intro: proxy_step)

definition byte_start :: "pool_answer \<Rightarrow> (unit, unit, (unit, unit) pfilter) cm" where
  "byte_start a = new_cm byte_proxy (FOther ()) (byte_net a)"

definition byte_proxy_run :: "pool_answer \<Rightarrow> proxy_event list \<Rightarrow> (unit, unit, (unit, unit) pfilter) cm" where
  "byte_proxy_run a evs = the (proxy_handles byte_env byte_proxy evs (byte_start a))"

lemma byte_proxy_reachable:
  "proxy_handles byte_env byte_proxy evs (byte_start a) \<noteq> None \<Longrightarrow>
     proxy_reachable byte_env byte_proxy (FOther ()) (byte_net a) (byte_proxy_run a evs)"
  using proxy_handles_reachable [OF proxy_init] by (auto simp: byte_proxy_run_def byte_start_def)

text \<open>A request waits for its connection.\<close>

definition waiting_view ::
  "(unit, unit, (unit, unit) pfilter) conn \<Rightarrow> bool" where
  "waiting_view cn \<longleftrightarrow> active 0 cn \<and> cn_state cn = Open \<and>
     (case get_message 0 cn of
        Some m \<Rightarrow> \<not> am_local_response_sent m \<and>
          (case (am_metadata m, Option.bind (get_router byte_proxy 0 cn) ro_upstream_request) of
             (Some md, Some r) \<Rightarrow> md_message_type md = Request \<and> md_origin_message md = []
               \<and> \<not> ur_response_complete r \<and> ur_buffer r = [1] \<and> ur_mutation r = [(RequestUUID, sample_uuid)]
           | _ \<Rightarrow> False)
      | None \<Rightarrow> False)"

lemma waiting_run:
  "case proxy_handles byte_env byte_proxy [Core (Read [1] False)] (byte_start AnswerLater) of
     Some cm \<Rightarrow> waiting_view (cm_conn cm) | None \<Rightarrow> False"
  by code_simp

lemma waiting_obtain:
  obtains cm m md r where
    "proxy_reachable byte_env byte_proxy (FOther ()) (byte_net AnswerLater) cm"
    "active 0 (cm_conn cm)" "cn_state (cm_conn cm) = Open" "get_message 0 (cm_conn cm) = Some m"
    "\<not> am_local_response_sent m" "am_metadata m = Some md" "md_message_type md = Request"
    "md_origin_message md = []"
    "Option.bind (get_router byte_proxy 0 (cm_conn cm)) ro_upstream_request = Some r"
    "\<not> ur_response_complete r" "ur_buffer r = [1]"
proof -
  from waiting_run obtain cm where h: "proxy_handles byte_env byte_proxy [Core (Read [1] False)] (byte_start AnswerLater) = Some cm"
    and v: "waiting_view (cm_conn cm)" by (auto split: option.splits)
  have r: "proxy_reachable byte_env byte_proxy (FOther ()) (byte_net AnswerLater) cm"
    using proxy_handles_reachable [OF proxy_init h [unfolded byte_start_def]] .
  from v that [OF r] show thesis
    by (auto simp: waiting_view_def split: option.splits)
qed

theorem pool_failure_answered_witness:
  "\<exists>cm cm'. proxy_reachable byte_env byte_proxy (FOther ()) (byte_net AnswerLater) cm
     \<and> proxy_handle byte_env byte_proxy (PoolFailure 0 Timeout ''h'') cm = Some (Inr (), cm')
     \<and> cn_written (cm_conn cm') = cn_written (cm_conn cm) @ [([255], False)]
     \<and> \<not> active 0 (cm_conn cm')"
proof (rule waiting_obtain)
  fix cm m md r
  assume w: "proxy_reachable byte_env byte_proxy (FOther ()) (byte_net AnswerLater) cm"
    "active 0 (cm_conn cm)" "cn_state (cm_conn cm) = Open" "get_message 0 (cm_conn cm) = Some m"
    "am_metadata m = Some md" "md_message_type md = Request"
    "Option.bind (get_router byte_proxy 0 (cm_conn cm)) ro_upstream_request = Some r"
    "\<not> ur_response_complete r"
  have n: "md_message_type md \<noteq> Oneway" using w(6) by simp
  have "\<exists>msg. reset_message Timeout (Some ''h'') = Inr msg
      \<and> co_onError (cf_codec byte_proxy) md (Error Unspecified msg) [] = Inr [255]"
    by (simp add: reset_message_def byte_proxy_def byte_codec_def)
  then obtain msg where "reset_message Timeout (Some ''h'') = Inr msg"
     "co_onError (cf_codec byte_proxy) md (Error Unspecified msg) [] = Inr [255]" by blast
  from pool_failure_answered [OF w(1-5) n w(7,8) this] w(1) show ?thesis by blast
qed

theorem pool_ready_sends_witness:
  "\<exists>cm cm'. proxy_reachable byte_env byte_proxy (FOther ()) (byte_net AnswerLater) cm
     \<and> proxy_handle byte_env byte_proxy (PoolReady 0 ''h'' ''a'') cm = Some (Inr (), cm')
     \<and> (\<exists>c. nt_written (cn_net (cm_conn cm')) = nt_written (cn_net (cm_conn cm)) @ [(c, [1], False)])"
proof (rule waiting_obtain)
  fix cm m md r
  assume w: "proxy_reachable byte_env byte_proxy (FOther ()) (byte_net AnswerLater) cm"
    "active 0 (cm_conn cm)" "get_message 0 (cm_conn cm) = Some m"
    "\<not> am_local_response_sent m" "am_metadata m = Some md" "md_message_type md = Request"
    "md_origin_message md = []"
    "Option.bind (get_router byte_proxy 0 (cm_conn cm)) ro_upstream_request = Some r" "ur_buffer r = [1]"
  let ?md = "putString RealServerAddress ''a'' md"
  have "co_encode (cf_codec byte_proxy) ?md (ur_mutation r) (ur_buffer r) = Inr ([1], ?md)" "md_message_type ?md = Request"
    using w(6,9) by (simp_all add: byte_proxy_def byte_codec_def)
  from pool_ready_sends [OF w(1-3,5,6,7,4,8) this, of "''h''"] w(1) show ?thesis by blast
qed

theorem message_chain_type_witness:
  "\<exists>cm i m. proxy_reachable byte_env byte_proxy (FOther ()) (byte_net AnswerLater) cm
     \<and> (i, m) \<in> set (cn_messages (cm_conn cm) @ cn_deferred (cm_conn cm))
     \<and> mset (destroyed_filters m) = mset [0..<length (am_filters m)]"
proof (rule waiting_obtain)
  fix cm m md r
  assume w: "proxy_reachable byte_env byte_proxy (FOther ()) (byte_net AnswerLater) cm"
    "get_message 0 (cm_conn cm) = Some m"
  have "(0, m) \<in> set (cn_messages (cm_conn cm) @ cn_deferred (cm_conn cm))"
    using w(2) unfolding get_message_def by (rule map_of_SomeD)
  from message_chain_type [OF w(1) this] w(1) this show ?thesis by blast
qed

text \<open>A request that was sent waits for its response.\<close>

definition sent_view :: "(unit, unit, (unit, unit) pfilter) conn \<Rightarrow> bool" where
  "sent_view cn \<longleftrightarrow> active 0 cn \<and> cn_state cn = Open \<and> cn_written cn = [] \<and>
     (case get_message 0 cn of
        Some m \<Rightarrow> \<not> am_local_response_sent m \<and>
          (case (am_metadata m, am_filters m) of
             (Some md, [FRouter ro]) \<Rightarrow> md_message_type md = Request \<and> md_request_id md = 1
               \<and> getString RealServerAddress md = Inr ''a'' \<and> ro_active_span ro = None
               \<and> (case ro_upstream_request ro of
                    Some r \<Rightarrow> ur_upstream_host r = Some ''h'' \<and> ur_conn_data r = Some 0
                      \<and> \<not> ur_response_started r \<and> \<not> ur_response_complete r
                  | None \<Rightarrow> False)
           | _ \<Rightarrow> False)
      | None \<Rightarrow> False)"

lemma sent_run:
  "case proxy_handles byte_env byte_proxy [Core (Read [1] False)] (byte_start (AnswerReady ''a'')) of
     Some cm \<Rightarrow> sent_view (cm_conn cm) | None \<Rightarrow> False"
  by code_simp

lemma not_Cons_iff: "(\<forall>x ys. xs \<noteq> x # ys) \<longleftrightarrow> xs = []"
  by (cases xs) auto

lemma sent_obtain:
  obtains cm m md ro r where
    "proxy_reachable byte_env byte_proxy (FOther ()) (byte_net (AnswerReady ''a'')) cm"
    "active 0 (cm_conn cm)" "cn_state (cm_conn cm) = Open" "cn_written (cm_conn cm) = []"
    "get_message 0 (cm_conn cm) = Some m" "am_filters m = [FRouter ro]"
    "\<not> am_local_response_sent m" "am_metadata m = Some md" "md_message_type md = Request"
    "md_request_id md = 1" "getString RealServerAddress md = Inr ''a''" "ro_active_span ro = None"
    "ro_upstream_request ro = Some r" "ur_upstream_host r = Some ''h''" "ur_conn_data r = Some 0"
    "\<not> ur_response_started r" "\<not> ur_response_complete r"
proof -
  from sent_run obtain cm where h: "proxy_handles byte_env byte_proxy [Core (Read [1] False)] (byte_start (AnswerReady ''a'')) = Some cm"
    and v: "sent_view (cm_conn cm)" by (auto split: option.splits)
  have r: "proxy_reachable byte_env byte_proxy (FOther ()) (byte_net (AnswerReady ''a'')) cm"
    using proxy_handles_reachable [OF proxy_init h [unfolded byte_start_def]] .
  from v that [OF r] show thesis
    by (auto simp: sent_view_def not_Cons_iff split: option.split_asm list.split_asm pfilter.split_asm)
qed

lemma byte_proxy_simps:
  "cf_filters byte_proxy = proxy_filters byte_env pausing_filter"
  "cf_filterFactories byte_proxy = [(CodecKind, FRouter new_router)]"
  "cf_codec byte_proxy = byte_codec"
  by (simp_all add: byte_proxy_def)

theorem response_forwarded_witness:
  "\<exists>cm cm'. proxy_reachable byte_env byte_proxy (FOther ()) (byte_net (AnswerReady ''a'')) cm
     \<and> proxy_handle byte_env byte_proxy (UpstreamRead 0 [1] False) cm = Some (Inr (), cm')
     \<and> cn_written (cm_conn cm') = [([1], False)] \<and> \<not> active 0 (cm_conn cm')"
proof (rule sent_obtain)
  fix cm m md ro r
  assume w: "proxy_reachable byte_env byte_proxy (FOther ()) (byte_net (AnswerReady ''a'')) cm"
    "active 0 (cm_conn cm)" "cn_state (cm_conn cm) = Open" "cn_written (cm_conn cm) = []"
    "get_message 0 (cm_conn cm) = Some m" "am_filters m = [FRouter ro]"
    "\<not> am_local_response_sent m" "am_metadata m = Some md" "md_request_id md = 1"
    "getString RealServerAddress md = Inr ''a''" "ro_active_span ro = None"
    "ro_upstream_request ro = Some r" "ur_upstream_host r = Some ''h''" "ur_conn_data r = Some 0"
    "\<not> ur_response_started r"
  let ?md = "(fresh_metadata Response)\<lparr>md_request_id := 1, md_origin_message := [1]\<rparr> :: unit metadata"
  let ?md1 = "putString RealServerAddress ''a'' ?md"
  have "co_decode (cf_codec byte_proxy) (co_new (cf_codec byte_proxy)) [1] (fresh_metadata Response) = Inr (Done, (), [], ?md)"
    "md_message_type ?md \<noteq> Heartbeat"
    "co_encode (cf_codec byte_proxy) ?md1 [] (md_origin_message ?md) = Inr ([1], ?md1)"
    "md_request_id ?md1 = md_request_id md"
    using w(9) by (simp_all add: byte_proxy_simps byte_codec_def)
  from response_forwarded [OF w(1) byte_proxy_simps(1,2) w(2,5-8,3,12,11,13-15) this(1,2) w(10) this(3,4), of False]
  show ?thesis using w(1,4) by auto
qed

theorem bad_response_two_replies_witness:
  "\<exists>cm cm'. proxy_reachable byte_env byte_proxy (FOther ()) (byte_net (AnswerReady ''a'')) cm
     \<and> proxy_handle byte_env byte_proxy (UpstreamRead 0 [0] False) cm = Some (Inr (), cm')
     \<and> cn_written (cm_conn cm') = [([255], False), ([255], False)]"
proof (rule sent_obtain)
  fix cm m md ro r
  assume w: "proxy_reachable byte_env byte_proxy (FOther ()) (byte_net (AnswerReady ''a'')) cm"
    "active 0 (cm_conn cm)" "cn_state (cm_conn cm) = Open" "cn_written (cm_conn cm) = []"
    "get_message 0 (cm_conn cm) = Some m" "am_filters m = [FRouter ro]" "am_metadata m = Some md"
    "md_message_type md = Request" "ro_active_span ro = None"
    "ro_upstream_request ro = Some r" "ur_upstream_host r = Some ''h''" "ur_conn_data r = Some 0"
    "\<not> ur_response_started r" "\<not> ur_response_complete r"
  have "co_decode (cf_codec byte_proxy) (co_new (cf_codec byte_proxy)) [0] (fresh_metadata Response) = Inl (EnvoyException ''zero'')"
    "co_onError (cf_codec byte_proxy) md err [] = Inr [255]" for err
    by (simp_all add: byte_proxy_simps byte_codec_def)
  from bad_response_two_replies [OF w(1) byte_proxy_simps(2) w(2,5-8,3,10,9,11-14) this(1,2,2), of False]
  show ?thesis using w(1,4) by auto
qed

definition no_cluster :: "(unit, unit) net" where
  "no_cluster = new_net (\<lambda>_. None)"

definition no_host :: "(unit, unit) net" where
  "no_host = new_net (\<lambda>_. Some \<lparr>cl_maintenanceMode = False, cl_tcpConnPool = (\<lambda>_. Inr None)\<rparr>)"

definition fresh_conn ::
  "(unit, unit, (unit, unit) pfilter) config \<Rightarrow> (unit, unit) net \<Rightarrow> (unit, unit, (unit, unit) pfilter) conn" where
  "fresh_conn cfg nt = snd (newMessageHandler cfg (new_conn (FOther ()) nt))"

lemma fresh_conn_view:
  "get_message 0 (fresh_conn cfg nt) = Some (createFilterChain cfg new_message)" "active 0 (fresh_conn cfg nt)"
  "distinct_messages (fresh_conn cfg nt)" "cn_state (fresh_conn cfg nt) = Open" "cn_written (fresh_conn cfg nt) = []"
  "cn_net (fresh_conn cfg nt) = nt"
  by (simp_all add: fresh_conn_def newMessageHandler_def new_conn_def get_message_def active_def distinct_messages_def Let_def)

text \<open>A request without a route, one for an unknown cluster and one for a cluster without hosts.\<close>

definition refused_run ::
  "(unit, unit, unit) router_env \<Rightarrow> (unit, unit) net \<Rightarrow> bool" where
  "refused_run rv nt \<longleftrightarrow>
     (let cfg = byte_proxy\<lparr>cf_filters := proxy_filters rv pausing_filter\<rparr>; cn = fresh_conn cfg nt in
      \<exists>cn' detail. am_onMessageDecoded cfg 0 (fresh_metadata Request) [] cn = (Inr (), cn')
        \<and> cn_written cn' = [([255], False)] \<and> \<not> active 0 cn' \<and> deferred 0 cn' \<and> nt_written (cn_net cn') = []
        \<and> nt_log (cn_net cn') = [(1, detail)])"

lemma byte_prepared:
  "\<exists>s1. prepared byte_env 0 (Some rt) \<lparr>rs_router = new_router, rs_net = nt,
     rs_metadata = putString ApplicationProtocol ''byte'' (fresh_metadata Request), rs_mutation = [], rs_calls = []\<rparr> = (Inr (), s1)"
proof -
  have "getString RequestUUID (putString ApplicationProtocol ''byte'' (fresh_metadata Request :: unit metadata)) = Inr []"
    by code_simp
  then show ?thesis
    by (simp add: prepared_def prepare_request_def byte_env_def setXRequestID_def rid_set_def rid_get_def upd_router_def Let_def)
qed

theorem refused_request_answered_witness:
  "refused_run (byte_env\<lparr>rv_routes := (\<lambda>_. None)\<rparr>) (byte_net AnswerLater) \<and>
   refused_run byte_env no_cluster \<and> refused_run byte_env no_host"
proof -
  let ?md = "fresh_metadata Request :: unit metadata"
  have run: "refused_run rv nt"
    if "nt_written nt = []" "nt_log nt = []" "refusal_reason rv nt (config_route (rv_matchHeaders rv) (rv_pickCluster rv) (rv_routes rv 0)
        (putString ApplicationProtocol ''byte'' ?md) (rv_stream_id rv 0)) t"
      "prepared rv 0 (config_route (rv_matchHeaders rv) (rv_pickCluster rv) (rv_routes rv 0)
        (putString ApplicationProtocol ''byte'' ?md) (rv_stream_id rv 0)) \<lparr>rs_router = new_router, rs_net = nt,
          rs_metadata = putString ApplicationProtocol ''byte'' ?md, rs_mutation = [], rs_calls = []\<rparr> = (Inr (), s1)"
    for rv nt t s1
    using refused_request_answered [of "byte_proxy\<lparr>cf_filters := proxy_filters rv pausing_filter\<rparr>" rv pausing_filter 0
        "fresh_conn (byte_proxy\<lparr>cf_filters := proxy_filters rv pausing_filter\<rparr>) nt" ?md _ _ t "[]" s1, OF _ _ fresh_conn_view(1-4) _ refl refl] that
    by (auto simp: refused_run_def Let_def byte_proxy_def byte_codec_def fresh_conn_view)
  have r: "config_route (rv_matchHeaders byte_env) (rv_pickCluster byte_env) (rv_routes byte_env 0)
        (putString ApplicationProtocol ''byte'' ?md) (rv_stream_id byte_env 0) = Some \<lparr>rt_entry = byte_route, rt_clusterName = ''up''\<rparr>"
    by (simp add: config_route_def byte_env_def byte_route_def headersMatch_def route_matches_def clusterEntry_def)
  obtain s1 s2 where "prepared byte_env 0 (Some \<lparr>rt_entry = byte_route, rt_clusterName = ''up''\<rparr>) \<lparr>rs_router = new_router,
      rs_net = no_cluster, rs_metadata = putString ApplicationProtocol ''byte'' ?md, rs_mutation = [], rs_calls = []\<rparr> = (Inr (), s1)"
    "prepared byte_env 0 (Some \<lparr>rt_entry = byte_route, rt_clusterName = ''up''\<rparr>) \<lparr>rs_router = new_router,
      rs_net = no_host, rs_metadata = putString ApplicationProtocol ''byte'' ?md, rs_mutation = [], rs_calls = []\<rparr> = (Inr (), s2)"
    using byte_prepared by blast
  then have "refused_run byte_env no_cluster" "refused_run byte_env no_host"
    using run [of no_cluster byte_env ClusterNotFound s1] run [of no_host byte_env NoHealthyUpstream s2] r
    by (simp_all add: refusal_reason_def no_cluster_def no_host_def new_net_def)
  moreover have "refused_run (byte_env\<lparr>rv_routes := (\<lambda>_. None)\<rparr>) (byte_net AnswerLater)"
    by (rule run [where t = RouteNotFound, OF _ _ _ surjective_pairing [THEN trans]])
      (simp_all add: config_route_def refusal_reason_def prepared_def byte_net_def new_net_def Let_def)
  ultimately show ?thesis by blast
qed

section \<open>Accounting and silence\<close>

text \<open>
  C1: in every state a proxy can reach, whatever the filters do and whatever the client, the pools
  and the upstream hosts send, the gauge of active requests is the number of messages that exist
  and were not yet destroyed, and no message is in the lists twice.
\<close>

theorem request_active_counts_messages:
  assumes "proxy_reachable rv cfg g nt cm"
  shows "cn_stats (cm_conn cm) request_active =
       int (length (cn_messages (cm_conn cm)) + length (cn_deferred (cm_conn cm)))
     \<and> distinct (map fst (cn_messages (cm_conn cm) @ cn_deferred (cm_conn cm)))"
  using proxy_gauge.inv_proxy_reachable [OF assms] by (simp add: gauge_ok_def new_conn_def)

theorem request_active_counts_messages_witness:
  "\<exists>cm. proxy_reachable byte_env byte_proxy (FOther ()) (byte_net AnswerLater) cm
     \<and> cn_messages (cm_conn cm) \<noteq> [] \<and> cn_stats (cm_conn cm) request_active > 0"
proof (rule waiting_obtain)
  fix cm
  assume w: "proxy_reachable byte_env byte_proxy (FOther ()) (byte_net AnswerLater) cm" "active 0 (cm_conn cm)"
  have "cn_messages (cm_conn cm) \<noteq> []" using w(2) by (auto simp: active_def)
  then show ?thesis using request_active_counts_messages [OF w(1)] w(1)
    by (intro exI [of _ cm]) (cases "cn_messages (cm_conn cm)", simp_all)
qed

text \<open>
  C6: once the downstream connection is closing or closed, nothing is written to it again and it
  does not open again, whatever happens; the data of a stream and the responses of a shared
  upstream handler are written without looking at the state of the connection and are excepted.
\<close>

theorem closed_connection_is_silent:
  assumes "proxy_handle rv cfg ev cm = Some (r, cm')" "cn_state (cm_conn cm) \<noteq> Open"
    and "\<not> is_handler_read ev" "\<not> is_core_stream_data ev"
  shows "cn_written (cm_conn cm') = cn_written (cm_conn cm) \<and> cn_state (cm_conn cm') \<noteq> Open"
  using proxy_closed.inv_proxy_handle [OF assms(1) _ assms(3,4), of "cn_written (cm_conn cm)"] assms(2) by simp

theorem closed_connection_is_silent_witness:
  "\<exists>cm r cm'. active 0 (cm_conn cm) \<and> cn_state (cm_conn cm) = Closed
     \<and> proxy_handle byte_env byte_proxy (PoolFailure 0 Timeout ''h'') cm = Some (r, cm')
     \<and> cn_written (cm_conn cm') = cn_written (cm_conn cm)"
proof (rule waiting_obtain)
  fix cm :: "(unit, unit, (unit, unit) pfilter) cm"
  assume w: "active 0 (cm_conn cm)"
  let ?cm = "cm\<lparr>cm_conn := conn_close NoFlush (cm_conn cm)\<rparr>"
  have c: "cn_state (cm_conn ?cm) = Closed" "active 0 (cm_conn ?cm)"
    using w by (simp_all add: conn_close_def active_def)
  obtain r cm' where h: "proxy_handle byte_env byte_proxy (PoolFailure 0 Timeout ''h'') ?cm = Some (r, cm')"
    by (cases "proxy_conn_event byte_env byte_proxy (PoolFailure 0 Timeout ''h'') (cm_conn ?cm)";
        cases "fst (proxy_conn_event byte_env byte_proxy (PoolFailure 0 Timeout ''h'') (cm_conn ?cm))")
      (auto simp: proxy_handle_def on_conn_def simp del: proxy_conn_event.simps)
  from closed_connection_is_silent [OF h] c have "cn_written (cm_conn cm') = cn_written (cm_conn ?cm)" by simp
  with h c show ?thesis by blast
qed

end
