(* ===== verification/Rds.thy ===== *)
theory Rds
  imports Route
begin

text \<open>
  Dynamic route configuration: \<^verbatim>\<open>route/rds_impl.cc\<close> and
  \<^verbatim>\<open>route/route_config_update_receiver_impl.cc\<close>.

  The configuration arrives as an HTTP route configuration of Envoy and is translated.  The thread
  local copies of the route table are updated together and are one table here;
  \<^verbatim>\<open>MessageUtil::hash\<close> is the parameter \<^verbatim>\<open>hash\<close> and the clock the parameter
  \<^verbatim>\<open>now\<close>.
\<close>

section \<open>The HTTP route configuration\<close>

datatype http_cluster_specifier =
    HttpCluster string
  | HttpWeightedClusters "(string \<times> u32 option) list"
  | HttpOtherCluster

record http_mirror_policy =
  hmp_cluster :: string
  hmp_runtime_fraction :: "runtime_fraction option"

record 'm http_route =
  hr_name :: string
  hr_match :: "'m list option"
  hr_cluster_specifier :: http_cluster_specifier
  hr_hash_policy :: "string list"
  hr_request_mirror_policies :: "http_mirror_policy list"
  hr_request_headers_to_add :: "(string \<times> string) list"
  hr_response_headers_to_add :: "(string \<times> string) list"

record 'm http_route_configuration =
  hc_name :: string
  hc_virtual_hosts :: "'m http_route list list"

definition meta_match :: "'m list option \<Rightarrow> 'm list option" where
  "meta_match m = (case m of
     None \<Rightarrow> None
   | Some headers \<Rightarrow> if length headers > 0 then Some headers else None)"

definition meta_cluster :: "http_cluster_specifier \<Rightarrow> cluster_specifier" where
  "meta_cluster c = (case c of
     HttpCluster name \<Rightarrow> Cluster name
   | HttpWeightedClusters cs \<Rightarrow> WeightedClusters cs
   | HttpOtherCluster \<Rightarrow> NoCluster)"

text \<open>Reading a field of a message that is not set gives the field's default.\<close>

definition meta_mirror :: "http_mirror_policy \<Rightarrow> mirror_policy_proto" where
  "meta_mirror p =
     (let d = (case hmp_runtime_fraction p of Some rf \<Rightarrow> rf_default_value rf | None \<Rightarrow> default_percent)
      in \<lparr>mp_cluster = hmp_cluster p,
          mp_runtime_fraction = Some \<lparr>rf_default_value = \<lparr>fp_numerator = fp_numerator d,
              fp_denominator = fp_denominator d\<rparr>, rf_runtime_key = []\<rparr>\<rparr>)"

definition meta_route :: "'m http_route \<Rightarrow> 'm route_proto" where
  "meta_route r =
     \<lparr>rp_name = hr_name r, rp_match = meta_match (hr_match r),
      rp_route = \<lparr>ra_cluster_specifier = meta_cluster (hr_cluster_specifier r),
                  ra_hash_policy = hr_hash_policy r,
                  ra_request_mirror_policies = map meta_mirror (hr_request_mirror_policies r)\<rparr>,
      rp_request_mutation = hr_request_headers_to_add r,
      rp_response_mutation = hr_response_headers_to_add r\<rparr>"

definition httpRouteConfig2MetaProtocolRouteConfig ::
  "'m http_route_configuration \<Rightarrow> 'm route_configuration res" where
  "httpRouteConfig2MetaProtocolRouteConfig hc =
     (case hc_virtual_hosts hc of
        [] \<Rightarrow> Inl (Undefined ''virtual_hosts(0)'')
      | routes # _ \<Rightarrow> Inr \<lparr>rc_name = hc_name hc, rc_routes = map meta_route routes\<rparr>)"

section \<open>The update receiver\<close>

record 'm update_receiver =
  ru_route_config_proto :: "'m route_configuration"
  ru_last_config_hash :: u64
  ru_last_config_version :: string
  ru_last_updated :: nat
  ru_config_info :: "('m route_configuration \<times> string) option"
  ru_config :: "'m route_table option"

definition new_update_receiver :: "'m update_receiver" where
  "new_update_receiver = \<lparr>ru_route_config_proto = \<lparr>rc_name = [], rc_routes = []\<rparr>,
     ru_last_config_hash = 0, ru_last_config_version = [], ru_last_updated = 0,
     ru_config_info = None, ru_config = None\<rparr>"

definition onUpdateCommon :: "nat \<Rightarrow> string \<Rightarrow> 'm update_receiver \<Rightarrow> 'm update_receiver" where
  "onUpdateCommon now version_info ru =
     ru\<lparr>ru_last_config_version := version_info, ru_last_updated := now,
        ru_config_info := Some (ru_route_config_proto ru, version_info)\<rparr>"

definition onRdsUpdate ::
  "('m route_configuration \<Rightarrow> u64) \<Rightarrow> nat \<Rightarrow> 'm route_configuration \<Rightarrow> string \<Rightarrow> 'm update_receiver
   \<Rightarrow> bool res \<times> 'm update_receiver" where
  "onRdsUpdate hash now rc version_info ru =
     (if hash rc = ru_last_config_hash ru then (Inr False, ru)
      else
        let ru1 = ru\<lparr>ru_route_config_proto := rc, ru_last_config_hash := hash rc\<rparr>
        in case new_route_table rc of
             Inl e \<Rightarrow> (Inl e, ru1)
           | Inr tab \<Rightarrow> (Inr True, onUpdateCommon now version_info (ru1\<lparr>ru_config := Some tab\<rparr>)))"

section \<open>The subscription and its provider\<close>

datatype status = OkStatus | InvalidArgument string | Internal string

text \<open>\<^verbatim>\<open>rs_provider\<close> is the route table of the provider; None while there is no
  provider.\<close>

record 'm rds_subscription =
  rs_route_config_name :: string
  rs_config_reload :: nat
  rs_config_reload_time_ms :: nat
  rs_update_empty :: nat
  rs_initialized :: bool
  rs_update :: "'m update_receiver"
  rs_provider :: "'m route_table option"

definition new_rds_subscription :: "string \<Rightarrow> 'm rds_subscription" where
  "new_rds_subscription name = \<lparr>rs_route_config_name = name, rs_config_reload = 0,
     rs_config_reload_time_ms = 0, rs_update_empty = 0, rs_initialized = False,
     rs_update = new_update_receiver, rs_provider = None\<rparr>"

definition RdsRouteConfigProviderImpl :: "'m rds_subscription \<Rightarrow> 'm rds_subscription res" where
  "RdsRouteConfigProviderImpl rs =
     (case ru_config_info (rs_update rs) of
        None \<Rightarrow> Inr (rs\<lparr>rs_provider := Some None\<rparr>)
      | Some _ \<Rightarrow> bindr (new_route_table (ru_route_config_proto (rs_update rs)))
                    (\<lambda>tab. Inr (rs\<lparr>rs_provider := Some tab\<rparr>)))"

definition provider_onConfigUpdate :: "'m rds_subscription \<Rightarrow> 'm rds_subscription" where
  "provider_onConfigUpdate rs =
     (case ru_config (rs_update rs) of
        Some tab \<Rightarrow> rs\<lparr>rs_provider := Some tab\<rparr>
      | None \<Rightarrow> rs)"

definition validateConfig :: "'m route_configuration \<Rightarrow> unit res" where
  "validateConfig rc = bindr (new_route_table rc) (\<lambda>_. Inr ())"

definition validateUpdateSize :: "nat \<Rightarrow> 'm rds_subscription \<Rightarrow> bool res \<times> 'm rds_subscription" where
  "validateUpdateSize n rs =
     (if n = 0 then
        (Inr False, rs\<lparr>rs_update_empty := rs_update_empty rs + 1, rs_initialized := True\<rparr>)
      else if n \<noteq> 1 then
        (Inl (EnvoyException (''Unexpected RDS resource length: '' @ show_nat n)), rs)
      else (Inr True, rs))"

text \<open>The body of the \<^verbatim>\<open>try\<close>.\<close>

definition onConfigUpdate_try ::
  "('m route_configuration \<Rightarrow> u64) \<Rightarrow> nat \<Rightarrow> 'm http_route_configuration \<Rightarrow> string
   \<Rightarrow> 'm rds_subscription \<Rightarrow> status res \<times> 'm rds_subscription" where
  "onConfigUpdate_try hash now hc version_info rs =
     (case httpRouteConfig2MetaProtocolRouteConfig hc of
        Inl e \<Rightarrow> (Inl e, rs)
      | Inr rc \<Rightarrow>
          if rc_name rc \<noteq> rs_route_config_name rs then
            (Inr (Internal (''Unexpected RDS configuration (expecting '' @ rs_route_config_name rs
                @ ''): '' @ rc_name rc)), rs)
          else
            case (if rs_provider rs \<noteq> None then validateConfig rc else Inr ()) of
              Inl e \<Rightarrow> (Inl e, rs)
            | Inr _ \<Rightarrow>
                (case onRdsUpdate hash now rc version_info (rs_update rs) of
                   (Inl e, ru) \<Rightarrow> (Inl e, rs\<lparr>rs_update := ru\<rparr>)
                 | (Inr updated, ru) \<Rightarrow>
                     let rs1 = rs\<lparr>rs_update := ru\<rparr>;
                         rs2 = (if updated then
                                  let rs' = rs1\<lparr>rs_config_reload := rs_config_reload rs1 + 1,
                                                rs_config_reload_time_ms := now\<rparr>
                                  in if rs_provider rs' \<noteq> None then provider_onConfigUpdate rs' else rs'
                                else rs1)
                     in (Inr OkStatus, rs2\<lparr>rs_initialized := True\<rparr>)))"

definition onConfigUpdate ::
  "('m route_configuration \<Rightarrow> u64) \<Rightarrow> nat \<Rightarrow> 'm http_route_configuration list \<Rightarrow> string
   \<Rightarrow> 'm rds_subscription \<Rightarrow> status res \<times> 'm rds_subscription" where
  "onConfigUpdate hash now resources version_info rs =
     bindS (validateUpdateSize (length resources) rs) (\<lambda>ok rs1.
       if \<not> ok then (Inr (InvalidArgument ''Invalid update size''), rs1)
       else
         (case onConfigUpdate_try hash now (hd resources) version_info rs1 of
            (Inl e, rs2) \<Rightarrow> (case envoy_what e of
                               Some what \<Rightarrow> (Inr (Internal what), rs2)
                             | None \<Rightarrow> (Inl e, rs2))
          | r \<Rightarrow> r))"

text \<open>The delta variant; a resource comes with its version.\<close>

definition onConfigUpdate_delta ::
  "('m route_configuration \<Rightarrow> u64) \<Rightarrow> nat \<Rightarrow> ('m http_route_configuration \<times> string) list \<Rightarrow> string list
   \<Rightarrow> 'm rds_subscription \<Rightarrow> status res \<times> 'm rds_subscription" where
  "onConfigUpdate_delta hash now added_resources removed_resources rs =
     (if removed_resources \<noteq> [] then (Inr OkStatus, rs)
      else case added_resources of
        [] \<Rightarrow> (Inr OkStatus, rs)
      | (_, version) # _ \<Rightarrow> onConfigUpdate hash now (map fst added_resources) version rs)"

definition onConfigUpdateFailed :: "'m rds_subscription \<Rightarrow> 'm rds_subscription" where
  "onConfigUpdateFailed rs = rs\<lparr>rs_initialized := True\<rparr>"

section \<open>The provider manager\<close>

text \<open>
  The manager finds the subscription of a configuration source by the hash of its message
  (\<^verbatim>\<open>manager_identifier\<close>); the entry of a subscription is erased by its destructor, so that
  an entry that is found is alive.
\<close>

record 'm provider_manager =
  pm_dynamic :: "(u64, 'm rds_subscription) std_map"
  pm_static :: "('m route_configuration \<times> nat) list"

definition createRdsRouteConfigProvider ::
  "u64 \<Rightarrow> string \<Rightarrow> 'm provider_manager \<Rightarrow> 'm provider_manager res" where
  "createRdsRouteConfigProvider manager_identifier name pm =
     (case map_find (pm_dynamic pm) manager_identifier of
        Some _ \<Rightarrow> Inr pm
      | None \<Rightarrow> bindr (RdsRouteConfigProviderImpl (new_rds_subscription name))
                  (\<lambda>rs. Inr (pm\<lparr>pm_dynamic := map_assign manager_identifier rs (pm_dynamic pm)\<rparr>)))"

definition erase_subscription :: "u64 \<Rightarrow> 'm provider_manager \<Rightarrow> 'm provider_manager" where
  "erase_subscription manager_identifier pm =
     pm\<lparr>pm_dynamic := map_erase manager_identifier (pm_dynamic pm)\<rparr>"

definition createStaticRouteConfigProvider ::
  "nat \<Rightarrow> 'm route_configuration \<Rightarrow> 'm provider_manager \<Rightarrow> ('m route_table \<times> 'm provider_manager) res" where
  "createStaticRouteConfigProvider now rc pm =
     bindr (new_route_table rc) (\<lambda>tab. Inr (tab, pm\<lparr>pm_static := (rc, now) # pm_static pm\<rparr>))"

fun dump_dynamic ::
  "(string \<Rightarrow> bool) \<Rightarrow> (u64, 'm rds_subscription) std_map
   \<Rightarrow> (string \<times> 'm route_configuration \<times> nat) list" where
  "dump_dynamic name_matcher [] = []"
| "dump_dynamic name_matcher ((_, rs) # es) =
     (if ru_config_info (rs_update rs) \<noteq> None
         \<and> name_matcher (rc_name (ru_route_config_proto (rs_update rs)))
      then (ru_last_config_version (rs_update rs), ru_route_config_proto (rs_update rs),
            ru_last_updated (rs_update rs)) # dump_dynamic name_matcher es
      else dump_dynamic name_matcher es)"

definition dumpRouteConfigs ::
  "(string \<Rightarrow> bool) \<Rightarrow> 'm provider_manager
   \<Rightarrow> (string \<times> 'm route_configuration \<times> nat) list \<times> ('m route_configuration \<times> nat) list" where
  "dumpRouteConfigs name_matcher pm =
     (dump_dynamic name_matcher (pm_dynamic pm),
      filter (\<lambda>p. name_matcher (rc_name (fst p))) (pm_static pm))"

section \<open>What is in use is what was accepted\<close>

text \<open>
  The invariant of a subscription with a provider: before the first accepted update the table is
  empty; afterwards it is the table of the configuration last accepted, which has the name of the
  subscription and the recorded hash and version.
\<close>

definition rds_ok :: "('m route_configuration \<Rightarrow> u64) \<Rightarrow> 'm rds_subscription \<Rightarrow> bool" where
  "rds_ok hash rs \<longleftrightarrow>
     (case ru_config_info (rs_update rs) of
        None \<Rightarrow> rs_provider rs = Some None \<and> ru_last_config_hash (rs_update rs) = 0
                  \<and> rs_config_reload rs = 0
      | Some (rc, version) \<Rightarrow>
          ru_route_config_proto (rs_update rs) = rc \<and> ru_last_config_version (rs_update rs) = version
          \<and> rc_name rc = rs_route_config_name rs \<and> ru_last_config_hash (rs_update rs) = hash rc
          \<and> (\<exists>tab. new_route_table rc = Inr tab \<and> rs_provider rs = Some tab))"

lemma rds_ok_provider: "rds_ok hash rs \<Longrightarrow> \<exists>tab. rs_provider rs = Some tab"
  by (auto simp: rds_ok_def split: option.splits)

lemma rds_ok_new: "RdsRouteConfigProviderImpl (new_rds_subscription name) = Inr rs \<Longrightarrow> rds_ok hash rs"
  by (auto simp: RdsRouteConfigProviderImpl_def new_rds_subscription_def new_update_receiver_def rds_ok_def)

lemma onConfigUpdate_one:
  "onConfigUpdate hash now [hc] v rs =
     (case onConfigUpdate_try hash now hc v rs of
        (Inl e, rs2) \<Rightarrow> (case envoy_what e of Some what \<Rightarrow> (Inr (Internal what), rs2) | None \<Rightarrow> (Inl e, rs2))
      | r \<Rightarrow> r)"
  by (simp add: onConfigUpdate_def validateUpdateSize_def)

text \<open>What the specification takes from an update: exactly one resource, which can be translated, has
  the subscribed name and makes a route table.\<close>

definition acceptable ::
  "string \<Rightarrow> 'm http_route_configuration list \<Rightarrow> ('m route_configuration \<times> 'm route_table) option" where
  "acceptable name resources =
     (case resources of
        [hc] \<Rightarrow>
          (case httpRouteConfig2MetaProtocolRouteConfig hc of
             Inr rc \<Rightarrow> if rc_name rc \<noteq> name then None
                       else (case new_route_table rc of Inr tab \<Rightarrow> Some (rc, tab) | Inl e \<Rightarrow> None)
           | Inl e \<Rightarrow> None)
      | _ \<Rightarrow> None)"

lemma acceptable_one:
  assumes "rs_provider rs \<noteq> None" "acceptable (rs_route_config_name rs) [hc] = None"
    and "onConfigUpdate_try hash now hc v rs = (r, rs')"
  shows "r \<noteq> Inr OkStatus \<and> rs' = rs"
  using assms
  by (auto simp: acceptable_def onConfigUpdate_try_def validateConfig_def split: sum.splits if_splits)

lemma acceptable_reloads:
  assumes "rs_provider rs \<noteq> None" "acceptable (rs_route_config_name rs) [hc] = Some (rc, tab)"
    and "onConfigUpdate_try hash now hc v rs = (r, rs')"
  shows "r = Inr OkStatus \<and> rs_route_config_name rs' = rs_route_config_name rs \<and>
    (if hash rc = ru_last_config_hash (rs_update rs) then rs' = rs\<lparr>rs_initialized := True\<rparr>
     else rs_provider rs' = Some tab \<and> rs_update rs' = \<lparr>ru_route_config_proto = rc, ru_last_config_hash = hash rc,
       ru_last_config_version = v, ru_last_updated = now, ru_config_info = Some (rc, v), ru_config = Some tab\<rparr>)"
  using assms
  by (auto simp: acceptable_def onConfigUpdate_try_def validateConfig_def onRdsUpdate_def onUpdateCommon_def
      provider_onConfigUpdate_def Let_def split: sum.splits if_splits)

text \<open>
  C9: whatever a route discovery server sends, the routes in use are those of the configuration
  that was last accepted.  An update that is not one well-formed configuration of the subscribed name is
  answered with an error and changes neither the table nor the record of the configuration.  An update that is
  acknowledged: when its hash is the recorded one nothing changes, and otherwise the table
  of its configuration is in use from then on.  So when the hash tells configurations apart, the table in use
  after every acceptable update is the table of that very configuration.
\<close>

theorem rds_serves_last_accepted:
  assumes "rds_ok hash rs" "onConfigUpdate hash now resources v rs = (r, rs')"
  shows "rds_ok hash rs' \<and>
    (case acceptable (rs_route_config_name rs) resources of
       None \<Rightarrow> r \<noteq> Inr OkStatus \<and> rs_provider rs' = rs_provider rs \<and> rs_update rs' = rs_update rs
     | Some (rc, tab) \<Rightarrow> r = Inr OkStatus \<and>
         (if hash rc = ru_last_config_hash (rs_update rs)
          then rs_provider rs' = rs_provider rs \<and> rs_update rs' = rs_update rs
          else rs_provider rs' = Some tab \<and> ru_config_info (rs_update rs') = Some (rc, v)) \<and>
         (hash rc \<noteq> 0 \<and> (\<forall>rc'. hash rc' = hash rc \<longrightarrow> rc' = rc) \<longrightarrow> rs_provider rs' = Some tab))"
proof -
  consider (none) "resources = []" | (one) hc where "resources = [hc]" | (many) "length resources > 1"
    by (cases resources; cases "tl resources") auto
  then show ?thesis
  proof cases
    case none
    with assms show ?thesis
      by (auto simp: onConfigUpdate_def validateUpdateSize_def rds_ok_def acceptable_def split: option.splits)
  next
    case many
    then have "resources \<noteq> []" "length resources \<noteq> 1" "acceptable (rs_route_config_name rs) resources = None"
      by (auto simp: acceptable_def split: list.splits)
    with assms show ?thesis by (auto simp: onConfigUpdate_def validateUpdateSize_def)
  next
    case (one hc)
    obtain r1 rs1 where t: "onConfigUpdate_try hash now hc v rs = (r1, rs1)" by fastforce
    have rs': "rs' = rs1" "r = Inr OkStatus \<longleftrightarrow> r1 = Inr OkStatus"
      using assms(2) one t by (auto simp: onConfigUpdate_one split: sum.splits option.splits)
    have p: "rs_provider rs \<noteq> None" using rds_ok_provider [OF assms(1)] by auto
    show ?thesis
    proof (cases "acceptable (rs_route_config_name rs) [hc]")
      case None
      with acceptable_one [OF p None t] assms(1) one rs' show ?thesis by simp
    next
      case (Some rt)
      then obtain rc tab where rt: "acceptable (rs_route_config_name rs) [hc] = Some (rc, tab)" by (cases rt) auto
      then have tab: "rc_name rc = rs_route_config_name rs" "new_route_table rc = Inr tab"
        by (auto simp: acceptable_def split: sum.splits if_splits)
      show ?thesis
      proof (cases "hash rc = ru_last_config_hash (rs_update rs)")
        case True
        with acceptable_reloads [OF p rt t] have "r1 = Inr OkStatus" "rs1 = rs\<lparr>rs_initialized := True\<rparr>" by simp_all
        with assms(1) one rs' rt tab True show ?thesis by (auto simp: rds_ok_def split: option.splits)
      next
        case False
        with acceptable_reloads [OF p rt t] one rs' rt tab show ?thesis by (simp add: rds_ok_def)
      qed
    qed
  qed
qed

definition sample_http :: "string \<Rightarrow> string http_route_configuration" where
  "sample_http name = \<lparr>hc_name = name, hc_virtual_hosts =
     [[\<lparr>hr_name = ''r'', hr_match = Some [''m''], hr_cluster_specifier = HttpCluster ''blue'',
        hr_hash_policy = [], hr_request_mirror_policies = [], hr_request_headers_to_add = [],
        hr_response_headers_to_add = []\<rparr>]]\<rparr>"

text \<open>A subscription that gets its configuration, then one for another name.\<close>

definition sample_hash :: "string route_configuration \<Rightarrow> u64" where
  "sample_hash rc = of_nat (Suc (length (rc_routes rc)))"

definition sample_rds :: "string rds_subscription" where
  "sample_rds = (new_rds_subscription ''a'')\<lparr>rs_provider := Some None\<rparr>"

theorem rds_serves_last_accepted_witness:
  "case onConfigUpdate sample_hash 5 [sample_http ''a''] ''v1'' sample_rds of (r, rs') \<Rightarrow>
     rds_ok sample_hash rs' \<and> r = Inr OkStatus \<and>
     (\<exists>rc tab. acceptable ''a'' [sample_http ''a''] = Some (rc, tab) \<and> rs_provider rs' = Some tab) \<and>
     (case onConfigUpdate sample_hash 6 [sample_http ''b''] ''v2'' rs' of (r2, rs2) \<Rightarrow>
        rds_ok sample_hash rs2 \<and> r2 \<noteq> Inr OkStatus \<and> rs_provider rs2 = rs_provider rs')"
proof -
  have ok: "rds_ok sample_hash sample_rds"
    by (simp add: rds_ok_def sample_rds_def new_rds_subscription_def new_update_receiver_def)
  obtain r rs' where u: "onConfigUpdate sample_hash 5 [sample_http ''a''] ''v1'' sample_rds = (r, rs')" by fastforce
  obtain r2 rs2 where u2: "onConfigUpdate sample_hash 6 [sample_http ''b''] ''v2'' rs' = (r2, rs2)" by fastforce
  have name: "rs_route_config_name sample_rds = ''a''"
    by (simp add: sample_rds_def new_rds_subscription_def)
  have a: "case acceptable ''a'' [sample_http ''a''] of None \<Rightarrow> False
     | Some (rc, tab) \<Rightarrow> sample_hash rc \<noteq> ru_last_config_hash (rs_update sample_rds)"
    by code_simp
  have n: "case onConfigUpdate sample_hash 5 [sample_http ''a''] ''v1'' sample_rds of (r, rs') \<Rightarrow>
      acceptable (rs_route_config_name rs') [sample_http ''b''] = None"
    by code_simp
  note first = rds_serves_last_accepted [OF ok u, unfolded name]
  from rds_serves_last_accepted [OF conjunct1 [OF first] u2] first a n u u2 show ?thesis
    by (auto split: option.splits)
qed

text \<open>
  C34: a mirror policy without a runtime fraction asks to mirror every request, and does when it is
  part of a static configuration.  Sent by the route discovery server it is translated to a policy
  with the fraction 0 of 100 and the runtime key is dropped, so that no request is mirrored.
\<close>

theorem rds_mirror_default_lost:
  assumes "\<And>p n. fp_numerator p = 0 \<Longrightarrow> \<not> featureEnabled [] p n"
    and "\<And>n. featureEnabled [] \<lparr>fp_numerator = 100, fp_denominator = HUNDRED\<rparr> n"
    and "hr_request_mirror_policies r = [\<lparr>hmp_cluster = c, hmp_runtime_fraction = None\<rparr>]"
    and "RouteEntryImpl (meta_route r) = Inr re"
    and "static = (meta_route r)\<lparr>rp_route := (rp_route (meta_route r))
           \<lparr>ra_request_mirror_policies := [\<lparr>mp_cluster = c, mp_runtime_fraction = None\<rparr>]\<rparr>\<rparr>"
    and "RouteEntryImpl static = Inr re'"
  shows "map mirror_cluster_name (re_mirror_policies re) = [c]
     \<and> map (\<lambda>p. shouldShadow featureEnabled p n) (re_mirror_policies re) = [False]
     \<and> map (\<lambda>p. shouldShadow featureEnabled p n) (re_mirror_policies re') = [True]"
  using assms
  by (auto simp: RouteEntryImpl_def meta_route_def meta_mirror_def default_percent_def shouldShadow_def
      buildMirrorPolicies_def RequestMirrorPolicyImpl_def Let_def elim!: bindr_InrE)

theorem rds_mirror_default_lost_witness:
  "let fe = (\<lambda>_ p (_ :: u64). fp_numerator p > 0);
       (r :: string http_route) = \<lparr>hr_name = ''r'', hr_match = None, hr_cluster_specifier = HttpCluster ''blue'',
         hr_hash_policy = [], hr_request_mirror_policies = [\<lparr>hmp_cluster = ''shadow'', hmp_runtime_fraction = None\<rparr>],
         hr_request_headers_to_add = [], hr_response_headers_to_add = []\<rparr>
   in \<exists>re. RouteEntryImpl (meta_route r) = Inr re
        \<and> map (\<lambda>p. shouldShadow fe p 3) (re_mirror_policies re) = [False]"
proof -
  let ?fe = "\<lambda>(_ :: string) p (_ :: u64). fp_numerator p > 0"
  let ?r = "\<lparr>hr_name = ''r'', hr_match = None, hr_cluster_specifier = HttpCluster ''blue'',
         hr_hash_policy = [], hr_request_mirror_policies = [\<lparr>hmp_cluster = ''shadow'', hmp_runtime_fraction = None\<rparr>],
         hr_request_headers_to_add = [], hr_response_headers_to_add = []\<rparr> :: string http_route"
  obtain re re' where "RouteEntryImpl (meta_route ?r) = Inr re"
    "RouteEntryImpl ((meta_route ?r)\<lparr>rp_route := (rp_route (meta_route ?r))
       \<lparr>ra_request_mirror_policies := [\<lparr>mp_cluster = ''shadow'', mp_runtime_fraction = None\<rparr>]\<rparr>\<rparr>) = Inr re'"
    by (simp add: RouteEntryImpl_def meta_route_def meta_cluster_def)
  from rds_mirror_default_lost [of ?fe ?r _ re, OF _ _ _ this(1) refl this(2), of 3] this(1)
  show ?thesis unfolding Let_def by auto
qed

end
