(* ===== verification/Thrift_Interface.thy ===== *)
theory Thrift_Interface
  imports Metadata
begin

text \<open>
  The Thrift vocabulary of \<^verbatim>\<open>application_protocols/thrift\<close>: the enumerations of
  \<^verbatim>\<open>thrift.h\<close>, the message metadata of \<^verbatim>\<open>metadata.h\<close> and the interfaces
  \<^verbatim>\<open>Protocol\<close> and \<^verbatim>\<open>Transport\<close>, whose implementations (binary, compact,
  framed, header, ...) are those of Envoy.  An interface is the record of its operations on the state
  of an implementation.  A read gives None when more data is needed, and then
  nothing was taken from the buffer; a write gives the bytes it appends.  Values of type
  \<^verbatim>\<open>double\<close> are their 64 bits.
\<close>

section \<open>Enumerations\<close>

datatype transport_type = Framed | Header | Unframed | Transport_Auto

definition TransportNames_fromType :: "transport_type \<Rightarrow> string" where
  "TransportNames_fromType t =
     (case t of Framed \<Rightarrow> ''framed'' | Header \<Rightarrow> ''header'' | Unframed \<Rightarrow> ''unframed'' | Transport_Auto \<Rightarrow> ''auto'')"

datatype protocol_type = Binary | LaxBinary | Compact | Twitter | Protocol_Auto

definition ProtocolNames_fromType :: "protocol_type \<Rightarrow> string" where
  "ProtocolNames_fromType t =
     (case t of Binary \<Rightarrow> ''binary'' | LaxBinary \<Rightarrow> ''binary/non-strict'' | Compact \<Rightarrow> ''compact''
      | Twitter \<Rightarrow> ''twitter'' | Protocol_Auto \<Rightarrow> ''auto'')"

datatype thrift_message_type = Call | Reply | Exception | T_Oneway

datatype reply_type = Reply_Success | Reply_Error

text \<open>
  A field type is read from the wire without a check: \<^verbatim>\<open>FT_Other\<close> is a number that is no
  enumerator.
\<close>

datatype field_type =
    FT_Stop | FT_Void | FT_Bool | FT_Byte | FT_Double | FT_I16 | FT_I32 | FT_I64 | FT_String | FT_Struct
  | FT_Map | FT_Set | FT_List | FT_Other int

fun field_type_number :: "field_type \<Rightarrow> int" where
  "field_type_number FT_Stop = 0"
| "field_type_number FT_Void = 1"
| "field_type_number FT_Bool = 2"
| "field_type_number FT_Byte = 3"
| "field_type_number FT_Double = 4"
| "field_type_number FT_I16 = 6"
| "field_type_number FT_I32 = 8"
| "field_type_number FT_I64 = 10"
| "field_type_number FT_String = 11"
| "field_type_number FT_Struct = 12"
| "field_type_number FT_Map = 13"
| "field_type_number FT_Set = 14"
| "field_type_number FT_List = 15"
| "field_type_number (FT_Other n) = n"

datatype app_exception_type =
    Unknown | UnknownMethod | InvalidMessageType | WrongMethodName | BadSequenceId | MissingResult
  | InternalError | ProtocolError | InvalidTransform | InvalidProtocol | UnsupportedClientType
  | LoadShedding | AppTimeout | InjectedFailure | ChecksumMismatch | Interruption

fun app_exception_number :: "app_exception_type \<Rightarrow> nat" where
  "app_exception_number Unknown = 0"
| "app_exception_number UnknownMethod = 1"
| "app_exception_number InvalidMessageType = 2"
| "app_exception_number WrongMethodName = 3"
| "app_exception_number BadSequenceId = 4"
| "app_exception_number MissingResult = 5"
| "app_exception_number InternalError = 6"
| "app_exception_number ProtocolError = 7"
| "app_exception_number InvalidTransform = 8"
| "app_exception_number InvalidProtocol = 9"
| "app_exception_number UnsupportedClientType = 10"
| "app_exception_number LoadShedding = 11"
| "app_exception_number AppTimeout = 12"
| "app_exception_number InjectedFailure = 13"
| "app_exception_number ChecksumMismatch = 14"
| "app_exception_number Interruption = 15"

section \<open>Tracing data\<close>

record thrift_endpoint =
  ep_ipv4 :: u32
  ep_port :: u16
  ep_service_name :: string

record thrift_annotation =
  an_timestamp :: u64
  an_value :: string
  an_host :: "thrift_endpoint option"

datatype annotation_type = AT_Bool | AT_Bytes | AT_I16 | AT_I32 | AT_I64 | AT_Double | AT_String

record binary_annotation =
  ba_key :: string
  ba_value :: string
  ba_annotation_type :: annotation_type
  ba_host :: "thrift_endpoint option"

record thrift_span =
  sp_trace_id :: u64
  sp_name :: string
  sp_span_id :: u64
  sp_parent_span_id :: "u64 option"
  sp_annotations :: "thrift_annotation list"
  sp_binary_annotations :: "binary_annotation list"
  sp_debug :: bool

section \<open>Message metadata\<close>

record msg_metadata =
  mm_frame_size :: "u32 option"
  mm_proto :: "protocol_type option"
  mm_method_name :: "string option"
  mm_header_flags :: "u16 option"
  mm_seq_id :: "u32 option"
  mm_msg_type :: "thrift_message_type option"
  mm_reply_type :: "reply_type option"
  mm_headers :: header_map
  mm_app_ex_type :: "app_exception_type option"
  mm_app_ex_msg :: "string option"
  mm_protocol_upgrade_message :: bool
  mm_is_draining :: bool
  mm_spans :: "thrift_span list"
  mm_trace_id :: "u64 option"
  mm_trace_id_high :: "u64 option"
  mm_span_id :: "u64 option"
  mm_parent_span_id :: "u64 option"
  mm_flags :: "u64 option"
  mm_sampled :: "bool option"

definition new_msg_metadata :: msg_metadata where
  "new_msg_metadata = \<lparr>mm_frame_size = None, mm_proto = None, mm_method_name = None, mm_header_flags = None,
     mm_seq_id = None, mm_msg_type = None, mm_reply_type = None, mm_headers = [], mm_app_ex_type = None,
     mm_app_ex_msg = None, mm_protocol_upgrade_message = False, mm_is_draining = False, mm_spans = [],
     mm_trace_id = None, mm_trace_id_high = None, mm_span_id = None, mm_parent_span_id = None,
     mm_flags = None, mm_sampled = None\<rparr>"

text \<open>\<^verbatim>\<open>value()\<close> of an optional.\<close>

definition opt_value :: "'a option \<Rightarrow> 'a res" where
  "opt_value x = (case x of None \<Rightarrow> Inl (Undefined ''bad_optional_access'') | Some v \<Rightarrow> Inr v)"

text \<open>\<^verbatim>\<open>if (has...()) copy->set...(...)\<close>.\<close>

definition copy_opt :: "'a option \<Rightarrow> ('a \<Rightarrow> msg_metadata \<Rightarrow> msg_metadata) \<Rightarrow> msg_metadata \<Rightarrow> msg_metadata" where
  "copy_opt x setter m = (case x of None \<Rightarrow> m | Some v \<Rightarrow> setter v m)"

definition setAppException :: "app_exception_type \<Rightarrow> string \<Rightarrow> msg_metadata \<Rightarrow> msg_metadata" where
  "setAppException t msg m = m\<lparr>mm_app_ex_type := Some t, mm_app_ex_msg := Some msg\<rparr>"

definition msg_metadata_clone :: "msg_metadata \<Rightarrow> msg_metadata res" where
  "msg_metadata_clone m =
     (let c1 = copy_opt (mm_frame_size m) (\<lambda>v c. c\<lparr>mm_frame_size := Some v\<rparr>) new_msg_metadata;
          c2 = copy_opt (mm_proto m) (\<lambda>v c. c\<lparr>mm_proto := Some v\<rparr>) c1;
          c3 = copy_opt (mm_method_name m) (\<lambda>v c. c\<lparr>mm_method_name := Some v\<rparr>) c2;
          c4 = copy_opt (mm_header_flags m) (\<lambda>v c. c\<lparr>mm_header_flags := Some v\<rparr>) c3;
          c5 = copy_opt (mm_seq_id m) (\<lambda>v c. c\<lparr>mm_seq_id := Some v\<rparr>) c4;
          c6 = copy_opt (mm_msg_type m) (\<lambda>v c. c\<lparr>mm_msg_type := Some v\<rparr>) c5;
          c7 = copy_opt (mm_reply_type m) (\<lambda>v c. c\<lparr>mm_reply_type := Some v\<rparr>) c6;
          c8 = c7\<lparr>mm_headers := mm_headers m, mm_spans := mm_spans m\<rparr>
      in bindr (case mm_app_ex_type m of
                  None \<Rightarrow> Inr c8
                | Some t \<Rightarrow> bindr (opt_value (mm_app_ex_msg m)) (\<lambda>msg. Inr (setAppException t msg c8)))
           (\<lambda>c9.
              let c10 = c9\<lparr>mm_protocol_upgrade_message := mm_protocol_upgrade_message m\<rparr>;
                  c11 = copy_opt (mm_trace_id m) (\<lambda>v c. c\<lparr>mm_trace_id := Some v\<rparr>) c10;
                  c12 = copy_opt (mm_trace_id_high m) (\<lambda>v c. c\<lparr>mm_trace_id_high := Some v\<rparr>) c11;
                  c13 = copy_opt (mm_span_id m) (\<lambda>v c. c\<lparr>mm_span_id := Some v\<rparr>) c12;
                  c14 = copy_opt (mm_parent_span_id m) (\<lambda>v c. c\<lparr>mm_parent_span_id := Some v\<rparr>) c13;
                  c15 = copy_opt (mm_flags m) (\<lambda>v c. c\<lparr>mm_flags := Some v\<rparr>) c14;
                  c16 = copy_opt (mm_sampled m) (\<lambda>v c. c\<lparr>mm_sampled := Some v\<rparr>) c15
              in Inr c16))"

section \<open>Interfaces\<close>

type_synonym ('p, 'a) reader = "'p \<Rightarrow> buffer \<Rightarrow> (('a \<times> buffer) option \<times> 'p) res"
type_synonym 'p writer = "'p \<Rightarrow> (buffer \<times> 'p) res"

record 'p protocol_reads =
  pr_type :: "'p \<Rightarrow> protocol_type"
  pr_setType :: "protocol_type \<Rightarrow> 'p \<Rightarrow> 'p"
  readMessageBegin :: "msg_metadata \<Rightarrow> ('p, msg_metadata) reader"
  readMessageEnd :: "('p, unit) reader"
  readStructBegin :: "('p, string) reader"
  readStructEnd :: "('p, unit) reader"
  readFieldBegin :: "('p, string \<times> field_type \<times> u16) reader"
  readFieldEnd :: "('p, unit) reader"
  readMapBegin :: "('p, field_type \<times> field_type \<times> u32) reader"
  readMapEnd :: "('p, unit) reader"
  readListBegin :: "('p, field_type \<times> u32) reader"
  readListEnd :: "('p, unit) reader"
  readSetBegin :: "('p, field_type \<times> u32) reader"
  readSetEnd :: "('p, unit) reader"
  readBool :: "('p, bool) reader"
  readByte :: "('p, byte) reader"
  readInt16 :: "('p, u16) reader"
  readInt32 :: "('p, u32) reader"
  readInt64 :: "('p, u64) reader"
  readDouble :: "('p, u64) reader"
  readString :: "('p, string) reader"

record 'p thrift_protocol = "'p protocol_reads" +
  writeMessageBegin :: "msg_metadata \<Rightarrow> 'p writer"
  writeMessageEnd :: "'p writer"
  writeStructBegin :: "string \<Rightarrow> 'p writer"
  writeStructEnd :: "'p writer"
  writeFieldBegin :: "string \<Rightarrow> field_type \<Rightarrow> u16 \<Rightarrow> 'p writer"
  writeFieldEnd :: "'p writer"
  writeMapBegin :: "field_type \<Rightarrow> field_type \<Rightarrow> u32 \<Rightarrow> 'p writer"
  writeMapEnd :: "'p writer"
  writeListBegin :: "field_type \<Rightarrow> u32 \<Rightarrow> 'p writer"
  writeListEnd :: "'p writer"
  writeSetBegin :: "field_type \<Rightarrow> u32 \<Rightarrow> 'p writer"
  writeSetEnd :: "'p writer"
  writeBool :: "bool \<Rightarrow> 'p writer"
  writeByte :: "byte \<Rightarrow> 'p writer"
  writeInt16 :: "u16 \<Rightarrow> 'p writer"
  writeInt32 :: "u32 \<Rightarrow> 'p writer"
  writeInt64 :: "u64 \<Rightarrow> 'p writer"
  writeDouble :: "u64 \<Rightarrow> 'p writer"
  writeString :: "string \<Rightarrow> 'p writer"

record 't thrift_transport =
  decodeFrameStart :: "msg_metadata \<Rightarrow> ('t, msg_metadata) reader"
  decodeFrameEnd :: "('t, unit) reader"
  encodeFrame :: "msg_metadata \<Rightarrow> buffer \<Rightarrow> 't writer"

end
