(* ===== verification/Thrift_Machine.thy ===== *)
theory Thrift_Machine
  imports Thrift_Interface
begin

text \<open>
  The state machine of the Thrift codec (\<^verbatim>\<open>DecoderStateMachine\<close> in
  \<^verbatim>\<open>thrift_codec.cc\<close>): it reads a message with a protocol and writes it
  again, with the same protocol, into \<^verbatim>\<open>origin_message_\<close>.  The references
  \<^verbatim>\<open>proto_\<close> and \<^verbatim>\<open>metadata_\<close> are fields of its state.  The back of
  \<^verbatim>\<open>stack_\<close> is the head of the list.
\<close>

section \<open>State\<close>

datatype thrift_state =
    TS_StopIteration | TS_WaitForData | TS_PassthroughData | TS_MessageBegin | TS_MessageEnd | TS_StructBegin
  | TS_StructEnd | TS_FieldBegin | TS_FieldValue | TS_FieldEnd | TS_MapBegin | TS_MapKey | TS_MapValue
  | TS_MapEnd | TS_ListBegin | TS_ListValue | TS_ListEnd | TS_SetBegin | TS_SetValue | TS_SetEnd | TS_Done

record frame =
  fr_return_state :: thrift_state
  fr_elem_type :: field_type
  fr_value_type :: field_type
  fr_remaining :: u32

definition Frame1 :: "thrift_state \<Rightarrow> frame" where
  "Frame1 st = \<lparr>fr_return_state = st, fr_elem_type = FT_Stop, fr_value_type = FT_Stop, fr_remaining = 0\<rparr>"

definition Frame2 :: "thrift_state \<Rightarrow> field_type \<Rightarrow> frame" where
  "Frame2 st ty = \<lparr>fr_return_state = st, fr_elem_type = ty, fr_value_type = FT_Stop, fr_remaining = 0\<rparr>"

definition Frame3 :: "thrift_state \<Rightarrow> field_type \<Rightarrow> u32 \<Rightarrow> frame" where
  "Frame3 st ty n = \<lparr>fr_return_state = st, fr_elem_type = ty, fr_value_type = FT_Stop, fr_remaining = n\<rparr>"

definition Frame4 :: "thrift_state \<Rightarrow> field_type \<Rightarrow> field_type \<Rightarrow> u32 \<Rightarrow> frame" where
  "Frame4 st kt vt n = \<lparr>fr_return_state = st, fr_elem_type = kt, fr_value_type = vt, fr_remaining = n\<rparr>"

record 'p dsm =
  sm_proto :: 'p
  sm_metadata :: msg_metadata
  sm_state :: thrift_state
  sm_stack :: "frame list"
  sm_body_bytes :: u32
  sm_passthrough_enabled :: bool
  sm_origin_message :: buffer

definition new_dsm :: "'p \<Rightarrow> msg_metadata \<Rightarrow> 'p dsm" where
  "new_dsm p md = \<lparr>sm_proto = p, sm_metadata = md, sm_state = TS_MessageBegin, sm_stack = [],
     sm_body_bytes = 0, sm_passthrough_enabled = False, sm_origin_message = []\<rparr>"

section \<open>Reading and writing\<close>

text \<open>
  \<^verbatim>\<open>if (!proto_.read...(buffer, ...)) return WaitForData;\<close>: what follows a read does
  not touch the buffer.
\<close>

definition sm_read ::
  "('p, 'a) reader \<Rightarrow> ('a \<Rightarrow> 'p dsm \<Rightarrow> (thrift_state \<times> 'p dsm) res) \<Rightarrow> 'p dsm \<Rightarrow> buffer
   \<Rightarrow> (thrift_state \<times> 'p dsm \<times> buffer) res" where
  "sm_read rd k sm buf =
     (case rd (sm_proto sm) buf of
        Inl e \<Rightarrow> Inl e
      | Inr (None, p) \<Rightarrow> Inr (TS_WaitForData, sm\<lparr>sm_proto := p\<rparr>, buf)
      | Inr (Some (v, buf'), p) \<Rightarrow>
          bindr (k v (sm\<lparr>sm_proto := p\<rparr>)) (\<lambda>(st, sm'). Inr (st, sm', buf')))"

text \<open>A step that reads nothing.\<close>

definition sm_pure ::
  "('p dsm \<Rightarrow> (thrift_state \<times> 'p dsm) res) \<Rightarrow> 'p dsm \<Rightarrow> buffer \<Rightarrow> (thrift_state \<times> 'p dsm \<times> buffer) res" where
  "sm_pure k sm buf = bindr (k sm) (\<lambda>(st, sm'). Inr (st, sm', buf))"

text \<open>\<^verbatim>\<open>proto_.write...(origin_message_, ...)\<close>.\<close>

definition sm_write :: "'p writer \<Rightarrow> 'p dsm \<Rightarrow> 'p dsm res" where
  "sm_write wr sm = bindr (wr (sm_proto sm)) (\<lambda>(b, p).
     Inr (sm\<lparr>sm_proto := p, sm_origin_message := sm_origin_message sm @ b\<rparr>))"

definition push_frame :: "frame \<Rightarrow> 'p dsm \<Rightarrow> 'p dsm" where
  "push_frame fr sm = sm\<lparr>sm_stack := fr # sm_stack sm\<rparr>"

definition popReturnState :: "'p dsm \<Rightarrow> (thrift_state \<times> 'p dsm) res" where
  "popReturnState sm =
     (case sm_stack sm of
        [] \<Rightarrow> Inl (Undefined ''back of an empty stack'')
      | fr # st \<Rightarrow> Inr (fr_return_state fr, sm\<lparr>sm_stack := st\<rparr>))"

text \<open>\<^verbatim>\<open>stack_[index].remaining_--\<close>, with the index counted from the front of the vector.\<close>

definition dec_remaining :: "nat \<Rightarrow> 'p dsm \<Rightarrow> 'p dsm" where
  "dec_remaining index sm =
     (let i = length (sm_stack sm) - 1 - index; fr = sm_stack sm ! i
      in sm\<lparr>sm_stack := (sm_stack sm)[i := fr\<lparr>fr_remaining := fr_remaining fr - 1\<rparr>]\<rparr>)"

definition back_frame ::
  "(frame \<Rightarrow> 'p dsm \<Rightarrow> buffer \<Rightarrow> (thrift_state \<times> 'p dsm \<times> buffer) res) \<Rightarrow> 'p dsm \<Rightarrow> buffer
   \<Rightarrow> (thrift_state \<times> 'p dsm \<times> buffer) res" where
  "back_frame f sm buf =
     (case sm_stack sm of [] \<Rightarrow> Inl (Undefined ''back of an empty stack'') | fr # _ \<Rightarrow> f fr sm buf)"

section \<open>Handlers of the states\<close>

type_synonym 'p handler = "'p dsm \<Rightarrow> buffer \<Rightarrow> (thrift_state \<times> 'p dsm \<times> buffer) res"

definition passthroughData :: "'p handler" where
  "passthroughData sm buf =
     (let n = unat (sm_body_bytes sm) in
      if n > length buf then Inr (TS_WaitForData, sm, buf)
      else Inr (TS_MessageEnd, sm\<lparr>sm_origin_message := sm_origin_message sm @ take n buf\<rparr>, drop n buf))"

definition messageBegin :: "'p thrift_protocol \<Rightarrow> 'p handler" where
  "messageBegin pr sm buf =
     (case readMessageBegin pr (sm_metadata sm) (sm_proto sm) buf of
        Inl e \<Rightarrow> Inl e
      | Inr (None, p) \<Rightarrow> Inr (TS_WaitForData, sm\<lparr>sm_proto := p\<rparr>, buf)
      | Inr (Some (md, buf'), p) \<Rightarrow>
          let sm1 = sm\<lparr>sm_proto := p, sm_metadata := md, sm_stack := [Frame1 TS_MessageEnd]\<rparr> in
          if sm_passthrough_enabled sm1 then
            bindr (opt_value (mm_frame_size md)) (\<lambda>n.
              Inr (TS_PassthroughData,
                   sm1\<lparr>sm_body_bytes := n - word_of_nat (length buf - length buf')\<rparr>, buf'))
          else
            bindr (sm_write (writeMessageBegin pr md) sm1) (\<lambda>sm2. Inr (TS_StructBegin, sm2, buf')))"

definition messageEnd :: "'p thrift_protocol \<Rightarrow> 'p handler" where
  "messageEnd pr = sm_read (readMessageEnd pr) (\<lambda>_ sm.
     bindr (sm_write (writeMessageEnd pr) sm) (\<lambda>sm. Inr (TS_Done, sm)))"

definition structBegin :: "'p thrift_protocol \<Rightarrow> 'p handler" where
  "structBegin pr = sm_read (readStructBegin pr) (\<lambda>name sm.
     bindr (sm_write (writeStructBegin pr name) sm) (\<lambda>sm. Inr (TS_FieldBegin, sm)))"

definition structEnd :: "'p thrift_protocol \<Rightarrow> 'p handler" where
  "structEnd pr = sm_read (readStructEnd pr) (\<lambda>_ sm.
     bindr (sm_write (writeFieldBegin pr [] FT_Stop 0) sm) (\<lambda>sm.
     bindr (sm_write (writeStructEnd pr) sm) popReturnState))"

definition fieldBegin :: "'p thrift_protocol \<Rightarrow> 'p handler" where
  "fieldBegin pr = sm_read (readFieldBegin pr) (\<lambda>(name, field_type, field_id) sm.
     if field_type = FT_Stop then Inr (TS_StructEnd, sm)
     else bindr (sm_write (writeFieldBegin pr name field_type field_id) (push_frame (Frame2 TS_FieldEnd field_type) sm))
            (\<lambda>sm. Inr (TS_FieldValue, sm)))"

text \<open>
  A value of a basic type is read and written and the machine goes on with
  \<^verbatim>\<open>return_state\<close>; for a struct or a container that state is pushed.
\<close>

definition basic_value ::
  "('p, 'a) reader \<Rightarrow> ('a \<Rightarrow> 'p writer) \<Rightarrow> thrift_state \<Rightarrow> 'p handler" where
  "basic_value rd wr return_state = sm_read rd (\<lambda>v sm. bindr (sm_write (wr v) sm) (\<lambda>sm. Inr (return_state, sm)))"

definition handleValue :: "'p thrift_protocol \<Rightarrow> field_type \<Rightarrow> thrift_state \<Rightarrow> 'p handler" where
  "handleValue pr elem_type return_state =
     (case elem_type of
        FT_Bool \<Rightarrow> basic_value (readBool pr) (writeBool pr) return_state
      | FT_Byte \<Rightarrow> basic_value (readByte pr) (writeByte pr) return_state
      | FT_I16 \<Rightarrow> basic_value (readInt16 pr) (writeInt16 pr) return_state
      | FT_I32 \<Rightarrow> basic_value (readInt32 pr) (writeInt32 pr) return_state
      | FT_I64 \<Rightarrow> basic_value (readInt64 pr) (writeInt64 pr) return_state
      | FT_Double \<Rightarrow> basic_value (readDouble pr) (writeDouble pr) return_state
      | FT_String \<Rightarrow> basic_value (readString pr) (writeString pr) return_state
      | FT_Struct \<Rightarrow> sm_pure (\<lambda>sm. Inr (TS_StructBegin, push_frame (Frame1 return_state) sm))
      | FT_Map \<Rightarrow> sm_pure (\<lambda>sm. Inr (TS_MapBegin, push_frame (Frame1 return_state) sm))
      | FT_List \<Rightarrow> sm_pure (\<lambda>sm. Inr (TS_ListBegin, push_frame (Frame1 return_state) sm))
      | FT_Set \<Rightarrow> sm_pure (\<lambda>sm. Inr (TS_SetBegin, push_frame (Frame1 return_state) sm))
      | _ \<Rightarrow> (\<lambda>sm buf. Inl (EnvoyException (''unknown field type ''
               @ show_int (sint (word_of_int (field_type_number elem_type) :: byte))))))"

definition fieldValue :: "'p thrift_protocol \<Rightarrow> 'p handler" where
  "fieldValue pr = back_frame (\<lambda>fr. handleValue pr (fr_elem_type fr) (fr_return_state fr))"

definition fieldEnd :: "'p thrift_protocol \<Rightarrow> 'p handler" where
  "fieldEnd pr = sm_read (readFieldEnd pr) (\<lambda>_ sm.
     bindr (popReturnState sm) (\<lambda>(_, sm).
     bindr (sm_write (writeFieldEnd pr) sm) (\<lambda>sm. Inr (TS_FieldBegin, sm))))"

text \<open>
  The element is handled with the frame of the container at \<^verbatim>\<open>index\<close>; when data is
  missing the element still counts as remaining.
\<close>

definition counted :: "nat \<Rightarrow> (thrift_state \<times> 'p dsm \<times> buffer) res \<Rightarrow> (thrift_state \<times> 'p dsm \<times> buffer) res" where
  "counted index r = bindr r (\<lambda>(nextState, sm, buf).
     Inr (nextState, if nextState \<noteq> TS_WaitForData then dec_remaining index sm else sm, buf))"

definition listBegin :: "'p thrift_protocol \<Rightarrow> 'p handler" where
  "listBegin pr = sm_read (readListBegin pr) (\<lambda>(elem_type, size) sm.
     bindr (sm_write (writeListBegin pr elem_type size) (push_frame (Frame3 TS_ListEnd elem_type size) sm))
       (\<lambda>sm. Inr (TS_ListValue, sm)))"

definition listValue :: "'p thrift_protocol \<Rightarrow> 'p handler" where
  "listValue pr = back_frame (\<lambda>fr sm buf.
     let index = length (sm_stack sm) - 1 in
     if fr_remaining fr = 0 then sm_pure popReturnState sm buf
     else counted index (handleValue pr (fr_elem_type fr) TS_ListValue sm buf))"

definition listEnd :: "'p thrift_protocol \<Rightarrow> 'p handler" where
  "listEnd pr = sm_read (readListEnd pr) (\<lambda>_ sm. bindr (sm_write (writeListEnd pr) sm) popReturnState)"

definition mapBegin :: "'p thrift_protocol \<Rightarrow> 'p handler" where
  "mapBegin pr = sm_read (readMapBegin pr) (\<lambda>(key_type, value_type, size) sm.
     bindr (sm_write (writeMapBegin pr key_type value_type size)
              (push_frame (Frame4 TS_MapEnd key_type value_type size) sm))
       (\<lambda>sm. Inr (TS_MapKey, sm)))"

definition mapKey :: "'p thrift_protocol \<Rightarrow> 'p handler" where
  "mapKey pr = back_frame (\<lambda>fr sm buf.
     if fr_remaining fr = 0 then sm_pure popReturnState sm buf
     else handleValue pr (fr_elem_type fr) TS_MapValue sm buf)"

definition mapValue :: "'p thrift_protocol \<Rightarrow> 'p handler" where
  "mapValue pr = back_frame (\<lambda>fr sm buf.
     let index = length (sm_stack sm) - 1 in
     counted index (handleValue pr (fr_value_type fr) TS_MapKey sm buf))"

definition mapEnd :: "'p thrift_protocol \<Rightarrow> 'p handler" where
  "mapEnd pr = sm_read (readMapEnd pr) (\<lambda>_ sm. bindr (sm_write (writeMapEnd pr) sm) popReturnState)"

definition setBegin :: "'p thrift_protocol \<Rightarrow> 'p handler" where
  "setBegin pr = sm_read (readSetBegin pr) (\<lambda>(elem_type, size) sm.
     bindr (sm_write (writeSetBegin pr elem_type size) (push_frame (Frame3 TS_SetEnd elem_type size) sm))
       (\<lambda>sm. Inr (TS_SetValue, sm)))"

definition setValue :: "'p thrift_protocol \<Rightarrow> 'p handler" where
  "setValue pr = back_frame (\<lambda>fr sm buf.
     let index = length (sm_stack sm) - 1 in
     if fr_remaining fr = 0 then sm_pure popReturnState sm buf
     else counted index (handleValue pr (fr_elem_type fr) TS_SetValue sm buf))"

definition setEnd :: "'p thrift_protocol \<Rightarrow> 'p handler" where
  "setEnd pr = sm_read (readSetEnd pr) (\<lambda>_ sm. bindr (sm_write (writeSetEnd pr) sm) popReturnState)"

definition dsm_handleState :: "'p thrift_protocol \<Rightarrow> 'p handler" where
  "dsm_handleState pr sm =
     (case sm_state sm of
        TS_PassthroughData \<Rightarrow> passthroughData sm
      | TS_MessageBegin \<Rightarrow> messageBegin pr sm
      | TS_StructBegin \<Rightarrow> structBegin pr sm
      | TS_StructEnd \<Rightarrow> structEnd pr sm
      | TS_FieldBegin \<Rightarrow> fieldBegin pr sm
      | TS_FieldValue \<Rightarrow> fieldValue pr sm
      | TS_FieldEnd \<Rightarrow> fieldEnd pr sm
      | TS_ListBegin \<Rightarrow> listBegin pr sm
      | TS_ListValue \<Rightarrow> listValue pr sm
      | TS_ListEnd \<Rightarrow> listEnd pr sm
      | TS_MapBegin \<Rightarrow> mapBegin pr sm
      | TS_MapKey \<Rightarrow> mapKey pr sm
      | TS_MapValue \<Rightarrow> mapValue pr sm
      | TS_MapEnd \<Rightarrow> mapEnd pr sm
      | TS_SetBegin \<Rightarrow> setBegin pr sm
      | TS_SetValue \<Rightarrow> setValue pr sm
      | TS_SetEnd \<Rightarrow> setEnd pr sm
      | TS_MessageEnd \<Rightarrow> messageEnd pr sm
      | _ \<Rightarrow> (\<lambda>buf. Inl (Panic ''not reachec'')))"

text \<open>The loop; None when it does not return.\<close>

partial_function (option) dsm_run ::
  "'p thrift_protocol \<Rightarrow> 'p dsm \<Rightarrow> buffer \<Rightarrow> ((thrift_state \<times> 'p dsm \<times> buffer) res) option" where
  "dsm_run pr sm buf =
     (if sm_state sm = TS_Done then Some (Inr (TS_Done, sm, buf))
      else case dsm_handleState pr sm buf of
        Inl e \<Rightarrow> Some (Inl e)
      | Inr (nextState, sm', buf') \<Rightarrow>
          if nextState = TS_WaitForData then Some (Inr (TS_WaitForData, sm', buf'))
          else dsm_run pr (sm'\<lparr>sm_state := nextState\<rparr>) buf')"

declare dsm_run.simps [code]

section \<open>Steps\<close>

lemma sm_read_cases:
  assumes "sm_read rd k sm buf = Inr (st, sm', buf')"
  obtains (wait) p where "rd (sm_proto sm) buf = Inr (None, p)" "st = TS_WaitForData" "sm' = sm\<lparr>sm_proto := p\<rparr>" "buf' = buf"
    | (read) v p where "rd (sm_proto sm) buf = Inr (Some (v, buf'), p)" "k v (sm\<lparr>sm_proto := p\<rparr>) = Inr (st, sm')"
  using assms by (auto simp: sm_read_def bindr_eq_Inr split: sum.splits option.splits prod.splits)

lemma sm_write_Inr:
  assumes "sm_write wr sm = Inr sm'"
  obtains p b where "sm' = sm\<lparr>sm_proto := p, sm_origin_message := sm_origin_message sm @ b\<rparr>"
  using assms by (auto simp: sm_write_def bindr_eq_Inr)

lemma sm_write_fields:
  assumes "sm_write wr sm = Inr sm'"
  shows "sm_stack sm' = sm_stack sm" "sm_state sm' = sm_state sm" "sm_metadata sm' = sm_metadata sm"
    "sm_passthrough_enabled sm' = sm_passthrough_enabled sm"
  using assms by (auto elim: sm_write_Inr)

lemma push_frame_fields [simp]:
  "sm_stack (push_frame fr sm) = fr # sm_stack sm" "sm_state (push_frame fr sm) = sm_state sm"
  "sm_metadata (push_frame fr sm) = sm_metadata sm" "sm_proto (push_frame fr sm) = sm_proto sm"
  "sm_passthrough_enabled (push_frame fr sm) = sm_passthrough_enabled sm"
  "sm_origin_message (push_frame fr sm) = sm_origin_message sm"
  by (simp_all add: push_frame_def)

lemma popReturnState_Inr:
  "popReturnState sm = Inr (st, sm') \<longleftrightarrow>
     (\<exists>fr s. sm_stack sm = fr # s \<and> st = fr_return_state fr \<and> sm' = sm\<lparr>sm_stack := s\<rparr>)"
  by (auto simp: popReturnState_def split: list.splits)

lemma Frame_fields [simp]:
  "fr_return_state (Frame1 st) = st" "fr_return_state (Frame2 st ty) = st" "fr_return_state (Frame3 st ty n) = st"
  "fr_return_state (Frame4 st kt vt n) = st" "fr_remaining (Frame1 st) = 0" "fr_remaining (Frame2 st ty) = 0"
  "fr_remaining (Frame3 st ty n) = n" "fr_remaining (Frame4 st kt vt n) = n"
  "fr_elem_type (Frame2 st ty) = ty" "fr_elem_type (Frame3 st ty n) = ty" "fr_elem_type (Frame4 st kt vt n) = kt"
  "fr_value_type (Frame4 st kt vt n) = vt"
  by (simp_all add: Frame1_def Frame2_def Frame3_def Frame4_def)

section \<open>The stack\<close>

text \<open>The states in which the machine can be with a stack.\<close>

definition return_states :: "thrift_state set" where
  "return_states = {TS_MessageEnd, TS_FieldEnd, TS_ListValue, TS_SetValue, TS_MapKey, TS_MapValue}"

definition nested_states :: "thrift_state set" where
  "nested_states = {TS_StructBegin, TS_FieldBegin, TS_StructEnd, TS_MapBegin, TS_ListBegin, TS_SetBegin,
     TS_MapEnd, TS_ListEnd, TS_SetEnd}"

fun wf_at :: "thrift_state \<Rightarrow> frame list \<Rightarrow> bool" where
  "wf_at st [] = (st \<in> {TS_MessageBegin, TS_MessageEnd, TS_PassthroughData, TS_Done})"
| "wf_at st (fr # s) =
     (st \<in> {TS_PassthroughData, TS_MessageEnd, TS_Done} \<or>
      st \<in> nested_states \<and> fr_return_state fr \<in> return_states \<and> wf_at (fr_return_state fr) s \<or>
      st \<in> {TS_FieldValue, TS_FieldEnd} \<and> fr_return_state fr = TS_FieldEnd \<and> wf_at TS_FieldBegin s \<or>
      st = TS_ListValue \<and> fr_return_state fr = TS_ListEnd \<and> wf_at TS_ListEnd s \<or>
      st = TS_SetValue \<and> fr_return_state fr = TS_SetEnd \<and> wf_at TS_SetEnd s \<or>
      (st = TS_MapKey \<or> st = TS_MapValue \<and> fr_remaining fr \<noteq> 0) \<and> fr_return_state fr = TS_MapEnd \<and>
        wf_at TS_MapEnd s)"

definition dsm_ok :: "'p dsm \<Rightarrow> bool" where
  "dsm_ok sm = wf_at (sm_state sm) (sm_stack sm)"

lemma wf_at_not_wait: "wf_at st s \<Longrightarrow> st \<noteq> TS_WaitForData"
  by (cases s) (auto simp: nested_states_def)

text \<open>
  Handling a value: either a value of a basic type was read and written, or a frame was pushed.
\<close>

definition container_state :: "field_type \<Rightarrow> thrift_state option" where
  "container_state ty =
     (case ty of FT_Struct \<Rightarrow> Some TS_StructBegin | FT_Map \<Rightarrow> Some TS_MapBegin | FT_List \<Rightarrow> Some TS_ListBegin
      | FT_Set \<Rightarrow> Some TS_SetBegin | _ \<Rightarrow> None)"

definition no_growth :: "('p, 'a) reader \<Rightarrow> bool" where
  "no_growth rd = (\<forall>p b v b' p'. rd p b = Inr (Some (v, b'), p') \<longrightarrow> length b' \<le> length b)"

definition consuming_read :: "('p, 'a) reader \<Rightarrow> bool" where
  "consuming_read rd = (\<forall>p b v b' p'. rd p b = Inr (Some (v, b'), p') \<longrightarrow> length b' < length b)"

text \<open>
  What every Thrift protocol guarantees: reading takes bytes away, and the headers of messages, fields
  and containers have at least one byte.
\<close>

definition progressive :: "'p thrift_protocol \<Rightarrow> bool" where
  "progressive pr \<longleftrightarrow>
     (\<forall>md. consuming_read (readMessageBegin pr md)) \<and> no_growth (readMessageEnd pr) \<and> no_growth (readStructBegin pr) \<and>
     no_growth (readStructEnd pr) \<and> consuming_read (readFieldBegin pr) \<and> no_growth (readFieldEnd pr) \<and>
     consuming_read (readMapBegin pr) \<and> no_growth (readMapEnd pr) \<and> consuming_read (readListBegin pr) \<and>
     no_growth (readListEnd pr) \<and> consuming_read (readSetBegin pr) \<and> no_growth (readSetEnd pr) \<and>
     no_growth (readBool pr) \<and> no_growth (readByte pr) \<and> no_growth (readInt16 pr) \<and> no_growth (readInt32 pr) \<and>
     no_growth (readInt64 pr) \<and> no_growth (readDouble pr) \<and> no_growth (readString pr)"

lemma basic_value_cases:
  assumes "basic_value rd wr ret sm buf = Inr (st, sm', buf')" "no_growth rd"
  obtains (wait) p where "st = TS_WaitForData" "sm' = sm\<lparr>sm_proto := p\<rparr>" "buf' = buf"
    | (basic) "st = ret" "sm_stack sm' = sm_stack sm" "sm_state sm' = sm_state sm" "length buf' \<le> length buf"
  using assms(1) unfolding basic_value_def
proof (cases rule: sm_read_cases)
  case (read v p)
  then have w: "sm_write (wr v) (sm\<lparr>sm_proto := p\<rparr>) = Inr sm'" "st = ret" by (auto simp: bindr_eq_Inr)
  have "length buf' \<le> length buf" using assms(2) read(1) unfolding no_growth_def by blast
  then show ?thesis using basic w(2) sm_write_fields [OF w(1)] by simp
qed (use wait in blast)

lemma handleValue_cases:
  assumes "handleValue pr ty ret sm buf = Inr (st, sm', buf')" "progressive pr"
  obtains (wait) p where "st = TS_WaitForData" "sm' = sm\<lparr>sm_proto := p\<rparr>" "buf' = buf"
    | (basic) "st = ret" "sm_stack sm' = sm_stack sm" "sm_state sm' = sm_state sm" "length buf' \<le> length buf"
    | (push) "container_state ty = Some st" "sm' = push_frame (Frame1 ret) sm" "buf' = buf"
proof (cases "container_state ty")
  case None
  with assms have "(\<exists>p. st = TS_WaitForData \<and> sm' = sm\<lparr>sm_proto := p\<rparr> \<and> buf' = buf) \<or>
      st = ret \<and> sm_stack sm' = sm_stack sm \<and> sm_state sm' = sm_state sm \<and> length buf' \<le> length buf"
    unfolding handleValue_def container_state_def progressive_def
    by (cases ty; simp) (elim basic_value_cases; blast)+
  with wait basic show ?thesis by blast
next
  case (Some st')
  with assms(1) push show ?thesis
    by (cases ty) (auto simp: handleValue_def container_state_def sm_pure_def)
qed

lemma sm_write_eq:
  "sm_write wr sm = Inr sm' \<longleftrightarrow> (\<exists>b p. wr (sm_proto sm) = Inr (b, p) \<and>
     sm' = sm\<lparr>sm_proto := p, sm_origin_message := sm_origin_message sm @ b\<rparr>)"
  by (auto simp: sm_write_def bindr_eq_Inr)

text \<open>
  Termination: a step takes bytes from the buffer, or handles an element of a container, or leads to a
  state of smaller rank.
\<close>

definition sum_remaining :: "frame list \<Rightarrow> nat" where
  "sum_remaining s = sum_list (map (\<lambda>fr. unat (fr_remaining fr)) s)"

fun phase :: "thrift_state \<Rightarrow> nat" where
  "phase TS_MessageBegin = 9"
| "phase TS_PassthroughData = 6"
| "phase TS_MapKey = 5"
| "phase TS_MapValue = 4"
| "phase TS_ListValue = 4"
| "phase TS_SetValue = 4"
| "phase TS_FieldValue = 4"
| "phase TS_FieldEnd = 3"
| "phase TS_StructEnd = 4"
| "phase TS_MapEnd = 4"
| "phase TS_ListEnd = 4"
| "phase TS_SetEnd = 4"
| "phase TS_StructBegin = 1"
| "phase TS_MessageEnd = 1"
| "phase _ = 0"

definition dsm_order :: "(('p dsm \<times> buffer) \<times> ('p dsm \<times> buffer)) set" where
  "dsm_order = measures [\<lambda>(sm, buf). length buf, \<lambda>(sm, buf). sum_remaining (sm_stack sm),
     \<lambda>(sm, buf). 2 * length (sm_stack sm) + phase (sm_state sm)]"

lemma wf_dsm_order: "wf dsm_order"
  by (simp add: dsm_order_def)

definition step_to :: "'p dsm \<Rightarrow> buffer \<Rightarrow> thrift_state \<Rightarrow> 'p dsm \<Rightarrow> buffer \<Rightarrow> bool" where
  "step_to sm buf st sm' buf' \<longleftrightarrow>
     st \<noteq> TS_WaitForData \<and> dsm_ok (sm'\<lparr>sm_state := st\<rparr>) \<and> ((sm'\<lparr>sm_state := st\<rparr>, buf'), (sm, buf)) \<in> dsm_order"

definition waits :: "'p dsm \<Rightarrow> buffer \<Rightarrow> thrift_state \<Rightarrow> 'p dsm \<Rightarrow> buffer \<Rightarrow> bool" where
  "waits sm buf st sm' buf' \<longleftrightarrow> st = TS_WaitForData \<and> buf' = buf \<and> (\<exists>p. sm' = sm\<lparr>sm_proto := p\<rparr>)"

lemma step_toI:
  assumes "wf_at st (sm_stack sm')"
    and "length buf' < length buf \<or> length buf' \<le> length buf \<and>
      (sum_remaining (sm_stack sm') < sum_remaining (sm_stack sm) \<or>
       sum_remaining (sm_stack sm') \<le> sum_remaining (sm_stack sm) \<and>
       2 * length (sm_stack sm') + phase st < 2 * length (sm_stack sm) + phase (sm_state sm))"
  shows "step_to sm buf st sm' buf'"
  using assms wf_at_not_wait [OF assms(1)] by (auto simp: step_to_def dsm_ok_def dsm_order_def)

lemma sm_read_step:
  assumes "sm_read rd k sm buf = Inr (st, sm', buf')"
    and "\<And>v p. rd (sm_proto sm) buf = Inr (Some (v, buf'), p) \<Longrightarrow> k v (sm\<lparr>sm_proto := p\<rparr>) = Inr (st, sm') \<Longrightarrow>
      step_to sm buf st sm' buf'"
  shows "waits sm buf st sm' buf' \<or> step_to sm buf st sm' buf'"
  using assms(1) by (cases rule: sm_read_cases) (use assms(2) in \<open>auto simp: waits_def\<close>)

lemmas pop_simps = bindr_eq_Inr popReturnState_Inr sm_write_eq sum_remaining_def

lemma phase_return: "st \<in> return_states \<Longrightarrow> phase st \<le> 5"
  by (auto simp: return_states_def)

text \<open>A state that ends a struct or a container.\<close>

lemma pop_step:
  assumes "popReturnState sm1 = Inr (st, sm')" "sm_stack sm1 = sm_stack sm" "dsm_ok sm"
    and "sm_state sm \<in> nested_states" "phase (sm_state sm) = 4" "length buf' \<le> length buf"
  shows "step_to sm buf st sm' buf'"
proof (rule step_toI)
  obtain fr s where s: "sm_stack sm = fr # s" "st = fr_return_state fr" "sm_stack sm' = s"
    using assms(1,2) by (auto simp: popReturnState_Inr)
  have "sm_state sm \<notin> {TS_PassthroughData, TS_MessageEnd, TS_Done, TS_FieldValue, TS_FieldEnd, TS_ListValue, TS_SetValue,
      TS_MapKey, TS_MapValue}"
    using assms(4) by (auto simp: nested_states_def)
  then have w: "st \<in> return_states" "wf_at st s"
    using assms(3) s by (simp_all add: dsm_ok_def)
  show "wf_at st (sm_stack sm')" using w s by simp
  show "length buf' < length buf \<or> length buf' \<le> length buf \<and>
      (sum_remaining (sm_stack sm') < sum_remaining (sm_stack sm) \<or>
       sum_remaining (sm_stack sm') \<le> sum_remaining (sm_stack sm) \<and>
       2 * length (sm_stack sm') + phase st < 2 * length (sm_stack sm) + phase (sm_state sm))"
    using assms(5,6) phase_return [OF w(1)] s by (simp add: sum_remaining_def)
qed

lemma sm_write_stack: "sm_write wr sm = Inr sm' \<Longrightarrow> sm_stack sm' = sm_stack sm"
  by (simp add: sm_write_fields)

lemma progressiveD:
  assumes "progressive pr"
  shows "consuming_read (readMessageBegin pr md)" "no_growth (readMessageEnd pr)" "no_growth (readStructBegin pr)"
    "no_growth (readStructEnd pr)" "consuming_read (readFieldBegin pr)" "no_growth (readFieldEnd pr)"
    "consuming_read (readMapBegin pr)" "no_growth (readMapEnd pr)" "consuming_read (readListBegin pr)"
    "no_growth (readListEnd pr)" "consuming_read (readSetBegin pr)" "no_growth (readSetEnd pr)"
  using assms by (simp_all add: progressive_def)

lemma no_growthD: "no_growth rd \<Longrightarrow> rd p b = Inr (Some (v, b'), p') \<Longrightarrow> length b' \<le> length b"
  unfolding no_growth_def by blast

lemma consuming_readD: "consuming_read rd \<Longrightarrow> rd p b = Inr (Some (v, b'), p') \<Longrightarrow> length b' < length b"
  unfolding consuming_read_def by blast

lemma structEnd_step:
  assumes "structEnd pr sm buf = Inr (st, sm', buf')" "dsm_ok sm" "progressive pr" "sm_state sm = TS_StructEnd"
  shows "waits sm buf st sm' buf' \<or> step_to sm buf st sm' buf'"
  using assms(1) unfolding structEnd_def
proof (rule sm_read_step)
  fix v p
  assume r: "readStructEnd pr (sm_proto sm) buf = Inr (Some (v, buf'), p)"
    and k: "bindr (sm_write (writeFieldBegin pr [] FT_Stop 0) (sm\<lparr>sm_proto := p\<rparr>)) (\<lambda>sm.
      bindr (sm_write (writeStructEnd pr) sm) popReturnState) = Inr (st, sm')"
  from k obtain sm1 where p: "popReturnState sm1 = Inr (st, sm')" "sm_stack sm1 = sm_stack sm"
    by (auto simp: bindr_eq_Inr dest!: sm_write_stack)
  show "step_to sm buf st sm' buf'"
    using no_growthD [OF progressiveD(4) r] assms(2-4) p by (intro pop_step [OF p]) (auto simp: nested_states_def)
qed

lemma end_step:
  assumes "sm_read rd (\<lambda>_ sm. bindr (sm_write wr sm) popReturnState) sm buf = Inr (st, sm', buf')"
    and "dsm_ok sm" "no_growth rd" "sm_state sm \<in> nested_states" "phase (sm_state sm) = 4"
  shows "waits sm buf st sm' buf' \<or> step_to sm buf st sm' buf'"
  using assms(1)
proof (rule sm_read_step)
  fix v p
  assume r: "rd (sm_proto sm) buf = Inr (Some (v, buf'), p)"
    and k: "bindr (sm_write wr (sm\<lparr>sm_proto := p\<rparr>)) popReturnState = Inr (st, sm')"
  from k obtain sm1 where p: "popReturnState sm1 = Inr (st, sm')" "sm_stack sm1 = sm_stack sm"
    by (auto simp: bindr_eq_Inr dest!: sm_write_stack)
  show "step_to sm buf st sm' buf'"
    using no_growthD [OF assms(3) r] assms(2-5) by (intro pop_step [OF p])
qed

lemma nested_iff:
  "st \<in> nested_states \<Longrightarrow> wf_at st (fr # s) \<longleftrightarrow> fr_return_state fr \<in> return_states \<and> wf_at (fr_return_state fr) s"
  by (auto simp: nested_states_def)

lemma nested_stack:
  assumes "dsm_ok sm" "sm_state sm \<in> nested_states"
  obtains fr s where "sm_stack sm = fr # s" "fr_return_state fr \<in> return_states" "wf_at (fr_return_state fr) s"
  using assms by (cases "sm_stack sm") (auto simp: dsm_ok_def nested_iff, auto simp: nested_states_def)

text \<open>A state in which the header of a field or of a container is read.\<close>

lemma structBegin_step:
  assumes "structBegin pr sm buf = Inr (st, sm', buf')" "dsm_ok sm" "progressive pr" "sm_state sm = TS_StructBegin"
  shows "waits sm buf st sm' buf' \<or> step_to sm buf st sm' buf'"
  using assms(1) unfolding structBegin_def
proof (rule sm_read_step)
  fix v p
  assume r: "readStructBegin pr (sm_proto sm) buf = Inr (Some (v, buf'), p)"
    and k: "bindr (sm_write (writeStructBegin pr v) (sm\<lparr>sm_proto := p\<rparr>)) (\<lambda>sm. Inr (TS_FieldBegin, sm)) = Inr (st, sm')"
  have "st = TS_FieldBegin" "sm_stack sm' = sm_stack sm" using k by (auto simp: sm_write_eq bindr_eq_Inr)
  moreover obtain fr s where "sm_stack sm = fr # s" "fr_return_state fr \<in> return_states" "wf_at (fr_return_state fr) s"
    using assms(2,4) by (elim nested_stack) (simp_all add: nested_states_def)
  ultimately show "step_to sm buf st sm' buf'"
    using no_growthD [OF progressiveD(3) r] assms(3,4) by (intro step_toI) (auto simp: nested_states_def)
qed

lemma header_step:
  assumes "length buf' < length buf" "wf_at st (sm_stack sm')"
  shows "step_to sm buf st sm' buf'"
  using assms by (intro step_toI) simp_all

lemma fieldBegin_step:
  assumes "fieldBegin pr sm buf = Inr (st, sm', buf')" "dsm_ok sm" "progressive pr" "sm_state sm = TS_FieldBegin"
  shows "waits sm buf st sm' buf' \<or> step_to sm buf st sm' buf'"
  using assms(1) unfolding fieldBegin_def
proof (rule sm_read_step)
  fix v :: "string \<times> field_type \<times> u16" and p
  obtain n ty i where v: "v = (n, ty, i)" by (cases v)
  assume r: "readFieldBegin pr (sm_proto sm) buf = Inr (Some (v, buf'), p)"
    and k: "(case v of (name, field_type, field_id) \<Rightarrow> \<lambda>sm.
      if field_type = FT_Stop then Inr (TS_StructEnd, sm)
      else bindr (sm_write (writeFieldBegin pr name field_type field_id) (push_frame (Frame2 TS_FieldEnd field_type) sm))
            (\<lambda>sm. Inr (TS_FieldValue, sm))) (sm\<lparr>sm_proto := p\<rparr>) = Inr (st, sm')"
  obtain fr s where s: "sm_stack sm = fr # s" "fr_return_state fr \<in> return_states" "wf_at (fr_return_state fr) s"
    using assms(2,4) by (elim nested_stack) (simp_all add: nested_states_def)
  have "st = TS_StructEnd \<and> sm_stack sm' = sm_stack sm \<or>
      st = TS_FieldValue \<and> sm_stack sm' = Frame2 TS_FieldEnd ty # sm_stack sm"
    using k v by (auto simp: sm_write_eq bindr_eq_Inr split: if_splits)
  with s have "wf_at st (sm_stack sm')" by (auto simp: nested_iff nested_states_def)
  then show "step_to sm buf st sm' buf'"
    using consuming_readD [OF progressiveD(5) r] assms(3) by (intro header_step)
qed

lemma container_step:
  assumes "sm_read rd k sm buf = Inr (st, sm', buf')" "consuming_read rd" "dsm_ok sm" "sm_state sm \<in> nested_states"
    and "\<And>v sm1. k v sm1 = Inr (st, sm') \<Longrightarrow> sm_stack sm1 = sm_stack sm \<Longrightarrow>
      \<exists>fr. sm_stack sm' = fr # sm_stack sm \<and>
        (st = TS_ListValue \<and> fr_return_state fr = TS_ListEnd \<or> st = TS_SetValue \<and> fr_return_state fr = TS_SetEnd \<or>
         st = TS_MapKey \<and> fr_return_state fr = TS_MapEnd)"
  shows "waits sm buf st sm' buf' \<or> step_to sm buf st sm' buf'"
  using assms(1)
proof (rule sm_read_step)
  fix v p
  assume r: "rd (sm_proto sm) buf = Inr (Some (v, buf'), p)" and k: "k v (sm\<lparr>sm_proto := p\<rparr>) = Inr (st, sm')"
  from assms(5) [OF k] obtain fr where "sm_stack sm' = fr # sm_stack sm"
    "st = TS_ListValue \<and> fr_return_state fr = TS_ListEnd \<or> st = TS_SetValue \<and> fr_return_state fr = TS_SetEnd \<or>
         st = TS_MapKey \<and> fr_return_state fr = TS_MapEnd" by auto
  moreover obtain fr' s where "sm_stack sm = fr' # s" "fr_return_state fr' \<in> return_states" "wf_at (fr_return_state fr') s"
    using assms(3,4) by (rule nested_stack)
  ultimately have "wf_at st (sm_stack sm')" by (auto simp: nested_iff nested_states_def)
  then show "step_to sm buf st sm' buf'"
    using consuming_readD [OF assms(2) r] by (intro header_step)
qed

lemma fieldEnd_step:
  assumes "fieldEnd pr sm buf = Inr (st, sm', buf')" "dsm_ok sm" "progressive pr" "sm_state sm = TS_FieldEnd"
  shows "waits sm buf st sm' buf' \<or> step_to sm buf st sm' buf'"
  using assms(1) unfolding fieldEnd_def
proof (rule sm_read_step)
  fix v p
  assume r: "readFieldEnd pr (sm_proto sm) buf = Inr (Some (v, buf'), p)"
    and k: "bindr (popReturnState (sm\<lparr>sm_proto := p\<rparr>)) (\<lambda>(_, sm).
      bindr (sm_write (writeFieldEnd pr) sm) (\<lambda>sm. Inr (TS_FieldBegin, sm))) = Inr (st, sm')"
  from k obtain fr s where s: "sm_stack sm = fr # s" "sm_stack sm' = s" "st = TS_FieldBegin"
    by (auto simp: bindr_eq_Inr popReturnState_Inr sm_write_eq)
  have w: "wf_at TS_FieldBegin s" using assms(2,4) s(1) by (auto simp: dsm_ok_def nested_states_def)
  show "step_to sm buf st sm' buf'"
    using no_growthD [OF progressiveD(6) r] assms(3,4) s w by (intro step_toI) (auto simp: sum_remaining_def)
qed

definition dec_frame :: "frame \<Rightarrow> frame" where
  "dec_frame fr = fr\<lparr>fr_remaining := fr_remaining fr - 1\<rparr>"

lemma dec_frame_fields [simp]:
  "fr_return_state (dec_frame fr) = fr_return_state fr" "fr_elem_type (dec_frame fr) = fr_elem_type fr"
  "fr_value_type (dec_frame fr) = fr_value_type fr" "fr_remaining (dec_frame fr) = fr_remaining fr - 1"
  by (simp_all add: dec_frame_def)

lemma dec_remaining_stack:
  "sm_stack sm = fr # s \<Longrightarrow> dec_remaining (length s) sm = sm\<lparr>sm_stack := dec_frame fr # s\<rparr>"
  "sm_stack sm = f # fr # s \<Longrightarrow> dec_remaining (length s) sm = sm\<lparr>sm_stack := f # dec_frame fr # s\<rparr>"
  by (simp_all add: dec_remaining_def dec_frame_def Let_def)

lemma unat_dec: "r \<noteq> 0 \<Longrightarrow> unat (r - 1 :: u32) < unat r"
  by (simp add: unat_minus_one unat_gt_0)

lemma container_state_nested:
  "container_state ty = Some st \<Longrightarrow> st \<in> nested_states" "container_state ty = Some st \<Longrightarrow> phase st \<le> 1"
  "container_state ty = Some st \<Longrightarrow> st \<noteq> TS_WaitForData"
  by (auto simp: container_state_def nested_states_def split: field_type.splits)

lemma fieldValue_step:
  assumes "fieldValue pr sm buf = Inr (st, sm', buf')" "dsm_ok sm" "progressive pr" "sm_state sm = TS_FieldValue"
  shows "waits sm buf st sm' buf' \<or> step_to sm buf st sm' buf'"
proof -
  from assms(1,2,4) obtain fr s where s: "sm_stack sm = fr # s" "fr_return_state fr = TS_FieldEnd" "wf_at TS_FieldBegin s"
    and h: "handleValue pr (fr_elem_type fr) TS_FieldEnd sm buf = Inr (st, sm', buf')"
    by (auto simp: fieldValue_def back_frame_def dsm_ok_def nested_states_def split: list.splits)
  from h assms(3) show ?thesis
  proof (cases rule: handleValue_cases)
    case basic
    with s assms(4) show ?thesis by (intro disjI2 step_toI) auto
  next
    case push
    with s assms(4) show ?thesis using container_state_nested [OF push(1)]
      by (intro disjI2 step_toI) (auto simp: nested_iff return_states_def sum_remaining_def)
  qed (auto simp: waits_def)
qed

lemma counted_Inr:
  assumes "counted index r = Inr (st, sm', buf')"
  obtains sm1 where "r = Inr (st, sm1, buf')" "sm' = (if st \<noteq> TS_WaitForData then dec_remaining index sm1 else sm1)"
  using assms by (auto simp: counted_def bindr_eq_Inr)

text \<open>An element of a container.\<close>

lemma element_step:
  assumes h: "counted (length s) (handleValue pr ty ret sm buf) = Inr (st, sm', buf')"
    and "progressive pr" "sm_stack sm = fr # s" "fr_remaining fr \<noteq> 0" "ret \<in> return_states" "wf_at ret (dec_frame fr # s)"
  shows "waits sm buf st sm' buf' \<or> step_to sm buf st sm' buf'"
proof -
  from h obtain sm1 where h1: "handleValue pr ty ret sm buf = Inr (st, sm1, buf')"
    and sm': "sm' = (if st \<noteq> TS_WaitForData then dec_remaining (length s) sm1 else sm1)" by (rule counted_Inr)
  from h1 assms(2) show ?thesis
  proof (cases rule: handleValue_cases)
    case basic
    then have "sm_stack sm' = dec_frame fr # s"
      using sm' assms(3,5) by (auto simp: dec_remaining_stack return_states_def)
    with basic assms(3,4,6) unat_dec [OF assms(4)] show ?thesis
      by (intro disjI2 step_toI) (simp_all add: sum_remaining_def)
  next
    case push
    then have "sm_stack sm' = Frame1 ret # dec_frame fr # s"
      using sm' assms(3) container_state_nested(3) [OF push(1)] by (simp add: dec_remaining_stack)
    with push assms(3-6) unat_dec [OF assms(4)] container_state_nested [OF push(1)] show ?thesis
      by (intro disjI2 step_toI) (simp_all add: sum_remaining_def nested_iff)
  qed (use sm' in \<open>auto simp: waits_def\<close>)
qed

lemma back_frame_Inr:
  "back_frame f sm buf = Inr r \<longleftrightarrow> (\<exists>fr s. sm_stack sm = fr # s \<and> f fr sm buf = Inr r)"
  by (auto simp: back_frame_def split: list.splits)

lemma pop_pure_step:
  assumes "sm_pure popReturnState sm buf = Inr (st, sm', buf')" "sm_stack sm = fr # s"
    and "wf_at (fr_return_state fr) s" "phase (fr_return_state fr) = 4" "phase (sm_state sm) \<ge> 4"
  shows "step_to sm buf st sm' buf'"
  using assms by (intro step_toI) (auto simp: sm_pure_def bindr_eq_Inr popReturnState_Inr sum_remaining_def)

lemma listValue_step:
  assumes "listValue pr sm buf = Inr (st, sm', buf')" "dsm_ok sm" "progressive pr" "sm_state sm = TS_ListValue"
  shows "waits sm buf st sm' buf' \<or> step_to sm buf st sm' buf'"
proof -
  from assms(1,2,4) obtain fr s where s: "sm_stack sm = fr # s" "fr_return_state fr = TS_ListEnd" "wf_at TS_ListEnd s"
    and h: "if fr_remaining fr = 0 then sm_pure popReturnState sm buf = Inr (st, sm', buf')
      else counted (length s) (handleValue pr (fr_elem_type fr) TS_ListValue sm buf) = Inr (st, sm', buf')"
    by (auto simp: listValue_def back_frame_Inr dsm_ok_def nested_states_def split: if_splits)
  show ?thesis
  proof (cases "fr_remaining fr = 0")
    case True
    with h s assms(4) show ?thesis by (intro disjI2 pop_pure_step) auto
  next
    case False
    with h have h': "counted (length s) (handleValue pr (fr_elem_type fr) TS_ListValue sm buf) = Inr (st, sm', buf')" by simp
    show ?thesis by (rule element_step [OF h' assms(3) s(1) False]) (use s in \<open>auto simp: return_states_def\<close>)
  qed
qed

lemma setValue_step:
  assumes "setValue pr sm buf = Inr (st, sm', buf')" "dsm_ok sm" "progressive pr" "sm_state sm = TS_SetValue"
  shows "waits sm buf st sm' buf' \<or> step_to sm buf st sm' buf'"
proof -
  from assms(1,2,4) obtain fr s where s: "sm_stack sm = fr # s" "fr_return_state fr = TS_SetEnd" "wf_at TS_SetEnd s"
    and h: "if fr_remaining fr = 0 then sm_pure popReturnState sm buf = Inr (st, sm', buf')
      else counted (length s) (handleValue pr (fr_elem_type fr) TS_SetValue sm buf) = Inr (st, sm', buf')"
    by (auto simp: setValue_def back_frame_Inr dsm_ok_def nested_states_def split: if_splits)
  show ?thesis
  proof (cases "fr_remaining fr = 0")
    case True
    with h s assms(4) show ?thesis by (intro disjI2 pop_pure_step) auto
  next
    case False
    with h have h': "counted (length s) (handleValue pr (fr_elem_type fr) TS_SetValue sm buf) = Inr (st, sm', buf')" by simp
    show ?thesis by (rule element_step [OF h' assms(3) s(1) False]) (use s in \<open>auto simp: return_states_def\<close>)
  qed
qed

lemma mapKey_step:
  assumes "mapKey pr sm buf = Inr (st, sm', buf')" "dsm_ok sm" "progressive pr" "sm_state sm = TS_MapKey"
  shows "waits sm buf st sm' buf' \<or> step_to sm buf st sm' buf'"
proof -
  from assms(1,2,4) obtain fr s where s: "sm_stack sm = fr # s" "fr_return_state fr = TS_MapEnd" "wf_at TS_MapEnd s"
    and h: "if fr_remaining fr = 0 then sm_pure popReturnState sm buf = Inr (st, sm', buf')
      else handleValue pr (fr_elem_type fr) TS_MapValue sm buf = Inr (st, sm', buf')"
    by (auto simp: mapKey_def back_frame_Inr dsm_ok_def nested_states_def split: if_splits)
  show ?thesis
  proof (cases "fr_remaining fr = 0")
    case True
    with h s assms(4) show ?thesis by (intro disjI2 pop_pure_step) auto
  next
    case False
    with h have "handleValue pr (fr_elem_type fr) TS_MapValue sm buf = Inr (st, sm', buf')" by simp
    then show ?thesis using assms(3)
    proof (cases rule: handleValue_cases)
      case basic
      with s False assms(4) show ?thesis by (intro disjI2 step_toI) auto
    next
      case push
      with s False assms(4) show ?thesis using container_state_nested [OF push(1)]
        by (intro disjI2 step_toI) (auto simp: nested_iff return_states_def sum_remaining_def)
    qed (auto simp: waits_def)
  qed
qed

lemma mapValue_step:
  assumes "mapValue pr sm buf = Inr (st, sm', buf')" "dsm_ok sm" "progressive pr" "sm_state sm = TS_MapValue"
  shows "waits sm buf st sm' buf' \<or> step_to sm buf st sm' buf'"
proof -
  from assms(1,2,4) obtain fr s where s: "sm_stack sm = fr # s" "fr_return_state fr = TS_MapEnd" "wf_at TS_MapEnd s"
      "fr_remaining fr \<noteq> 0"
    and h: "counted (length s) (handleValue pr (fr_value_type fr) TS_MapKey sm buf) = Inr (st, sm', buf')"
    by (auto simp: mapValue_def back_frame_Inr dsm_ok_def nested_states_def)
  show ?thesis by (rule element_step [OF h assms(3) s(1,4)]) (use s in \<open>auto simp: return_states_def\<close>)
qed

lemma messageBegin_step:
  assumes "messageBegin pr sm buf = Inr (st, sm', buf')" "dsm_ok sm" "progressive pr" "sm_state sm = TS_MessageBegin"
  shows "waits sm buf st sm' buf' \<or> step_to sm buf st sm' buf' \<and> length buf' < length buf"
proof -
  consider (wait) p where "st = TS_WaitForData" "sm' = sm\<lparr>sm_proto := p\<rparr>" "buf' = buf"
    | (read) md p where "readMessageBegin pr (sm_metadata sm) (sm_proto sm) buf = Inr (Some (md, buf'), p)"
        "sm_stack sm' = [Frame1 TS_MessageEnd]" "st \<in> {TS_PassthroughData, TS_StructBegin}"
    using assms(1)
    by (auto simp: messageBegin_def Let_def bindr_eq_Inr sm_write_eq split: sum.splits option.splits if_splits prod.splits)
  then show ?thesis
  proof cases
    case read
    with consuming_readD [OF progressiveD(1) [OF assms(3)] read(1)] show ?thesis
      by (auto intro!: step_toI simp: nested_iff nested_states_def return_states_def)
  qed (auto simp: waits_def)
qed

lemma messageEnd_step:
  assumes "messageEnd pr sm buf = Inr (st, sm', buf')" "progressive pr" "sm_state sm = TS_MessageEnd"
  shows "waits sm buf st sm' buf' \<or> step_to sm buf st sm' buf'"
  using assms(1) unfolding messageEnd_def
proof (rule sm_read_step)
  fix v p
  assume r: "readMessageEnd pr (sm_proto sm) buf = Inr (Some (v, buf'), p)"
    and k: "bindr (sm_write (writeMessageEnd pr) (sm\<lparr>sm_proto := p\<rparr>)) (\<lambda>sm. Inr (TS_Done, sm)) = Inr (st, sm')"
  have "st = TS_Done" "sm_stack sm' = sm_stack sm" using k by (auto simp: sm_write_eq bindr_eq_Inr)
  moreover have "wf_at TS_Done s" for s by (cases s) simp_all
  ultimately show "step_to sm buf st sm' buf'"
    using no_growthD [OF progressiveD(2) r] assms(2,3) by (intro step_toI) auto
qed

lemma passthroughData_step:
  assumes "passthroughData sm buf = Inr (st, sm', buf')" "sm_state sm = TS_PassthroughData"
  shows "waits sm buf st sm' buf' \<or> step_to sm buf st sm' buf'"
proof (cases "unat (sm_body_bytes sm) > length buf")
  case True
  with assms show ?thesis by (auto simp: passthroughData_def waits_def intro!: exI [of _ "sm_proto sm"])
next
  case False
  have "wf_at TS_MessageEnd s" for s by (cases s) simp_all
  with False assms show ?thesis by (auto simp: passthroughData_def Let_def intro!: step_toI)
qed

lemma listBegin_step:
  assumes "listBegin pr sm buf = Inr (st, sm', buf')" "dsm_ok sm" "progressive pr" "sm_state sm = TS_ListBegin"
  shows "waits sm buf st sm' buf' \<or> step_to sm buf st sm' buf'"
  using assms(1) unfolding listBegin_def
  by (rule container_step [OF _ progressiveD(9)])
    (use assms in \<open>auto simp: nested_states_def bindr_eq_Inr sm_write_eq\<close>)

lemma setBegin_step:
  assumes "setBegin pr sm buf = Inr (st, sm', buf')" "dsm_ok sm" "progressive pr" "sm_state sm = TS_SetBegin"
  shows "waits sm buf st sm' buf' \<or> step_to sm buf st sm' buf'"
  using assms(1) unfolding setBegin_def
  by (rule container_step [OF _ progressiveD(11)])
    (use assms in \<open>auto simp: nested_states_def bindr_eq_Inr sm_write_eq\<close>)

lemma mapBegin_step:
  assumes "mapBegin pr sm buf = Inr (st, sm', buf')" "dsm_ok sm" "progressive pr" "sm_state sm = TS_MapBegin"
  shows "waits sm buf st sm' buf' \<or> step_to sm buf st sm' buf'"
  using assms(1) unfolding mapBegin_def
  by (rule container_step [OF _ progressiveD(7)])
    (use assms in \<open>auto simp: nested_states_def bindr_eq_Inr sm_write_eq\<close>)

lemma handleState_step:
  assumes "dsm_handleState pr sm buf = Inr (st, sm', buf')" "dsm_ok sm" "progressive pr"
  shows "waits sm buf st sm' buf' \<or> step_to sm buf st sm' buf'"
proof (cases "sm_state sm")
  case TS_ListEnd
  with assms(1) have "sm_read (readListEnd pr) (\<lambda>_ sm. bindr (sm_write (writeListEnd pr) sm) popReturnState) sm buf
      = Inr (st, sm', buf')" by (simp add: dsm_handleState_def listEnd_def)
  then show ?thesis by (rule end_step) (use assms TS_ListEnd in \<open>auto simp: nested_states_def progressiveD\<close>)
next
  case TS_SetEnd
  with assms(1) have "sm_read (readSetEnd pr) (\<lambda>_ sm. bindr (sm_write (writeSetEnd pr) sm) popReturnState) sm buf
      = Inr (st, sm', buf')" by (simp add: dsm_handleState_def setEnd_def)
  then show ?thesis by (rule end_step) (use assms TS_SetEnd in \<open>auto simp: nested_states_def progressiveD\<close>)
next
  case TS_MapEnd
  with assms(1) have "sm_read (readMapEnd pr) (\<lambda>_ sm. bindr (sm_write (writeMapEnd pr) sm) popReturnState) sm buf
      = Inr (st, sm', buf')" by (simp add: dsm_handleState_def mapEnd_def)
  then show ?thesis by (rule end_step) (use assms TS_MapEnd in \<open>auto simp: nested_states_def progressiveD\<close>)
qed (use assms in \<open>simp_all add: dsm_handleState_def passthroughData_step messageEnd_step structBegin_step
    structEnd_step fieldBegin_step fieldValue_step fieldEnd_step listBegin_step listValue_step mapBegin_step
    mapKey_step mapValue_step setBegin_step setValue_step\<close>, use messageBegin_step in blast)

text \<open>
  The loop from a state that agrees with its stack: it returns, waiting for data or done, in such a
  state again, and never with more bytes than it had.
\<close>

lemma dsm_run_step:
  assumes "dsm_handleState pr sm buf = Inr (st, sm', buf')" "sm_state sm \<noteq> TS_Done" "st \<noteq> TS_WaitForData"
  shows "dsm_run pr sm buf = dsm_run pr (sm'\<lparr>sm_state := st\<rparr>) buf'"
  using assms by (subst dsm_run.simps) simp

lemma dsm_run_returns:
  assumes "progressive pr" "dsm_ok sm"
  shows "\<exists>r. dsm_run pr sm buf = Some r"
  using assms(2)
proof (induction "(sm, buf)" arbitrary: sm buf rule: wf_induct_rule [OF wf_dsm_order])
  case 1
  show ?case
  proof (cases "sm_state sm = TS_Done")
    case True
    then show ?thesis by (subst dsm_run.simps) simp
  next
    case False
    show ?thesis
    proof (cases "dsm_handleState pr sm buf")
      case (Inl e)
      with False show ?thesis by (subst dsm_run.simps) simp
    next
      case (Inr r)
      obtain st sm' buf' where r: "r = (st, sm', buf')" by (cases r)
      with handleState_step [of pr sm buf st sm' buf'] Inr 1(2) assms(1)
      consider "st = TS_WaitForData" | "step_to sm buf st sm' buf'" by (auto simp: waits_def)
      then show ?thesis
      proof cases
        case 1
        with Inr r False show ?thesis by (subst dsm_run.simps) simp
      next
        case 2
        then have "\<exists>r. dsm_run pr (sm'\<lparr>sm_state := st\<rparr>) buf' = Some r"
          by (intro "1.hyps") (auto simp: step_to_def)
        with Inr r False 2 show ?thesis by (subst dsm_run.simps) (simp add: step_to_def)
      qed
    qed
  qed
qed

lemma step_to_length: "step_to sm buf st sm' buf' \<Longrightarrow> length buf' \<le> length buf"
  by (auto simp: step_to_def dsm_order_def)

text \<open>Induction over the steps of a run that returned.\<close>

lemma dsm_run_induct [consumes 1, case_names stop throw wait step]:
  assumes "dsm_run pr sm buf = Some r"
    and "\<And>sm buf. sm_state sm = TS_Done \<Longrightarrow> P sm buf (Inr (TS_Done, sm, buf))"
    and "\<And>sm buf e. sm_state sm \<noteq> TS_Done \<Longrightarrow> dsm_handleState pr sm buf = Inl e \<Longrightarrow> P sm buf (Inl e)"
    and "\<And>sm buf sm' buf'. sm_state sm \<noteq> TS_Done \<Longrightarrow> dsm_handleState pr sm buf = Inr (TS_WaitForData, sm', buf') \<Longrightarrow>
      P sm buf (Inr (TS_WaitForData, sm', buf'))"
    and "\<And>sm buf st sm' buf' r. sm_state sm \<noteq> TS_Done \<Longrightarrow> dsm_handleState pr sm buf = Inr (st, sm', buf') \<Longrightarrow>
      st \<noteq> TS_WaitForData \<Longrightarrow> dsm_run pr (sm'\<lparr>sm_state := st\<rparr>) buf' = Some r \<Longrightarrow>
      P (sm'\<lparr>sm_state := st\<rparr>) buf' r \<Longrightarrow> P sm buf r"
  shows "P sm buf r"
proof -
  let ?Q = "\<lambda>q sm buf r. q = pr \<longrightarrow> P sm buf r \<and> dsm_run pr sm buf = Some r"
  have "?Q pr sm buf r"
    using assms(1)
  proof (rule dsm_run.raw_induct [where P = ?Q, rotated])
    fix f q sm buf r
    assume IH: "\<And>q sm buf r. f q sm buf = Some r \<Longrightarrow> ?Q q sm buf r"
      and body: "(if sm_state sm = TS_Done then Some (Inr (TS_Done, sm, buf))
        else case dsm_handleState q sm buf of Inl e \<Rightarrow> Some (Inl e)
          | Inr (nextState, sm', buf') \<Rightarrow> if nextState = TS_WaitForData then Some (Inr (TS_WaitForData, sm', buf'))
              else f q (sm'\<lparr>sm_state := nextState\<rparr>) buf') = Some r"
    show "?Q q sm buf r"
    proof
      assume q: "q = pr"
      show "P sm buf r \<and> dsm_run pr sm buf = Some r"
      proof (cases "sm_state sm = TS_Done")
        case True
        with body assms(2) show ?thesis by (subst dsm_run.simps) auto
      next
        case False
        show ?thesis
        proof (cases "dsm_handleState pr sm buf")
          case (Inl e)
          with body q False assms(3) show ?thesis by (subst dsm_run.simps) auto
        next
          case (Inr x)
          obtain st sm' buf' where x: "x = (st, sm', buf')" by (cases x)
          show ?thesis
          proof (cases "st = TS_WaitForData")
            case True
            with body q False Inr x assms(4) show ?thesis by (subst dsm_run.simps) auto
          next
            case cont: False
            with body q False Inr x have "f pr (sm'\<lparr>sm_state := st\<rparr>) buf' = Some r" by simp
            from IH [OF this] have "P (sm'\<lparr>sm_state := st\<rparr>) buf' r" "dsm_run pr (sm'\<lparr>sm_state := st\<rparr>) buf' = Some r"
              by simp_all
            with False Inr x cont assms(5) [of sm buf st sm' buf' r] show ?thesis by (subst dsm_run.simps) simp
          qed
        qed
      qed
    qed
  qed
  then show ?thesis by simp
qed

lemma dsm_run_ok:
  assumes "dsm_run pr sm buf = Some (Inr (st, sm', buf'))" "progressive pr" "dsm_ok sm"
  shows "dsm_ok sm' \<and> (st = TS_WaitForData \<and> sm_state sm' \<noteq> TS_Done \<or> st = TS_Done \<and> sm_state sm' = TS_Done) \<and>
    length buf' \<le> length buf"
proof -
  have "case r of Inl e \<Rightarrow> True | Inr (st, sm', buf') \<Rightarrow> dsm_ok sm' \<and>
      (st = TS_WaitForData \<and> sm_state sm' \<noteq> TS_Done \<or> st = TS_Done \<and> sm_state sm' = TS_Done) \<and> length buf' \<le> length buf"
    if "dsm_run pr sm buf = Some r" "dsm_ok sm" for r
    using that
  proof (induction rule: dsm_run_induct)
    case (wait sm buf sm' buf')
    with handleState_step [OF wait(2,3) assms(2)] show ?case
      by (auto simp: waits_def step_to_def dsm_ok_def)
  next
    case (step sm buf st sm' buf' r)
    have "step_to sm buf st sm' buf'" using handleState_step [OF step(2) step(6) assms(2)] step(3) by (simp add: waits_def)
    with step(5) step_to_length [OF this] show ?case by (auto simp: step_to_def split: sum.splits)
  qed simp_all
  from this [OF assms(1,3)] show ?thesis by simp
qed

section \<open>Reading in pieces\<close>

text \<open>
  A reader that does not depend on how the bytes arrive: what it read, or refused, it reads or refuses
  also when more bytes follow, and after asking for more data it goes on as if it had not been asked before.
\<close>

definition incremental :: "('p, 'a) reader \<Rightarrow> bool" where
  "incremental rd \<longleftrightarrow> (\<forall>p b ext.
     (\<forall>e. rd p b = Inl e \<longrightarrow> rd p (b @ ext) = Inl e) \<and>
     (\<forall>p'. rd p b = Inr (None, p') \<longrightarrow> rd p' (b @ ext) = rd p (b @ ext)) \<and>
     (\<forall>v b' p'. rd p b = Inr (Some (v, b'), p') \<longrightarrow> rd p (b @ ext) = Inr (Some (v, b' @ ext), p')))"

lemma incrementalD:
  assumes "incremental rd"
  shows "rd p b = Inl e \<Longrightarrow> rd p (b @ ext) = Inl e"
    "rd p b = Inr (None, p') \<Longrightarrow> rd p' (b @ ext) = rd p (b @ ext)"
    "rd p b = Inr (Some (v, b'), p') \<Longrightarrow> rd p (b @ ext) = Inr (Some (v, b' @ ext), p')"
  using assms unfolding incremental_def by blast+

definition incremental_protocol :: "'p thrift_protocol \<Rightarrow> bool" where
  "incremental_protocol pr \<longleftrightarrow>
     (\<forall>md. incremental (readMessageBegin pr md)) \<and> incremental (readMessageEnd pr) \<and> incremental (readStructBegin pr) \<and>
     incremental (readStructEnd pr) \<and> incremental (readFieldBegin pr) \<and> incremental (readFieldEnd pr) \<and>
     incremental (readMapBegin pr) \<and> incremental (readMapEnd pr) \<and> incremental (readListBegin pr) \<and>
     incremental (readListEnd pr) \<and> incremental (readSetBegin pr) \<and> incremental (readSetEnd pr) \<and>
     incremental (readBool pr) \<and> incremental (readByte pr) \<and> incremental (readInt16 pr) \<and> incremental (readInt32 pr) \<and>
     incremental (readInt64 pr) \<and> incremental (readDouble pr) \<and> incremental (readString pr)"

text \<open>The same of a handler, in a given state of the machine.\<close>

definition resumes :: "'p handler \<Rightarrow> 'p dsm \<Rightarrow> bool" where
  "resumes h sm \<longleftrightarrow> (\<forall>buf ext.
     (\<forall>e. h sm buf = Inl e \<longrightarrow> h sm (buf @ ext) = Inl e) \<and>
     (\<forall>st sm' buf'. h sm buf = Inr (st, sm', buf') \<longrightarrow>
        (if st = TS_WaitForData then h sm' (buf' @ ext) = h sm (buf @ ext)
         else h sm (buf @ ext) = Inr (st, sm', buf' @ ext))))"

lemma resumesI:
  assumes "\<And>buf ext e. h sm buf = Inl e \<Longrightarrow> h sm (buf @ ext) = Inl e"
    and "\<And>buf ext sm' buf'. h sm buf = Inr (TS_WaitForData, sm', buf') \<Longrightarrow> h sm' (buf' @ ext) = h sm (buf @ ext)"
    and "\<And>buf ext st sm' buf'. h sm buf = Inr (st, sm', buf') \<Longrightarrow> st \<noteq> TS_WaitForData \<Longrightarrow>
      h sm (buf @ ext) = Inr (st, sm', buf' @ ext)"
  shows "resumes h sm"
  using assms unfolding resumes_def by auto

lemma resumesD:
  assumes "resumes h sm"
  shows "h sm buf = Inl e \<Longrightarrow> h sm (buf @ ext) = Inl e"
    "h sm buf = Inr (TS_WaitForData, sm', buf') \<Longrightarrow> h sm' (buf' @ ext) = h sm (buf @ ext)"
    "h sm buf = Inr (st, sm', buf') \<Longrightarrow> st \<noteq> TS_WaitForData \<Longrightarrow> h sm (buf @ ext) = Inr (st, sm', buf' @ ext)"
  using assms unfolding resumes_def by auto

text \<open>What follows a read never asks for more data.\<close>

lemma resumes_read:
  assumes "incremental rd" "\<And>v p sm' st. k v (sm\<lparr>sm_proto := p\<rparr>) = Inr (st, sm') \<Longrightarrow> st \<noteq> TS_WaitForData"
  shows "resumes (sm_read rd k) sm"
proof (rule resumesI)
  fix buf ext e
  assume "sm_read rd k sm buf = Inl e"
  then show "sm_read rd k sm (buf @ ext) = Inl e"
    by (auto simp: sm_read_def bindr_eq_Inl incrementalD [OF assms(1)] split: sum.splits option.splits prod.splits)
next
  fix buf ext sm' buf'
  assume "sm_read rd k sm buf = Inr (TS_WaitForData, sm', buf')"
  then show "sm_read rd k sm' (buf' @ ext) = sm_read rd k sm (buf @ ext)"
  proof (cases rule: sm_read_cases)
    case (wait p)
    with incrementalD(2) [OF assms(1) wait(1)] show ?thesis
      by (simp add: sm_read_def split: sum.split option.split prod.split)
  next
    case (read v p)
    with assms(2) show ?thesis by blast
  qed
next
  fix buf ext st sm' buf'
  assume "sm_read rd k sm buf = Inr (st, sm', buf')" "st \<noteq> TS_WaitForData"
  then show "sm_read rd k sm (buf @ ext) = Inr (st, sm', buf' @ ext)"
  proof (cases rule: sm_read_cases)
    case (read v p)
    with incrementalD(3) [OF assms(1) read(1)] show ?thesis by (simp add: sm_read_def)
  qed simp
qed

lemma resumes_pure:
  assumes "\<And>sm' st. k sm = Inr (st, sm') \<Longrightarrow> st \<noteq> TS_WaitForData"
  shows "resumes (sm_pure k) sm"
  by (rule resumesI) (use assms in \<open>auto simp: sm_pure_def bindr_eq_Inl bindr_eq_Inr\<close>)

lemma resumes_basic: "incremental rd \<Longrightarrow> ret \<noteq> TS_WaitForData \<Longrightarrow> resumes (basic_value rd wr ret) sm"
  unfolding basic_value_def by (rule resumes_read) (auto simp: bindr_eq_Inr)

lemma resumes_throw: "resumes (\<lambda>sm buf. Inl e) sm"
  by (simp add: resumes_def)

lemma resumes_push: "st \<noteq> TS_WaitForData \<Longrightarrow> resumes (sm_pure (\<lambda>sm. Inr (st, g sm))) sm"
  by (rule resumes_pure) simp

lemma resumes_handleValue:
  "incremental_protocol pr \<Longrightarrow> ret \<noteq> TS_WaitForData \<Longrightarrow> resumes (handleValue pr ty ret) sm"
  unfolding handleValue_def incremental_protocol_def
  by (cases ty) (simp_all add: resumes_basic resumes_push resumes_throw)

lemma return_not_wait:
  assumes "dsm_ok sm" "sm_stack sm = fr # s" "sm_state sm \<notin> {TS_PassthroughData, TS_MessageEnd, TS_Done}"
  shows "fr_return_state fr \<noteq> TS_WaitForData"
  using assms by (auto simp: dsm_ok_def return_states_def)

lemma handleValue_wait:
  assumes "handleValue pr ty ret sm buf = Inr (TS_WaitForData, sm', buf')" "progressive pr" "ret \<noteq> TS_WaitForData"
  obtains p where "sm' = sm\<lparr>sm_proto := p\<rparr>" "buf' = buf"
  using assms(1,2) by (cases rule: handleValue_cases) (use assms(3) that container_state_nested in blast)+

lemma resumes_element:
  assumes "incremental_protocol pr" "progressive pr" "ret \<noteq> TS_WaitForData"
  shows "resumes (\<lambda>sm buf. counted (length (sm_stack sm) - 1) (handleValue pr ty ret sm buf)) sm"
proof (rule resumesI)
  note r = resumesD [OF resumes_handleValue [OF assms(1,3)]]
  fix buf ext e
  assume "counted (length (sm_stack sm) - 1) (handleValue pr ty ret sm buf) = Inl e"
  then show "counted (length (sm_stack sm) - 1) (handleValue pr ty ret sm (buf @ ext)) = Inl e"
    by (auto simp: counted_def bindr_eq_Inl r(1))
next
  note r = resumesD [OF resumes_handleValue [OF assms(1,3)]]
  fix buf ext sm' buf'
  assume "counted (length (sm_stack sm) - 1) (handleValue pr ty ret sm buf) = Inr (TS_WaitForData, sm', buf')"
  then have w: "handleValue pr ty ret sm buf = Inr (TS_WaitForData, sm', buf')" by (elim counted_Inr) simp
  from w assms(2,3) obtain p where "sm' = sm\<lparr>sm_proto := p\<rparr>" by (rule handleValue_wait)
  then show "counted (length (sm_stack sm') - 1) (handleValue pr ty ret sm' (buf' @ ext)) =
      counted (length (sm_stack sm) - 1) (handleValue pr ty ret sm (buf @ ext))"
    using r(2) [OF w] by simp
next
  note r = resumesD [OF resumes_handleValue [OF assms(1,3)]]
  fix buf ext st sm' buf'
  assume c: "counted (length (sm_stack sm) - 1) (handleValue pr ty ret sm buf) = Inr (st, sm', buf')" "st \<noteq> TS_WaitForData"
  from c(1) obtain sm1 where "handleValue pr ty ret sm buf = Inr (st, sm1, buf')"
    "sm' = (if st \<noteq> TS_WaitForData then dec_remaining (length (sm_stack sm) - 1) sm1 else sm1)" by (rule counted_Inr)
  with r(3) c(2) show "counted (length (sm_stack sm) - 1) (handleValue pr ty ret sm (buf @ ext)) = Inr (st, sm', buf' @ ext)"
    by (simp add: counted_def)
qed

text \<open>A handler that looks at the last frame: waiting leaves the stack as it is.\<close>

lemma resumes_back:
  assumes "\<And>fr s. sm_stack sm = fr # s \<Longrightarrow> resumes (f fr) sm"
    and "\<And>fr s buf sm' buf'. sm_stack sm = fr # s \<Longrightarrow> f fr sm buf = Inr (TS_WaitForData, sm', buf') \<Longrightarrow> sm_stack sm' = sm_stack sm"
  shows "resumes (back_frame f) sm"
proof (cases "sm_stack sm")
  case Nil
  then show ?thesis by (simp add: resumes_def back_frame_def)
next
  case (Cons fr s)
  note r = resumesD [OF assms(1) [OF Cons]]
  show ?thesis
  proof (rule resumesI)
    fix buf ext sm' buf'
    assume "back_frame f sm buf = Inr (TS_WaitForData, sm', buf')"
    with Cons have w: "f fr sm buf = Inr (TS_WaitForData, sm', buf')" by (simp add: back_frame_def)
    from r(2) [OF w] assms(2) [OF Cons w] Cons show "back_frame f sm' (buf' @ ext) = back_frame f sm (buf @ ext)"
      by (simp add: back_frame_def)
  qed (use Cons r(1,3) in \<open>simp_all add: back_frame_def\<close>)
qed

lemma pop_not_wait:
  assumes "dsm_ok sm" "sm_state sm \<notin> {TS_PassthroughData, TS_MessageEnd, TS_Done}"
    and "popReturnState sm1 = Inr (st, sm')" "sm_stack sm1 = sm_stack sm"
  shows "st \<noteq> TS_WaitForData"
  using assms by (auto simp: popReturnState_Inr dest: return_not_wait)

lemma resumes_pop:
  assumes "dsm_ok sm" "sm_state sm \<notin> {TS_PassthroughData, TS_MessageEnd, TS_Done}"
  shows "resumes (sm_pure popReturnState) sm"
  by (rule resumes_pure) (use pop_not_wait [OF assms] in blast)

lemma counted_wait: "counted index r = Inr (TS_WaitForData, sm', buf') \<longleftrightarrow> r = Inr (TS_WaitForData, sm', buf')"
  by (auto simp: counted_def bindr_eq_Inr)

lemma resumes_elements:
  assumes "incremental_protocol pr" "progressive pr" "ret \<noteq> TS_WaitForData"
    and "dsm_ok sm" "sm_state sm \<notin> {TS_PassthroughData, TS_MessageEnd, TS_Done}"
  shows "resumes (back_frame (\<lambda>fr sm buf.
     let index = length (sm_stack sm) - 1 in
     if fr_remaining fr = 0 then sm_pure popReturnState sm buf
     else counted index (handleValue pr (fr_elem_type fr) ret sm buf))) sm"
proof (rule resumes_back)
  fix fr s
  assume s: "sm_stack sm = fr # s"
  show "resumes (\<lambda>sm buf. let index = length (sm_stack sm) - 1 in
     if fr_remaining fr = 0 then sm_pure popReturnState sm buf
     else counted index (handleValue pr (fr_elem_type fr) ret sm buf)) sm"
    using resumes_element [OF assms(1-3), of "fr_elem_type fr" sm] resumes_pop [OF assms(4,5)]
    by (cases "fr_remaining fr = 0") simp_all
next
  fix fr s buf sm' buf'
  assume s: "sm_stack sm = fr # s" and w: "(let index = length (sm_stack sm) - 1 in
     if fr_remaining fr = 0 then sm_pure popReturnState sm buf
     else counted index (handleValue pr (fr_elem_type fr) ret sm buf)) = Inr (TS_WaitForData, sm', buf')"
  show "sm_stack sm' = sm_stack sm"
  proof (cases "fr_remaining fr = 0")
    case True
    with w have "popReturnState sm = Inr (TS_WaitForData, sm')" by (auto simp: sm_pure_def bindr_eq_Inr)
    from pop_not_wait [OF assms(4,5) this refl] show ?thesis by simp
  next
    case False
    with w have "handleValue pr (fr_elem_type fr) ret sm buf = Inr (TS_WaitForData, sm', buf')"
      by (simp add: Let_def counted_wait)
    with assms(2,3) obtain p where "sm' = sm\<lparr>sm_proto := p\<rparr>" by (blast elim: handleValue_wait)
    then show ?thesis by simp
  qed
qed

lemma resumes_mapValue:
  assumes "incremental_protocol pr" "progressive pr"
  shows "resumes (mapValue pr) sm"
  unfolding mapValue_def
proof (rule resumes_back)
  fix fr s buf sm' buf'
  assume "(let index = length (sm_stack sm) - 1
     in counted index (handleValue pr (fr_value_type fr) TS_MapKey sm buf)) = Inr (TS_WaitForData, sm', buf')"
  then have "handleValue pr (fr_value_type fr) TS_MapKey sm buf = Inr (TS_WaitForData, sm', buf')" by (simp add: Let_def counted_wait)
  with assms(2) obtain p where "sm' = sm\<lparr>sm_proto := p\<rparr>" by (blast elim: handleValue_wait)
  then show "sm_stack sm' = sm_stack sm" by simp
qed (use resumes_element [OF assms] in simp)

lemma resumes_mapKey:
  assumes "incremental_protocol pr" "progressive pr" "dsm_ok sm" "sm_state sm = TS_MapKey"
  shows "resumes (mapKey pr) sm"
  unfolding mapKey_def
proof (rule resumes_back)
  fix fr s
  show "resumes (\<lambda>sm buf. if fr_remaining fr = 0 then sm_pure popReturnState sm buf
      else handleValue pr (fr_elem_type fr) TS_MapValue sm buf) sm"
    using resumes_handleValue [OF assms(1)] resumes_pop [OF assms(3)] assms(4)
    by (cases "fr_remaining fr = 0") simp_all
next
  fix fr s buf sm' buf'
  assume w: "(if fr_remaining fr = 0 then sm_pure popReturnState sm buf
      else handleValue pr (fr_elem_type fr) TS_MapValue sm buf) = Inr (TS_WaitForData, sm', buf')"
  show "sm_stack sm' = sm_stack sm"
  proof (cases "fr_remaining fr = 0")
    case True
    with w have "popReturnState sm = Inr (TS_WaitForData, sm')" by (auto simp: sm_pure_def bindr_eq_Inr)
    from pop_not_wait [OF assms(3) _ this refl] assms(4) show ?thesis by simp
  next
    case False
    with w have "handleValue pr (fr_elem_type fr) TS_MapValue sm buf = Inr (TS_WaitForData, sm', buf')" by simp
    with assms(2) obtain p where "sm' = sm\<lparr>sm_proto := p\<rparr>" by (blast elim: handleValue_wait)
    then show ?thesis by simp
  qed
qed

lemma resumes_fieldValue:
  assumes "incremental_protocol pr" "progressive pr" "dsm_ok sm" "sm_state sm = TS_FieldValue"
  shows "resumes (fieldValue pr) sm"
  unfolding fieldValue_def
proof (rule resumes_back)
  fix fr s
  assume "sm_stack sm = fr # s"
  then have ret: "fr_return_state fr \<noteq> TS_WaitForData" using assms(3,4) by (simp add: return_not_wait)
  then show "resumes (handleValue pr (fr_elem_type fr) (fr_return_state fr)) sm" by (rule resumes_handleValue [OF assms(1)])
  fix buf sm' buf'
  assume "handleValue pr (fr_elem_type fr) (fr_return_state fr) sm buf = Inr (TS_WaitForData, sm', buf')"
  with assms(2) ret obtain p where "sm' = sm\<lparr>sm_proto := p\<rparr>" by (blast elim: handleValue_wait)
  then show "sm_stack sm' = sm_stack sm" by simp
qed

lemma resumes_messageBegin:
  assumes "incremental_protocol pr"
  shows "resumes (messageBegin pr) sm"
proof -
  let ?rd = "readMessageBegin pr (sm_metadata sm)"
  have inc: "incremental (readMessageBegin pr md)" for md using assms by (simp add: incremental_protocol_def)
  have ext: "(\<forall>e. messageBegin pr sm buf = Inl e \<longrightarrow> messageBegin pr sm (buf @ ext) = Inl e) \<and>
     (\<forall>st sm' buf'. messageBegin pr sm buf = Inr (st, sm', buf') \<longrightarrow>
        (if st = TS_WaitForData then messageBegin pr sm' (buf' @ ext) = messageBegin pr sm (buf @ ext)
         else messageBegin pr sm (buf @ ext) = Inr (st, sm', buf' @ ext)))" for buf ext
  proof (cases "?rd (sm_proto sm) buf")
    case (Inl e)
    then show ?thesis using incrementalD(1) [OF inc Inl] by (simp add: messageBegin_def)
  next
    case (Inr r)
    obtain o1 p where r: "r = (o1, p)" by (cases r)
    show ?thesis
    proof (cases o1)
      case None
      with Inr r have "?rd p (buf @ ext) = ?rd (sm_proto sm) (buf @ ext)" using incrementalD(2) [OF inc] by blast
      then show ?thesis using Inr r None by (simp add: messageBegin_def split: sum.split option.split prod.split)
    next
      case (Some x)
      obtain md buf' where x: "x = (md, buf')" by (cases x)
      from Inr r Some x have "?rd (sm_proto sm) (buf @ ext) = Inr (Some (md, buf' @ ext), p)"
        using incrementalD(3) [OF inc] by blast
      then show ?thesis using Inr r Some x
        by (auto simp: messageBegin_def Let_def bindr_eq_Inl bindr_eq_Inr)
    qed
  qed
  then show ?thesis unfolding resumes_def by blast
qed

lemma resumes_passthroughData: "resumes passthroughData sm"
  by (rule resumesI) (auto simp: passthroughData_def Let_def split: if_splits)

lemma resumes_ends:
  assumes "incremental rd" "dsm_ok sm" "sm_state sm \<notin> {TS_PassthroughData, TS_MessageEnd, TS_Done}"
  shows "resumes (sm_read rd (\<lambda>_ sm. bindr (sm_write wr sm) popReturnState)) sm"
proof (rule resumes_read [OF assms(1)])
  fix p sm' st
  assume "bindr (sm_write wr (sm\<lparr>sm_proto := p\<rparr>)) popReturnState = Inr (st, sm')"
  then obtain sm1 where "popReturnState sm1 = Inr (st, sm')" "sm_stack sm1 = sm_stack sm"
    by (auto simp: bindr_eq_Inr dest!: sm_write_stack)
  with assms(2,3) show "st \<noteq> TS_WaitForData" by (rule pop_not_wait)
qed

lemma resumes_structEnd:
  assumes "incremental_protocol pr" "dsm_ok sm" "sm_state sm = TS_StructEnd"
  shows "resumes (structEnd pr) sm"
  unfolding structEnd_def
proof (rule resumes_read)
  show "incremental (readStructEnd pr)" using assms(1) by (simp add: incremental_protocol_def)
  fix p sm' st
  assume "bindr (sm_write (writeFieldBegin pr [] FT_Stop 0) (sm\<lparr>sm_proto := p\<rparr>)) (\<lambda>sm.
      bindr (sm_write (writeStructEnd pr) sm) popReturnState) = Inr (st, sm')"
  then obtain sm1 where "popReturnState sm1 = Inr (st, sm')" "sm_stack sm1 = sm_stack sm"
    by (auto simp: bindr_eq_Inr dest!: sm_write_stack)
  with assms(2,3) show "st \<noteq> TS_WaitForData" by (intro pop_not_wait [of sm sm1 st sm']) simp_all
qed

lemma resumes_headers:
  assumes "incremental_protocol pr"
  shows "resumes (messageEnd pr) sm" "resumes (structBegin pr) sm" "resumes (fieldBegin pr) sm" "resumes (fieldEnd pr) sm"
    "resumes (listBegin pr) sm" "resumes (mapBegin pr) sm" "resumes (setBegin pr) sm"
  using assms unfolding messageEnd_def structBegin_def fieldBegin_def fieldEnd_def listBegin_def mapBegin_def setBegin_def
    incremental_protocol_def
  by (auto intro!: resumes_read simp: bindr_eq_Inr split: if_splits prod.splits)

lemma resumes_handler:
  assumes "resumes h sm" "\<And>sm' buf. sm_state sm' = sm_state sm \<Longrightarrow> dsm_handleState pr sm' buf = h sm' buf"
    and "\<And>buf sm' buf'. h sm buf = Inr (TS_WaitForData, sm', buf') \<Longrightarrow> sm_state sm' = sm_state sm"
  shows "resumes (dsm_handleState pr) sm"
  by (rule resumesI) (simp_all add: assms(2,3) resumesD [OF assms(1)])

lemma handleState_wait:
  assumes "dsm_handleState pr sm buf = Inr (TS_WaitForData, sm', buf')" "dsm_ok sm" "progressive pr"
  shows "\<exists>p. sm' = sm\<lparr>sm_proto := p\<rparr>" "buf' = buf"
  using handleState_step [OF assms] by (auto simp: waits_def step_to_def)

lemma resumes_handleState:
  assumes "incremental_protocol pr" "progressive pr" "dsm_ok sm" "sm_state sm \<noteq> TS_Done"
  shows "resumes (dsm_handleState pr) sm"
proof -
  define h where "h = (case sm_state sm of
        TS_PassthroughData \<Rightarrow> passthroughData | TS_MessageBegin \<Rightarrow> messageBegin pr | TS_StructBegin \<Rightarrow> structBegin pr
      | TS_StructEnd \<Rightarrow> structEnd pr | TS_FieldBegin \<Rightarrow> fieldBegin pr | TS_FieldValue \<Rightarrow> fieldValue pr
      | TS_FieldEnd \<Rightarrow> fieldEnd pr | TS_ListBegin \<Rightarrow> listBegin pr | TS_ListValue \<Rightarrow> listValue pr | TS_ListEnd \<Rightarrow> listEnd pr
      | TS_MapBegin \<Rightarrow> mapBegin pr | TS_MapKey \<Rightarrow> mapKey pr | TS_MapValue \<Rightarrow> mapValue pr | TS_MapEnd \<Rightarrow> mapEnd pr
      | TS_SetBegin \<Rightarrow> setBegin pr | TS_SetValue \<Rightarrow> setValue pr | TS_SetEnd \<Rightarrow> setEnd pr | TS_MessageEnd \<Rightarrow> messageEnd pr
      | _ \<Rightarrow> (\<lambda>sm buf. Inl (Panic ''not reachec'')))"
  have h: "dsm_handleState pr sm' buf = h sm' buf" if "sm_state sm' = sm_state sm" for sm' buf
    using that by (cases "sm_state sm") (simp_all add: h_def dsm_handleState_def)
  have elements: "resumes (listValue pr) sm" if "sm_state sm = TS_ListValue"
    unfolding listValue_def by (rule resumes_elements [OF assms(1,2) _ assms(3)]) (simp_all add: that)
  have elements': "resumes (setValue pr) sm" if "sm_state sm = TS_SetValue"
    unfolding setValue_def by (rule resumes_elements [OF assms(1,2) _ assms(3)]) (simp_all add: that)
  have inc: "incremental (readListEnd pr)" "incremental (readMapEnd pr)" "incremental (readSetEnd pr)"
    using assms(1) by (simp_all add: incremental_protocol_def)
  have "resumes h sm"
    using assms(3,4)
    by (cases "sm_state sm")
      (simp_all add: h_def resumes_passthroughData resumes_messageBegin resumes_headers resumes_structEnd resumes_fieldValue
        resumes_mapKey resumes_mapValue elements elements' listEnd_def mapEnd_def setEnd_def
        resumes_ends inc assms(1,2) resumes_throw)
  then show ?thesis
  proof (rule resumes_handler [OF _ h])
    fix buf sm' buf'
    assume "h sm buf = Inr (TS_WaitForData, sm', buf')"
    then have "dsm_handleState pr sm buf = Inr (TS_WaitForData, sm', buf')" by (simp add: h)
    from handleState_wait(1) [OF this assms(3,2)] show "sm_state sm' = sm_state sm" by auto
  qed simp_all
qed

text \<open>Running the machine on the bytes in two pieces, or on all of them.\<close>

lemma dsm_run_append:
  assumes "dsm_run pr sm buf = Some r" "incremental_protocol pr" "progressive pr" "dsm_ok sm"
  shows "dsm_run pr sm (buf @ ext) =
    (case r of
       Inl e \<Rightarrow> Some (Inl e)
     | Inr (st, sm', buf') \<Rightarrow> if st = TS_WaitForData then dsm_run pr sm' (buf' @ ext) else Some (Inr (st, sm', buf' @ ext)))"
  using assms(1,4)
proof (induction rule: dsm_run_induct)
  case (stop sm buf)
  then show ?case by (subst dsm_run.simps) simp
next
  case (throw sm buf e)
  from resumesD(1) [OF resumes_handleState [OF assms(2,3) throw(3,1)] throw(2)] throw(1)
  show ?case by (subst dsm_run.simps) simp
next
  case (wait sm buf sm' buf')
  note r = resumesD(2) [OF resumes_handleState [OF assms(2,3) wait(3,1)] wait(2), of ext]
  from handleState_wait(1) [OF wait(2,3) assms(3)] have "sm_state sm' \<noteq> TS_Done" using wait(1) by auto
  with wait(1) r show ?case by (subst (1 2) dsm_run.simps) simp
next
  case (step sm buf st sm' buf' r)
  note h = resumesD(3) [OF resumes_handleState [OF assms(2,3) step(6,1)] step(2,3), of ext]
  have "dsm_ok (sm'\<lparr>sm_state := st\<rparr>)"
    using handleState_step [OF step(2,6) assms(3)] step(3) by (auto simp: waits_def step_to_def)
  from step(5) [OF this] dsm_run_step [OF h step(1,3)] show ?case by simp
qed

end
