(* ===== verification/Thrift.thy ===== *)
theory Thrift
  imports Thrift_Machine Decoder
begin

text \<open>
  The Thrift codec (\<^verbatim>\<open>ThriftCodec\<close> in \<^verbatim>\<open>thrift_codec.cc\<close>) over a transport and a
  protocol.  Its fields \<^verbatim>\<open>protocol_\<close> and \<^verbatim>\<open>metadata_\<close>, which the state machine refers
  to, are stored back after the machine ran.
\<close>

section \<open>State\<close>

record ('t, 'p) thrift_codec =
  tc_transport :: 't
  tc_protocol :: 'p
  tc_metadata :: "msg_metadata option"
  tc_state_machine :: "'p dsm option"
  tc_frame_started :: bool
  tc_frame_ended :: bool

definition new_ThriftCodec :: "'t \<Rightarrow> 'p \<Rightarrow> ('t, 'p) thrift_codec" where
  "new_ThriftCodec t p = \<lparr>tc_transport = t, tc_protocol = p, tc_metadata = None, tc_state_machine = None,
     tc_frame_started = False, tc_frame_ended = False\<rparr>"

definition thrift_complete :: "('t, 'p) thrift_codec \<Rightarrow> ('t, 'p) thrift_codec" where
  "thrift_complete c = c\<lparr>tc_state_machine := None, tc_frame_started := False, tc_frame_ended := False\<rparr>"

section \<open>Decoding\<close>

definition negotiate_protocol ::
  "'p thrift_protocol \<Rightarrow> msg_metadata \<Rightarrow> ('t, 'p) thrift_codec \<Rightarrow> ('t, 'p) thrift_codec res" where
  "negotiate_protocol pr md c =
     (case mm_proto md of
        None \<Rightarrow> Inr c
      | Some ty \<Rightarrow>
          if pr_type pr (tc_protocol c) = Protocol_Auto then Inr (c\<lparr>tc_protocol := pr_setType pr ty (tc_protocol c)\<rparr>)
          else if ty \<noteq> pr_type pr (tc_protocol c) then
            Inl (EnvoyException (''transport reports protocol '' @ ProtocolNames_fromType ty @ '', but configured for ''
                   @ ProtocolNames_fromType (pr_type pr (tc_protocol c))))
          else Inr c)"

text \<open>The start of a frame; False when more data is needed.\<close>

definition thrift_frame_start ::
  "'t thrift_transport \<Rightarrow> 'p thrift_protocol \<Rightarrow> ('t, 'p) thrift_codec \<Rightarrow> buffer
   \<Rightarrow> (bool \<times> ('t, 'p) thrift_codec \<times> buffer) res" where
  "thrift_frame_start tr pr c buf =
     (let md = (case tc_metadata c of None \<Rightarrow> new_msg_metadata | Some md \<Rightarrow> md) in
      case decodeFrameStart tr md (tc_transport c) buf of
        Inl e \<Rightarrow> Inl e
      | Inr (None, t) \<Rightarrow> Inr (False, c\<lparr>tc_metadata := Some md, tc_transport := t\<rparr>, buf)
      | Inr (Some (md1, buf1), t) \<Rightarrow>
          bindr (negotiate_protocol pr md1 (c\<lparr>tc_metadata := Some md1, tc_transport := t\<rparr>)) (\<lambda>c1.
            case mm_app_ex_type md1 of
              Some ex_type \<Rightarrow> bindr (opt_value (mm_app_ex_msg md1)) (\<lambda>ex_msg.
                Inl (EnvoyException (''thrift AppException: type: '' @ show_nat (app_exception_number ex_type)
                       @ '', message: '' @ ex_msg)))
            | None \<Rightarrow> Inr (True, c1\<lparr>tc_frame_started := True,
                               tc_state_machine := Some (new_dsm (tc_protocol c1) md1)\<rparr>, buf1)))"

fun of_thrift_message_type :: "thrift_message_type \<Rightarrow> message_type" where
  "of_thrift_message_type Call = Request"
| "of_thrift_message_type Reply = Response"
| "of_thrift_message_type T_Oneway = Oneway"
| "of_thrift_message_type Exception = MT_Error"

definition thrift_toMetadata ::
  "'t thrift_transport \<Rightarrow> msg_metadata \<Rightarrow> buffer \<Rightarrow> 't \<Rightarrow> 'x metadata \<Rightarrow> ('x metadata \<times> 't) res" where
  "thrift_toMetadata tr mm origin t md =
     (let md1 = (case mm_method_name mm of None \<Rightarrow> md | Some n \<Rightarrow> putString ''method'' n md);
          md2 = (case mm_seq_id mm of None \<Rightarrow> md1 | Some i \<Rightarrow> md1\<lparr>md_request_id := scast i\<rparr>)
      in bindr (opt_value (mm_msg_type mm)) (\<lambda>ty.
           let md3 = md2\<lparr>md_message_type := of_thrift_message_type ty\<rparr> in
           bindr (encodeFrame tr mm origin t) (\<lambda>(b, t').
             Inr (md3\<lparr>md_origin_message := md_origin_message md3 @ b\<rparr>, t'))))"

text \<open>The end of the frame, once the state machine is done.\<close>

definition thrift_frame_end ::
  "'t thrift_transport \<Rightarrow> ('t, 'p) thrift_codec \<Rightarrow> 'p dsm \<Rightarrow> buffer \<Rightarrow> 'x metadata
   \<Rightarrow> (decode_status \<times> ('t, 'p) thrift_codec \<times> buffer \<times> 'x metadata) res" where
  "thrift_frame_end tr c sm buf md =
     (case decodeFrameEnd tr (tc_transport c) buf of
        Inl e \<Rightarrow> Inl e
      | Inr (None, t) \<Rightarrow> Inr (WaitForData, c\<lparr>tc_transport := t\<rparr>, buf, md)
      | Inr (Some (_, buf'), t) \<Rightarrow>
          bindr (thrift_toMetadata tr (sm_metadata sm) (sm_origin_message sm) t md) (\<lambda>(md', t').
            Inr (Done, thrift_complete (c\<lparr>tc_transport := t', tc_frame_ended := True, tc_metadata := None\<rparr>),
                 buf', md')))"

definition thrift_decode ::
  "'t thrift_transport \<Rightarrow> 'p thrift_protocol \<Rightarrow> ('t, 'p) thrift_codec \<Rightarrow> buffer \<Rightarrow> 'x metadata
   \<Rightarrow> ((decode_status \<times> ('t, 'p) thrift_codec \<times> buffer \<times> 'x metadata) res) option" where
  "thrift_decode tr pr c buf md =
     (if tc_frame_ended c then Some (Inr (Done, thrift_complete c, buf, md))
      else case (if tc_frame_started c then Inr (True, c, buf) else thrift_frame_start tr pr c buf) of
        Inl e \<Rightarrow> Some (Inl e)
      | Inr (started, c1, buf1) \<Rightarrow>
          if \<not> started then Some (Inr (WaitForData, c1, buf1, md))
          else (case tc_state_machine c1 of
            None \<Rightarrow> Some (Inl (Undefined ''state_machine_ is null''))
          | Some sm \<Rightarrow>
              (case dsm_run pr sm buf1 of
                 None \<Rightarrow> None
               | Some (Inl e) \<Rightarrow> Some (Inl e)
               | Some (Inr (rv, sm1, buf2)) \<Rightarrow>
                   let c2 = c1\<lparr>tc_protocol := sm_proto sm1, tc_metadata := Some (sm_metadata sm1),
                               tc_state_machine := Some sm1\<rparr> in
                   if rv = TS_WaitForData then Some (Inr (WaitForData, c2, buf2, md))
                   else Some (thrift_frame_end tr c2 sm1 buf2 md))))"

section \<open>Encoding\<close>

text \<open>The message passes unchanged: mutations are not applied.\<close>

definition thrift_encode :: "'x metadata \<Rightarrow> mutation \<Rightarrow> buffer \<Rightarrow> (buffer \<times> 'x metadata) res" where
  "thrift_encode md mut buf =
     (if md_message_type md \<in> {Heartbeat, Request, Response, MT_Error} then Inr (buf, md)
      else Inl (Panic ''not reachec''))"

definition thrift_toMsgMetadata :: "'x metadata \<Rightarrow> msg_metadata res" where
  "thrift_toMsgMetadata md =
     bindr (getString ''method'' md) (\<lambda>method.
       Inr (let mm = (if method \<noteq> [] then new_msg_metadata\<lparr>mm_method_name := Some method\<rparr> else new_msg_metadata)
            in mm\<lparr>mm_seq_id := Some (ucast (md_request_id md))\<rparr>))"

fun write_all :: "'p writer list \<Rightarrow> 'p writer" where
  "write_all [] p = Inr ([], p)"
| "write_all (w # ws) p = bindr (w p) (\<lambda>(b, p1). bindr (write_all ws p1) (\<lambda>(bs, p2). Inr (b @ bs, p2)))"

definition TApplicationException :: string where
  "TApplicationException = ''TApplicationException''"

definition app_exception_writes :: "'p thrift_protocol \<Rightarrow> msg_metadata \<Rightarrow> string \<Rightarrow> 'p writer list" where
  "app_exception_writes pr mm message =
     [writeMessageBegin pr mm, writeStructBegin pr TApplicationException,
      writeFieldBegin pr ''message'' FT_String 1, writeString pr message, writeFieldEnd pr,
      writeFieldBegin pr ''type'' FT_I32 2, writeInt32 pr (word_of_nat (app_exception_number InternalError)),
      writeFieldEnd pr, writeFieldBegin pr [] FT_Stop 0, writeStructEnd pr, writeMessageEnd pr]"

definition thrift_onError ::
  "'t thrift_transport \<Rightarrow> 'p thrift_protocol \<Rightarrow> 'x metadata \<Rightarrow> error \<Rightarrow> ('t, 'p) thrift_codec \<Rightarrow> buffer
   \<Rightarrow> (buffer \<times> ('t, 'p) thrift_codec) res" where
  "thrift_onError tr pr md err c buffer =
     bindr (thrift_toMsgMetadata md) (\<lambda>mm0.
       let mm1 = (if mm_method_name mm0 = None then mm0\<lparr>mm_method_name := Some []\<rparr> else mm0);
           mm2 = (if mm_seq_id mm1 = None then mm1\<lparr>mm_seq_id := Some 0\<rparr> else mm1);
           mm = mm2\<lparr>mm_msg_type := Some Exception\<rparr>
       in bindr (write_all (app_exception_writes pr mm (err_message err)) (tc_protocol c)) (\<lambda>(response_buffer, p).
            bindr (encodeFrame tr mm response_buffer (tc_transport c)) (\<lambda>(b, t).
              Inr (buffer @ b, c\<lparr>tc_protocol := p, tc_transport := t\<rparr>))))"

section \<open>The codec and its invariant\<close>

definition thrift_ready :: "('t, 'p) thrift_codec \<Rightarrow> bool" where
  "thrift_ready c \<longleftrightarrow> \<not> tc_frame_ended c \<and>
     (tc_frame_started c \<longrightarrow> (\<exists>sm. tc_state_machine c = Some sm \<and> dsm_ok sm))"

definition incremental_transport :: "'t thrift_transport \<Rightarrow> bool" where
  "incremental_transport tr \<longleftrightarrow> (\<forall>md. incremental (decodeFrameStart tr md)) \<and> incremental (decodeFrameEnd tr)"

definition progressive_transport :: "'t thrift_transport \<Rightarrow> bool" where
  "progressive_transport tr \<longleftrightarrow> (\<forall>md. no_growth (decodeFrameStart tr md)) \<and> no_growth (decodeFrameEnd tr)"

text \<open>The decoding function the decoder calls; a run that does not return has no defined outcome.\<close>

definition thrift_decode_fn ::
  "'t thrift_transport \<Rightarrow> 'p thrift_protocol \<Rightarrow> (('t, 'p) thrift_codec, 'x) decode_fn" where
  "thrift_decode_fn tr pr c buf md =
     (case thrift_decode tr pr c buf md of None \<Rightarrow> Inl (Undefined ''the loop does not return'') | Some r \<Rightarrow> r)"

text \<open>Decoding once the frame has started.\<close>

definition thrift_continue ::
  "'t thrift_transport \<Rightarrow> 'p thrift_protocol \<Rightarrow> ('t, 'p) thrift_codec \<Rightarrow> 'p dsm \<Rightarrow> buffer \<Rightarrow> 'x metadata
   \<Rightarrow> ((decode_status \<times> ('t, 'p) thrift_codec \<times> buffer \<times> 'x metadata) res) option" where
  "thrift_continue tr pr c sm buf md =
     (case dsm_run pr sm buf of
        None \<Rightarrow> None
      | Some (Inl e) \<Rightarrow> Some (Inl e)
      | Some (Inr (rv, sm1, buf2)) \<Rightarrow>
          let c2 = c\<lparr>tc_protocol := sm_proto sm1, tc_metadata := Some (sm_metadata sm1), tc_state_machine := Some sm1\<rparr> in
          if rv = TS_WaitForData then Some (Inr (WaitForData, c2, buf2, md))
          else Some (thrift_frame_end tr c2 sm1 buf2 md))"

lemma thrift_decode_started:
  "\<not> tc_frame_ended c \<Longrightarrow> tc_frame_started c \<Longrightarrow> tc_state_machine c = Some sm \<Longrightarrow>
     thrift_decode tr pr c buf md = thrift_continue tr pr c sm buf md"
  by (simp add: thrift_decode_def thrift_continue_def)

lemma thrift_frame_start_started:
  assumes "thrift_frame_start tr pr c buf = Inr (True, c1, buf1)"
  obtains sm where "tc_state_machine c1 = Some sm" "sm = new_dsm (tc_protocol c1) (sm_metadata sm)" "tc_frame_started c1"
    "tc_frame_ended c1 = tc_frame_ended c"
  using assms
  by (auto simp: thrift_frame_start_def negotiate_protocol_def Let_def bindr_eq_Inr new_dsm_def
      split: sum.splits option.splits prod.splits if_splits)

lemma thrift_decode_fresh:
  assumes "\<not> tc_frame_ended c" "\<not> tc_frame_started c"
  shows "thrift_decode tr pr c buf md =
    (case thrift_frame_start tr pr c buf of
       Inl e \<Rightarrow> Some (Inl e)
     | Inr (started, c1, buf1) \<Rightarrow>
         if started then thrift_decode tr pr c1 buf1 md else Some (Inr (WaitForData, c1, buf1, md)))"
proof (cases "thrift_frame_start tr pr c buf")
  case (Inr r)
  obtain started c1 buf1 where r: "r = (started, c1, buf1)" by (cases r)
  show ?thesis
  proof (cases started)
    case True
    with Inr r obtain sm where "tc_state_machine c1 = Some sm" "tc_frame_started c1" "tc_frame_ended c1 = tc_frame_ended c"
      by (auto elim: thrift_frame_start_started)
    with Inr r True assms show ?thesis by (simp add: thrift_decode_def)
  qed (use Inr r assms in \<open>simp add: thrift_decode_def\<close>)
qed (use assms in \<open>simp add: thrift_decode_def\<close>)

lemma dsm_ok_new [simp]: "dsm_ok (new_dsm p md)"
  by (simp add: dsm_ok_def new_dsm_def)

lemma thrift_ready_new [simp]: "thrift_ready (new_ThriftCodec t p)"
  by (simp add: thrift_ready_def new_ThriftCodec_def)

lemma thrift_ready_start:
  assumes "thrift_ready c" "\<not> tc_frame_started c" "thrift_frame_start tr pr c buf = Inr (started, c1, buf1)"
  shows "thrift_ready c1 \<and> (started \<longleftrightarrow> tc_frame_started c1)"
proof (cases started)
  case True
  with assms(3) obtain sm where sm: "tc_state_machine c1 = Some sm" "sm = new_dsm (tc_protocol c1) (sm_metadata sm)"
      "tc_frame_started c1" "tc_frame_ended c1 = tc_frame_ended c"
    by (auto elim: thrift_frame_start_started)
  have "dsm_ok sm" by (subst sm(2)) simp
  with sm assms(1) True show ?thesis by (auto simp: thrift_ready_def)
next
  case False
  with assms show ?thesis
    by (auto simp: thrift_frame_start_def Let_def thrift_ready_def bindr_eq_Inr split: sum.splits option.splits prod.splits)
qed

text \<open>Decoding always returns.\<close>

lemma thrift_continue_returns:
  "progressive pr \<Longrightarrow> dsm_ok sm \<Longrightarrow> \<exists>r. thrift_continue tr pr c sm buf md = Some r"
  using dsm_run_returns [of pr sm buf] by (auto simp: thrift_continue_def Let_def split: sum.split)

lemma thrift_decode_returns:
  assumes "progressive pr" "thrift_ready c"
  shows "\<exists>r. thrift_decode tr pr c buf md = Some r"
proof -
  have started: "\<exists>r. thrift_decode tr pr c buf md = Some r" if "thrift_ready c" "tc_frame_started c" for c buf
    using that thrift_continue_returns [OF assms(1)] by (auto simp: thrift_ready_def thrift_decode_started)
  show ?thesis
  proof (cases "tc_frame_started c")
    case False
    with assms(2) show ?thesis
      by (auto simp: thrift_decode_fresh thrift_ready_def split: sum.split
          dest!: thrift_ready_start [OF assms(2) False] intro: started)
  qed (use started assms in blast)
qed

lemma thrift_frame_end_cases:
  assumes "thrift_frame_end tr c sm buf md = Inr (st, c', buf', md')"
  obtains (wait) t where "decodeFrameEnd tr (tc_transport c) buf = Inr (None, t)" "st = WaitForData"
      "c' = c\<lparr>tc_transport := t\<rparr>" "buf' = buf" "md' = md"
    | (finished) t t' where "decodeFrameEnd tr (tc_transport c) buf = Inr (Some ((), buf'), t)" "st = Done"
      "thrift_toMetadata tr (sm_metadata sm) (sm_origin_message sm) t md = Inr (md', t')"
      "c' = thrift_complete (c\<lparr>tc_transport := t', tc_frame_ended := True, tc_metadata := None\<rparr>)"
  using assms by (auto simp: thrift_frame_end_def bindr_eq_Inr split: sum.splits option.splits prod.splits)

lemma thrift_continue_cases:
  assumes "thrift_continue tr pr c sm buf md = Some (Inr (st, c', buf', md'))"
  obtains (wait) sm1 where "dsm_run pr sm buf = Some (Inr (TS_WaitForData, sm1, buf'))" "st = WaitForData" "md' = md"
      "c' = c\<lparr>tc_protocol := sm_proto sm1, tc_metadata := Some (sm_metadata sm1), tc_state_machine := Some sm1\<rparr>"
    | (ends) rv sm1 buf1 where "dsm_run pr sm buf = Some (Inr (rv, sm1, buf1))" "rv \<noteq> TS_WaitForData"
      "thrift_frame_end tr (c\<lparr>tc_protocol := sm_proto sm1, tc_metadata := Some (sm_metadata sm1),
         tc_state_machine := Some sm1\<rparr>) sm1 buf1 md = Inr (st, c', buf', md')"
  using assms by (auto simp: thrift_continue_def Let_def split: option.splits sum.splits prod.splits if_splits)

text \<open>The codec keeps its invariant, whether it waits or delivers a message.\<close>

lemma thrift_complete_ready [simp]: "thrift_ready (thrift_complete c)" "\<not> tc_frame_started (thrift_complete c)"
  by (simp_all add: thrift_ready_def thrift_complete_def)

lemma thrift_continue_ready:
  assumes "thrift_continue tr pr c sm buf md = Some (Inr (st, c', buf', md'))" "progressive pr" "dsm_ok sm"
    and "thrift_ready c" "tc_frame_started c"
  shows "thrift_ready c'"
  using assms(1)
proof (cases rule: thrift_continue_cases)
  case (wait sm1)
  with dsm_run_ok [OF wait(1) assms(2,3)] assms(4) show ?thesis by (simp add: thrift_ready_def)
next
  case (ends rv sm1 buf1)
  with dsm_run_ok [OF ends(1) assms(2,3)] have "dsm_ok sm1" by simp
  from ends(3) show ?thesis
    by (cases rule: thrift_frame_end_cases) (use \<open>dsm_ok sm1\<close> assms(4) in \<open>auto simp: thrift_ready_def thrift_complete_def\<close>)
qed

lemma thrift_decode_ready:
  assumes "thrift_decode tr pr c buf md = Some (Inr (st, c', buf', md'))" "progressive pr" "thrift_ready c"
  shows "thrift_ready c'"
proof -
  have started: "thrift_ready c'" if d: "thrift_decode tr pr c buf md = Some (Inr (st, c', buf', md'))"
    and c: "thrift_ready c" "tc_frame_started c" for c buf
  proof -
    obtain sm where sm: "tc_state_machine c = Some sm" "dsm_ok sm" "\<not> tc_frame_ended c"
      using c by (auto simp: thrift_ready_def)
    then have "thrift_continue tr pr c sm buf md = Some (Inr (st, c', buf', md'))"
      using d c by (simp add: thrift_decode_started)
    then show ?thesis using assms(2) sm(2) c by (rule thrift_continue_ready)
  qed
  show ?thesis
  proof (cases "tc_frame_started c")
    case True
    with started assms(1,3) show ?thesis by blast
  next
    case False
    with assms(1,3) obtain s c1 buf1 where f: "thrift_frame_start tr pr c buf = Inr (s, c1, buf1)"
      by (auto simp: thrift_decode_fresh thrift_ready_def split: sum.splits)
    note r = thrift_ready_start [OF assms(3) False f]
    show ?thesis
    proof (cases s)
      case True
      with f assms(1,3) False have "thrift_decode tr pr c1 buf1 md = Some (Inr (st, c', buf', md'))"
        by (simp add: thrift_decode_fresh thrift_ready_def)
      with started r True show ?thesis by blast
    next
      case s: False
      with f assms(1,3) False r show ?thesis by (simp add: thrift_decode_fresh thrift_ready_def)
    qed
  qed
qed

text \<open>Reading in pieces.\<close>

lemma thrift_frame_end_append:
  assumes "incremental_transport tr"
  shows "thrift_frame_end tr c sm buf md = Inl e \<Longrightarrow> thrift_frame_end tr c sm (buf @ ext) md = Inl e"
    "thrift_frame_end tr c sm buf md = Inr (Done, c', buf', md') \<Longrightarrow>
       thrift_frame_end tr c sm (buf @ ext) md = Inr (Done, c', buf' @ ext, md')"
    "thrift_frame_end tr c sm buf md = Inr (WaitForData, c', buf', md') \<Longrightarrow>
       thrift_frame_end tr c' sm (buf' @ ext) md = thrift_frame_end tr c sm (buf @ ext) md"
proof -
  have inc: "incremental (decodeFrameEnd tr)" using assms by (simp add: incremental_transport_def)
  show "thrift_frame_end tr c sm (buf @ ext) md = Inl e" if "thrift_frame_end tr c sm buf md = Inl e"
    using that by (auto simp: thrift_frame_end_def bindr_eq_Inl incrementalD [OF inc] split: sum.splits option.splits prod.splits)
  show "thrift_frame_end tr c sm (buf @ ext) md = Inr (Done, c', buf' @ ext, md')"
    if "thrift_frame_end tr c sm buf md = Inr (Done, c', buf', md')"
    using that by (cases rule: thrift_frame_end_cases) (simp_all add: thrift_frame_end_def incrementalD [OF inc])
  show "thrift_frame_end tr c' sm (buf' @ ext) md = thrift_frame_end tr c sm (buf @ ext) md"
    if "thrift_frame_end tr c sm buf md = Inr (WaitForData, c', buf', md')"
    using that
  proof (cases rule: thrift_frame_end_cases)
    case (wait t)
    with incrementalD(2) [OF inc wait(1)] show ?thesis
      by (simp add: thrift_frame_end_def split: sum.split option.split prod.split)
  qed simp
qed

lemma thrift_continue_append:
  assumes "thrift_continue tr pr c sm buf md = Some r" "incremental_protocol pr" "progressive pr" "incremental_transport tr"
    and "dsm_ok sm" "tc_frame_started c" "\<not> tc_frame_ended c"
  shows "thrift_continue tr pr c sm (buf @ ext) md =
    (case r of
       Inl e \<Rightarrow> Some (Inl e)
     | Inr (st, c', buf', md') \<Rightarrow>
         if st = WaitForData then thrift_decode tr pr c' (buf' @ ext) md else Some (Inr (st, c', buf' @ ext, md')))"
proof -
  obtain x where x: "dsm_run pr sm buf = Some x" using dsm_run_returns [OF assms(3,5)] by blast
  note app = dsm_run_append [OF x assms(2,3,5), of ext]
  show ?thesis
  proof (cases x)
    case (Inl e)
    with x app assms(1) show ?thesis by (auto simp: thrift_continue_def)
  next
    case (Inr y)
    obtain rv sm1 buf1 where y: "y = (rv, sm1, buf1)" by (cases y)
    let ?c = "c\<lparr>tc_protocol := sm_proto sm1, tc_metadata := Some (sm_metadata sm1), tc_state_machine := Some sm1\<rparr>"
    have ok: "dsm_ok sm1" "rv = TS_WaitForData \<or> rv = TS_Done \<and> sm_state sm1 = TS_Done"
      using dsm_run_ok [of pr sm buf rv sm1 buf1] x Inr y assms(3,5) by auto
    show ?thesis
    proof (cases "rv = TS_WaitForData")
      case True
      with x Inr y app assms(1,6,7) show ?thesis
        by (auto simp: thrift_continue_def Let_def thrift_decode_started split: option.split sum.split)
    next
      case False
      then have d: "rv = TS_Done" "sm_state sm1 = TS_Done" using ok(2) by auto
      have r: "thrift_frame_end tr ?c sm1 buf1 md = r"
        using x Inr y False assms(1) by (simp add: thrift_continue_def Let_def)
      have lhs: "thrift_continue tr pr c sm (buf @ ext) md = Some (thrift_frame_end tr ?c sm1 (buf1 @ ext) md)"
        using app Inr y False by (simp add: thrift_continue_def Let_def)
      show ?thesis
      proof (cases r)
        case (Inl e)
        with r lhs thrift_frame_end_append(1) [OF assms(4)] show ?thesis by simp
      next
        case (Inr z)
        obtain st c' buf' md' where z: "z = (st, c', buf', md')" by (cases z)
        show ?thesis
        proof (cases st)
          case Done
          with r lhs Inr z thrift_frame_end_append(2) [OF assms(4)] show ?thesis by simp
        next
          case WaitForData
          with r Inr z obtain t where c': "c' = ?c\<lparr>tc_transport := t\<rparr>" "buf' = buf1" by (auto elim: thrift_frame_end_cases)
          have eq: "c'\<lparr>tc_protocol := sm_proto sm1, tc_metadata := Some (sm_metadata sm1), tc_state_machine := Some sm1\<rparr> = c'"
            using c'(1) by (cases c) simp
          have sm: "tc_state_machine c' = Some sm1" "tc_frame_started c'" "\<not> tc_frame_ended c'" using assms(6,7) c'(1) by simp_all
          have "thrift_decode tr pr c' (buf' @ ext) md = Some (thrift_frame_end tr c' sm1 (buf' @ ext) md)"
            using d(2) eq by (simp add: thrift_decode_started [OF sm(3,2,1)] thrift_continue_def dsm_run.simps)
          with r lhs Inr z WaitForData thrift_frame_end_append(3) [OF assms(4), of ?c sm1 buf1 md c' buf' md' ext]
          show ?thesis by simp
        qed
      qed
    qed
  qed
qed

text \<open>What follows the read of the frame start.\<close>

definition frame_start_rest ::
  "'p thrift_protocol \<Rightarrow> ('t, 'p) thrift_codec \<Rightarrow> msg_metadata \<Rightarrow> 't \<Rightarrow> ('t, 'p) thrift_codec res" where
  "frame_start_rest pr c md1 t =
     bindr (negotiate_protocol pr md1 (c\<lparr>tc_metadata := Some md1, tc_transport := t\<rparr>)) (\<lambda>c1.
       case mm_app_ex_type md1 of
         Some ex_type \<Rightarrow> bindr (opt_value (mm_app_ex_msg md1)) (\<lambda>ex_msg.
           Inl (EnvoyException (''thrift AppException: type: '' @ show_nat (app_exception_number ex_type)
                  @ '', message: '' @ ex_msg)))
       | None \<Rightarrow> Inr (c1\<lparr>tc_frame_started := True, tc_state_machine := Some (new_dsm (tc_protocol c1) md1)\<rparr>))"

definition codec_metadata :: "('t, 'p) thrift_codec \<Rightarrow> msg_metadata" where
  "codec_metadata c = (case tc_metadata c of None \<Rightarrow> new_msg_metadata | Some md \<Rightarrow> md)"

lemma thrift_frame_start_eq:
  "thrift_frame_start tr pr c buf =
     (case decodeFrameStart tr (codec_metadata c) (tc_transport c) buf of
        Inl e \<Rightarrow> Inl e
      | Inr (None, t) \<Rightarrow> Inr (False, c\<lparr>tc_metadata := Some (codec_metadata c), tc_transport := t\<rparr>, buf)
      | Inr (Some (md1, buf1), t) \<Rightarrow> bindr (frame_start_rest pr c md1 t) (\<lambda>c1. Inr (True, c1, buf1)))"
  by (auto simp: thrift_frame_start_def codec_metadata_def frame_start_rest_def Let_def bindr_assoc
      split: sum.split option.split prod.split intro!: bindr_cong)

lemma frame_start_rest_waited: "frame_start_rest pr (c\<lparr>tc_metadata := m, tc_transport := t0\<rparr>) md1 t = frame_start_rest pr c md1 t"
  by (simp add: frame_start_rest_def)

lemma thrift_frame_start_append:
  assumes "incremental_transport tr"
  shows "thrift_frame_start tr pr c buf = Inl e \<Longrightarrow> thrift_frame_start tr pr c (buf @ ext) = Inl e"
    "thrift_frame_start tr pr c buf = Inr (True, c', buf') \<Longrightarrow> thrift_frame_start tr pr c (buf @ ext) = Inr (True, c', buf' @ ext)"
    "thrift_frame_start tr pr c buf = Inr (False, c', buf') \<Longrightarrow>
       thrift_frame_start tr pr c' (buf' @ ext) = thrift_frame_start tr pr c (buf @ ext)"
proof -
  have inc: "incremental (decodeFrameStart tr md)" for md using assms by (simp add: incremental_transport_def)
  let ?d = "decodeFrameStart tr (codec_metadata c)"
  have wait: "thrift_frame_start tr pr c' (buf' @ ext) = thrift_frame_start tr pr c (buf @ ext)"
    if "?d (tc_transport c) buf = Inr (None, t)" "c' = c\<lparr>tc_metadata := Some (codec_metadata c), tc_transport := t\<rparr>" "buf' = buf" for t
  proof -
    have "?d t (buf @ ext) = ?d (tc_transport c) (buf @ ext)" using incrementalD(2) [OF inc that(1)] .
    moreover have "codec_metadata c' = codec_metadata c" using that(2) by (simp add: codec_metadata_def)
    ultimately show ?thesis
      using that(2,3) by (simp add: thrift_frame_start_eq frame_start_rest_waited split: sum.split option.split prod.split)
  qed
  show "thrift_frame_start tr pr c (buf @ ext) = Inl e" if "thrift_frame_start tr pr c buf = Inl e"
    using that incrementalD(1,3) [OF inc]
    by (auto simp: thrift_frame_start_eq bindr_eq_Inl split: sum.splits option.splits prod.splits)
  show "thrift_frame_start tr pr c (buf @ ext) = Inr (True, c', buf' @ ext)" if "thrift_frame_start tr pr c buf = Inr (True, c', buf')"
    using that incrementalD(3) [OF inc]
    by (auto simp: thrift_frame_start_eq bindr_eq_Inr split: sum.splits option.splits prod.splits)
  show "thrift_frame_start tr pr c' (buf' @ ext) = thrift_frame_start tr pr c (buf @ ext)"
    if f: "thrift_frame_start tr pr c buf = Inr (False, c', buf')"
  proof -
    from f obtain t where "?d (tc_transport c) buf = Inr (None, t)"
        "c' = c\<lparr>tc_metadata := Some (codec_metadata c), tc_transport := t\<rparr>" "buf' = buf"
      by (auto simp: thrift_frame_start_eq bindr_eq_Inr split: sum.splits option.splits prod.splits)
    then show ?thesis by (rule wait)
  qed
qed

lemma thrift_decode_append:
  assumes "incremental_protocol pr" "progressive pr" "incremental_transport tr" "thrift_ready c"
    and "thrift_decode tr pr c buf md = Some r"
  shows "thrift_decode tr pr c (buf @ ext) md =
    (case r of
       Inl e \<Rightarrow> Some (Inl e)
     | Inr (st, c', buf', md') \<Rightarrow>
         if st = WaitForData then thrift_decode tr pr c' (buf' @ ext) md else Some (Inr (st, c', buf' @ ext, md')))"
proof -
  have started: "thrift_decode tr pr c (buf @ ext) md =
    (case r of
       Inl e \<Rightarrow> Some (Inl e)
     | Inr (st, c', buf', md') \<Rightarrow>
         if st = WaitForData then thrift_decode tr pr c' (buf' @ ext) md else Some (Inr (st, c', buf' @ ext, md')))"
    if c: "thrift_ready c" "tc_frame_started c" and d: "thrift_decode tr pr c buf md = Some r" for c buf
  proof -
    obtain sm where sm: "tc_state_machine c = Some sm" "dsm_ok sm" "\<not> tc_frame_ended c" using c by (auto simp: thrift_ready_def)
    from d have "thrift_continue tr pr c sm buf md = Some r" by (simp add: thrift_decode_started [OF sm(3) c(2) sm(1)])
    from thrift_continue_append [OF this assms(1-3) sm(2) c(2) sm(3)] show ?thesis
      by (simp add: thrift_decode_started [OF sm(3) c(2) sm(1)])
  qed
  show ?thesis
  proof (cases "tc_frame_started c")
    case True
    with started assms(4,5) show ?thesis by blast
  next
    case False
    have ended: "\<not> tc_frame_ended c" using assms(4) by (simp add: thrift_ready_def)
    note fresh = thrift_decode_fresh [OF ended False]
    note app = thrift_frame_start_append [OF assms(3)]
    show ?thesis
    proof (cases "thrift_frame_start tr pr c buf")
      case (Inl e)
      with assms(5) app(1) [OF Inl] show ?thesis by (auto simp: fresh)
    next
      case (Inr x)
      obtain s c1 buf1 where x: "x = (s, c1, buf1)" by (cases x)
      note ready = thrift_ready_start [OF assms(4) False Inr [unfolded x]]
      show ?thesis
      proof (cases s)
        case True
        with Inr x assms(5) have d: "thrift_decode tr pr c1 buf1 md = Some r" by (simp add: fresh)
        have "thrift_frame_start tr pr c (buf @ ext) = Inr (True, c1, buf1 @ ext)" using app(2) Inr x True by simp
        then have "thrift_decode tr pr c (buf @ ext) md = thrift_decode tr pr c1 (buf1 @ ext) md" by (simp add: fresh)
        with started [of c1 buf1] d ready True show ?thesis by simp
      next
        case s: False
        with Inr x assms(5) have r: "r = Inr (WaitForData, c1, buf1, md)" by (simp add: fresh)
        have "thrift_frame_start tr pr c1 (buf1 @ ext) = thrift_frame_start tr pr c (buf @ ext)" using app(3) Inr x s by simp
        moreover have "\<not> tc_frame_ended c1" "\<not> tc_frame_started c1" using ready s by (auto simp: thrift_ready_def)
        ultimately have "thrift_decode tr pr c1 (buf1 @ ext) md = thrift_decode tr pr c (buf @ ext) md"
          by (simp add: fresh thrift_decode_fresh)
        with r show ?thesis by simp
      qed
    qed
  qed
qed

lemma thrift_framing:
  fixes pr :: "'p thrift_protocol" and tr :: "'t thrift_transport"
  assumes "incremental_protocol pr" "progressive pr" "incremental_transport tr"
  shows "framing (thrift_decode_fn tr pr) thrift_ready"
proof
  fix c :: "('t, 'p) thrift_codec" and buf st c' buf' ext e and md md' :: "'x metadata"
  assume c: "thrift_ready c"
  obtain r where r: "thrift_decode tr pr c buf md = Some r" using thrift_decode_returns [OF assms(2) c] by blast
  note app = thrift_decode_append [OF assms c r, of ext]
  show "thrift_ready c'" if "thrift_decode_fn tr pr c buf md = Inr (st, c', buf', md')"
    using that r thrift_decode_ready [OF _ assms(2) c] by (simp add: thrift_decode_fn_def)
  show "thrift_decode_fn tr pr c (buf @ ext) md = thrift_decode_fn tr pr c' (buf' @ ext) md"
    if "thrift_decode_fn tr pr c buf md = Inr (WaitForData, c', buf', md')"
    using that r app by (simp add: thrift_decode_fn_def)
  show "thrift_decode_fn tr pr c (buf @ ext) md = Inr (Done, c', buf' @ ext, md')"
    if "thrift_decode_fn tr pr c buf md = Inr (Done, c', buf', md')"
    using that r app by (simp add: thrift_decode_fn_def)
  show "thrift_decode_fn tr pr c (buf @ ext) md = Inl e" if "thrift_decode_fn tr pr c buf md = Inl e"
    using that r app by (simp add: thrift_decode_fn_def)
qed

text \<open>
  Consuming: a message takes at least the byte of its header, in the call in which its frame
  starts or before.
\<close>

definition thrift_weight :: "('t, 'p) thrift_codec \<Rightarrow> nat" where
  "thrift_weight c = (if tc_frame_started c then 1 else 0)"

lemma thrift_frame_end_length:
  assumes "thrift_frame_end tr c sm buf md = Inr (Done, c', buf', md')" "progressive_transport tr"
  shows "length buf' \<le> length buf \<and> \<not> tc_frame_started c'"
  using assms(1)
proof (cases rule: thrift_frame_end_cases)
  case (finished t t')
  moreover have "no_growth (decodeFrameEnd tr)" using assms(2) by (simp add: progressive_transport_def)
  ultimately show ?thesis by (auto dest: no_growthD)
qed simp

lemma thrift_continue_length:
  assumes "thrift_continue tr pr c sm buf md = Some (Inr (Done, c', buf', md'))" "progressive pr" "progressive_transport tr"
    and "dsm_ok sm"
  shows "length buf' \<le> length buf \<and> \<not> tc_frame_started c' \<and> (sm_state sm = TS_MessageBegin \<longrightarrow> length buf' < length buf)"
  using assms(1)
proof (cases rule: thrift_continue_cases)
  case (ends rv sm1 buf1)
  note l = thrift_frame_end_length [OF ends(3) assms(3)] dsm_run_ok [OF ends(1) assms(2,4)]
  have "length buf1 < length buf" if s: "sm_state sm = TS_MessageBegin"
  proof -
    have "dsm_handleState pr sm buf = messageBegin pr sm buf" using s by (simp add: dsm_handleState_def)
    moreover obtain st sm2 buf2 where h: "messageBegin pr sm buf = Inr (st, sm2, buf2)" "st \<noteq> TS_WaitForData"
        "dsm_run pr (sm2\<lparr>sm_state := st\<rparr>) buf2 = Some (Inr (rv, sm1, buf1))"
      using ends(1,2) s by (subst (asm) dsm_run.simps) (auto simp: dsm_handleState_def split: sum.splits if_splits)
    ultimately have "step_to sm buf st sm2 buf2" "length buf2 < length buf"
      using messageBegin_step [OF h(1) assms(4,2) s] by (auto simp: waits_def)
    with dsm_run_ok [OF h(3) assms(2)] show ?thesis by (auto simp: step_to_def)
  qed
  with l show ?thesis by auto
qed simp

lemma thrift_frame_start_length:
  assumes "thrift_frame_start tr pr c buf = Inr (s, c1, buf1)" "progressive_transport tr"
  shows "length buf1 \<le> length buf"
proof -
  have "no_growth (decodeFrameStart tr md)" for md using assms(2) by (simp add: progressive_transport_def)
  with assms(1) show ?thesis
    by (auto simp: thrift_frame_start_eq bindr_eq_Inr dest: no_growthD split: sum.splits option.splits prod.splits)
qed

lemma thrift_consuming:
  fixes pr :: "'p thrift_protocol" and tr :: "'t thrift_transport"
  assumes "progressive pr" "progressive_transport tr"
  shows "consuming (thrift_decode_fn tr pr :: (('t, 'p) thrift_codec, 'x) decode_fn) thrift_ready thrift_weight"
proof
  fix c :: "('t, 'p) thrift_codec" and buf st c' buf' and md md' :: "'x metadata"
  assume c: "thrift_ready c"
  obtain r where r: "thrift_decode tr pr c buf md = Some r" using thrift_decode_returns [OF assms(1) c] by blast
  show "thrift_ready c'" if "thrift_decode_fn tr pr c buf md = Inr (st, c', buf', md')"
    using that r thrift_decode_ready [OF _ assms(1) c] by (simp add: thrift_decode_fn_def)
  have started: "length buf' \<le> length buf \<and> \<not> tc_frame_started c' \<and>
      ((\<exists>sm. tc_state_machine c = Some sm \<and> sm_state sm = TS_MessageBegin) \<longrightarrow> length buf' < length buf)"
    if c: "thrift_ready c" "tc_frame_started c" and d: "thrift_decode tr pr c buf md = Some (Inr (Done, c', buf', md'))" for c buf
  proof -
    obtain sm where sm: "tc_state_machine c = Some sm" "dsm_ok sm" "\<not> tc_frame_ended c" using c by (auto simp: thrift_ready_def)
    from d have "thrift_continue tr pr c sm buf md = Some (Inr (Done, c', buf', md'))"
      by (simp add: thrift_decode_started [OF sm(3) c(2) sm(1)])
    from thrift_continue_length [OF this assms sm(2)] sm(1) show ?thesis by simp
  qed
  assume d: "thrift_decode_fn tr pr c buf md = Inr (Done, c', buf', md')"
  with r have d: "thrift_decode tr pr c buf md = Some (Inr (Done, c', buf', md'))" by (simp add: thrift_decode_fn_def)
  show "thrift_weight c' + length buf' < thrift_weight c + length buf"
  proof (cases "tc_frame_started c")
    case True
    with started [OF c True d] show ?thesis by (simp add: thrift_weight_def)
  next
    case False
    have "\<not> tc_frame_ended c" using c by (simp add: thrift_ready_def)
    with d False obtain c1 buf1 where f: "thrift_frame_start tr pr c buf = Inr (True, c1, buf1)"
        "thrift_decode tr pr c1 buf1 md = Some (Inr (Done, c', buf', md'))"
      by (auto simp: thrift_decode_fresh split: sum.splits if_splits)
    obtain sm where "tc_state_machine c1 = Some sm" "sm = new_dsm (tc_protocol c1) (sm_metadata sm)"
      using f(1) by (rule thrift_frame_start_started)
    then have "\<exists>sm. tc_state_machine c1 = Some sm \<and> sm_state sm = TS_MessageBegin"
      by (metis dsm.select_convs(3) new_dsm_def)
    with started [of c1 buf1] f thrift_ready_start [OF c False f(1)] thrift_frame_start_length [OF f(1) assms(2)] False
    show ?thesis by (simp add: thrift_weight_def)
  qed
qed

end
