(* ===== verification/Thrift_Wire.thy ===== *)
theory Thrift_Wire
  imports Thrift
begin

text \<open>
  What the Thrift codec decodes, said without its state machine: the tree of a message, the sequence of protocol
  operations that writes it, and the promise of a protocol (\<^verbatim>\<open>wire_format\<close>) and of a transport
  (\<^verbatim>\<open>frame_format\<close>) that their reads return what their writes wrote, token by token.  The lemmas show that
  \<^verbatim>\<open>DecoderStateMachine::run\<close> walks the tree of every message, by induction on the tree, and
  that \<^verbatim>\<open>ThriftCodec::decode\<close> and \<^verbatim>\<open>onError\<close> read and write whole frames.
\<close>

section \<open>Thrift messages\<close>

text \<open>
  A message as a tree, independent of the state machine: the value of each field and element, with the
  types the headers announce.
\<close>

datatype tvalue =
    TBool bool | TByte byte | TI16 u16 | TI32 u32 | TI64 u64 | TDouble u64 | TString string
  | TStruct string "(string \<times> u16 \<times> tvalue) list"
  | TMap field_type field_type "(tvalue \<times> tvalue) list"
  | TList field_type "tvalue list"
  | TSet field_type "tvalue list"

fun type_of :: "tvalue \<Rightarrow> field_type" where
  "type_of (TBool _) = FT_Bool"
| "type_of (TByte _) = FT_Byte"
| "type_of (TI16 _) = FT_I16"
| "type_of (TI32 _) = FT_I32"
| "type_of (TI64 _) = FT_I64"
| "type_of (TDouble _) = FT_Double"
| "type_of (TString _) = FT_String"
| "type_of (TStruct _ _) = FT_Struct"
| "type_of (TMap _ _ _) = FT_Map"
| "type_of (TList _ _) = FT_List"
| "type_of (TSet _ _) = FT_Set"

fun well_typed :: "tvalue \<Rightarrow> bool" where
  "well_typed (TStruct n fs) \<longleftrightarrow> (\<forall>(fn, i, v) \<in> set fs. well_typed v)"
| "well_typed (TMap kt vt kvs) \<longleftrightarrow> length kvs < 2 ^ 32 \<and>
     (\<forall>(k, v) \<in> set kvs. type_of k = kt \<and> type_of v = vt \<and> well_typed k \<and> well_typed v)"
| "well_typed (TList ty vs) \<longleftrightarrow> length vs < 2 ^ 32 \<and> (\<forall>v \<in> set vs. type_of v = ty \<and> well_typed v)"
| "well_typed (TSet ty vs) \<longleftrightarrow> length vs < 2 ^ 32 \<and> (\<forall>v \<in> set vs. type_of v = ty \<and> well_typed v)"
| "well_typed _ \<longleftrightarrow> True"

text \<open>What a protocol writes for it, one token per operation.\<close>

datatype token =
    Tk_MessageBegin string thrift_message_type u32 | Tk_MessageEnd
  | Tk_StructBegin string | Tk_StructEnd | Tk_FieldBegin string field_type u16 | Tk_FieldEnd
  | Tk_MapBegin field_type field_type u32 | Tk_MapEnd | Tk_ListBegin field_type u32 | Tk_ListEnd
  | Tk_SetBegin field_type u32 | Tk_SetEnd
  | Tk_Bool bool | Tk_Byte byte | Tk_I16 u16 | Tk_I32 u32 | Tk_I64 u64 | Tk_Double u64 | Tk_String string

fun tokens :: "tvalue \<Rightarrow> token list" where
  "tokens (TBool b) = [Tk_Bool b]"
| "tokens (TByte b) = [Tk_Byte b]"
| "tokens (TI16 i) = [Tk_I16 i]"
| "tokens (TI32 i) = [Tk_I32 i]"
| "tokens (TI64 i) = [Tk_I64 i]"
| "tokens (TDouble d) = [Tk_Double d]"
| "tokens (TString s) = [Tk_String s]"
| "tokens (TStruct n fs) = Tk_StructBegin n #
     concat (map (\<lambda>(fn, i, v). Tk_FieldBegin fn (type_of v) i # tokens v @ [Tk_FieldEnd]) fs)
     @ [Tk_FieldBegin [] FT_Stop 0, Tk_StructEnd]"
| "tokens (TMap kt vt kvs) = Tk_MapBegin kt vt (word_of_nat (length kvs)) #
     concat (map (\<lambda>(k, v). tokens k @ tokens v) kvs) @ [Tk_MapEnd]"
| "tokens (TList ty vs) = Tk_ListBegin ty (word_of_nat (length vs)) # concat (map tokens vs) @ [Tk_ListEnd]"
| "tokens (TSet ty vs) = Tk_SetBegin ty (word_of_nat (length vs)) # concat (map tokens vs) @ [Tk_SetEnd]"

definition message_tokens :: "string \<Rightarrow> thrift_message_type \<Rightarrow> u32 \<Rightarrow> tvalue \<Rightarrow> token list" where
  "message_tokens name ty seq v = Tk_MessageBegin name ty seq # tokens v @ [Tk_MessageEnd]"

definition wire :: "(token \<Rightarrow> buffer) \<Rightarrow> token list \<Rightarrow> buffer" where
  "wire w ts = concat (map w ts)"

lemma wire_simps [simp]: "wire w [] = []" "wire w (t # ts) = w t @ wire w ts" "wire w (ts @ us) = wire w ts @ wire w us"
  by (simp_all add: wire_def)

section \<open>What a protocol promises\<close>

text \<open>
  A protocol reads what it wrote: in every state in which it works (\<^verbatim>\<open>ok\<close>) an operation writes the
  bytes of its token, and reading these bytes gives the token back.  Names need not be on the wire: what is read
  in their place is written with the same bytes.  \<^verbatim>\<open>valid\<close> are the tokens that fit the format.
  The bytes of a token depend on the token alone, as they do in the binary protocols; the compact protocol,
  which writes a field id as the distance from the one before and a boolean field in its header, is not of
  this form.
  A message header can be read in every state, since that is where a protocol is detected.
\<close>

definition writes :: "('p \<Rightarrow> bool) \<Rightarrow> 'p writer \<Rightarrow> buffer \<Rightarrow> bool" where
  "writes ok wr bs \<longleftrightarrow> (\<forall>p. ok p \<longrightarrow> (\<exists>p'. ok p' \<and> wr p = Inr (bs, p')))"

definition reads :: "('p \<Rightarrow> bool) \<Rightarrow> ('p, 'a) reader \<Rightarrow> buffer \<Rightarrow> 'a \<Rightarrow> bool" where
  "reads ok rd bs v \<longleftrightarrow> (\<forall>p rest. ok p \<longrightarrow> (\<exists>p'. ok p' \<and> rd p (bs @ rest) = Inr (Some (v, rest), p')))"

definition header_of :: "string \<Rightarrow> thrift_message_type \<Rightarrow> u32 \<Rightarrow> msg_metadata \<Rightarrow> msg_metadata" where
  "header_of name ty seq md = md\<lparr>mm_method_name := Some name, mm_msg_type := Some ty, mm_seq_id := Some seq\<rparr>"

definition wire_writes :: "'p thrift_protocol \<Rightarrow> (token \<Rightarrow> buffer) \<Rightarrow> ('p \<Rightarrow> bool) \<Rightarrow> bool" where
  "wire_writes pr w ok \<longleftrightarrow>
     (\<forall>name ty seq md. writes ok (writeMessageBegin pr (header_of name ty seq md)) (w (Tk_MessageBegin name ty seq))) \<and>
     writes ok (writeMessageEnd pr) (w Tk_MessageEnd) \<and>
     (\<forall>n. writes ok (writeStructBegin pr n) (w (Tk_StructBegin n))) \<and> writes ok (writeStructEnd pr) (w Tk_StructEnd) \<and>
     (\<forall>n ty i. writes ok (writeFieldBegin pr n ty i) (w (Tk_FieldBegin n ty i))) \<and>
     writes ok (writeFieldEnd pr) (w Tk_FieldEnd) \<and>
     (\<forall>kt vt n. writes ok (writeMapBegin pr kt vt n) (w (Tk_MapBegin kt vt n))) \<and> writes ok (writeMapEnd pr) (w Tk_MapEnd) \<and>
     (\<forall>ty n. writes ok (writeListBegin pr ty n) (w (Tk_ListBegin ty n))) \<and> writes ok (writeListEnd pr) (w Tk_ListEnd) \<and>
     (\<forall>ty n. writes ok (writeSetBegin pr ty n) (w (Tk_SetBegin ty n))) \<and> writes ok (writeSetEnd pr) (w Tk_SetEnd) \<and>
     (\<forall>v. writes ok (writeBool pr v) (w (Tk_Bool v))) \<and> (\<forall>v. writes ok (writeByte pr v) (w (Tk_Byte v))) \<and>
     (\<forall>v. writes ok (writeInt16 pr v) (w (Tk_I16 v))) \<and> (\<forall>v. writes ok (writeInt32 pr v) (w (Tk_I32 v))) \<and>
     (\<forall>v. writes ok (writeInt64 pr v) (w (Tk_I64 v))) \<and> (\<forall>v. writes ok (writeDouble pr v) (w (Tk_Double v))) \<and>
     (\<forall>v. writes ok (writeString pr v) (w (Tk_String v)))"

definition wire_reads :: "'p thrift_protocol \<Rightarrow> (token \<Rightarrow> buffer) \<Rightarrow> ('p \<Rightarrow> bool) \<Rightarrow> (token \<Rightarrow> bool) \<Rightarrow> bool" where
  "wire_reads pr w ok valid \<longleftrightarrow>
     (\<forall>name ty seq md p rest. valid (Tk_MessageBegin name ty seq) \<longrightarrow>
        (\<exists>p'. ok p' \<and> readMessageBegin pr md p (w (Tk_MessageBegin name ty seq) @ rest) =
           Inr (Some (header_of name ty seq md, rest), p'))) \<and>
     reads ok (readMessageEnd pr) (w Tk_MessageEnd) () \<and>
     (\<forall>n. valid (Tk_StructBegin n) \<longrightarrow>
        (\<exists>n'. reads ok (readStructBegin pr) (w (Tk_StructBegin n)) n' \<and> w (Tk_StructBegin n') = w (Tk_StructBegin n))) \<and>
     reads ok (readStructEnd pr) (w Tk_StructEnd) () \<and>
     (\<forall>n ty i. ty \<noteq> FT_Stop \<and> valid (Tk_FieldBegin n ty i) \<longrightarrow>
        (\<exists>n'. reads ok (readFieldBegin pr) (w (Tk_FieldBegin n ty i)) (n', ty, i) \<and>
              w (Tk_FieldBegin n' ty i) = w (Tk_FieldBegin n ty i))) \<and>
     (\<exists>n i. reads ok (readFieldBegin pr) (w (Tk_FieldBegin [] FT_Stop 0)) (n, FT_Stop, i)) \<and>
     reads ok (readFieldEnd pr) (w Tk_FieldEnd) () \<and>
     (\<forall>kt vt n. valid (Tk_MapBegin kt vt n) \<longrightarrow> reads ok (readMapBegin pr) (w (Tk_MapBegin kt vt n)) (kt, vt, n)) \<and>
     reads ok (readMapEnd pr) (w Tk_MapEnd) () \<and>
     (\<forall>ty n. valid (Tk_ListBegin ty n) \<longrightarrow> reads ok (readListBegin pr) (w (Tk_ListBegin ty n)) (ty, n)) \<and>
     reads ok (readListEnd pr) (w Tk_ListEnd) () \<and>
     (\<forall>ty n. valid (Tk_SetBegin ty n) \<longrightarrow> reads ok (readSetBegin pr) (w (Tk_SetBegin ty n)) (ty, n)) \<and>
     reads ok (readSetEnd pr) (w Tk_SetEnd) () \<and>
     (\<forall>v. valid (Tk_Bool v) \<longrightarrow> reads ok (readBool pr) (w (Tk_Bool v)) v) \<and>
     (\<forall>v. valid (Tk_Byte v) \<longrightarrow> reads ok (readByte pr) (w (Tk_Byte v)) v) \<and>
     (\<forall>v. valid (Tk_I16 v) \<longrightarrow> reads ok (readInt16 pr) (w (Tk_I16 v)) v) \<and>
     (\<forall>v. valid (Tk_I32 v) \<longrightarrow> reads ok (readInt32 pr) (w (Tk_I32 v)) v) \<and>
     (\<forall>v. valid (Tk_I64 v) \<longrightarrow> reads ok (readInt64 pr) (w (Tk_I64 v)) v) \<and>
     (\<forall>v. valid (Tk_Double v) \<longrightarrow> reads ok (readDouble pr) (w (Tk_Double v)) v) \<and>
     (\<forall>v. valid (Tk_String v) \<longrightarrow> reads ok (readString pr) (w (Tk_String v)) v)"

definition wire_format ::
  "'p thrift_protocol \<Rightarrow> (token \<Rightarrow> buffer) \<Rightarrow> ('p \<Rightarrow> bool) \<Rightarrow> (token \<Rightarrow> bool) \<Rightarrow> bool" where
  "wire_format pr w ok valid \<longleftrightarrow> wire_writes pr w ok \<and> wire_reads pr w ok valid"

section \<open>The state machine follows the tree\<close>

text \<open>A machine in a given state, with a given stack and output, and with a given state of the protocol.\<close>

definition sm_at :: "thrift_state \<Rightarrow> frame list \<Rightarrow> buffer \<Rightarrow> 'p dsm \<Rightarrow> 'p \<Rightarrow> 'p dsm" where
  "sm_at st s out sm p = sm\<lparr>sm_proto := p, sm_state := st, sm_stack := s, sm_origin_message := out\<rparr>"

lemma sm_at_fields [simp]:
  "sm_proto (sm_at st s out sm p) = p" "sm_state (sm_at st s out sm p) = st" "sm_stack (sm_at st s out sm p) = s"
  "sm_origin_message (sm_at st s out sm p) = out" "sm_metadata (sm_at st s out sm p) = sm_metadata sm"
  "sm_passthrough_enabled (sm_at st s out sm p) = sm_passthrough_enabled sm"
  by (simp_all add: sm_at_def)

lemma sm_at_upd [simp]:
  "(sm_at st s out sm p)\<lparr>sm_proto := p'\<rparr> = sm_at st s out sm p'"
  "(sm_at st s out sm p)\<lparr>sm_state := st'\<rparr> = sm_at st' s out sm p"
  "(sm_at st s out sm p)\<lparr>sm_stack := s'\<rparr> = sm_at st s' out sm p"
  "(sm_at st s out sm p)\<lparr>sm_origin_message := out'\<rparr> = sm_at st s out' sm p"
  "push_frame fr (sm_at st s out sm p) = sm_at st (fr # s) out sm p"
  by (simp_all add: sm_at_def push_frame_def)

text \<open>Running from one configuration is running from another, in some working states of the protocol.\<close>

definition leads ::
  "'p thrift_protocol \<Rightarrow> ('p \<Rightarrow> bool) \<Rightarrow> ('p \<Rightarrow> 'p dsm) \<Rightarrow> buffer \<Rightarrow> ('p \<Rightarrow> 'p dsm) \<Rightarrow> buffer \<Rightarrow> bool" where
  "leads pr ok A buf B buf' \<longleftrightarrow> (\<forall>p. ok p \<longrightarrow> (\<exists>p'. ok p' \<and> dsm_run pr (A p) buf = dsm_run pr (B p') buf'))"

lemma leads_refl: "leads pr ok A buf A buf"
  by (auto simp: leads_def)

lemma leads_trans [trans]: "leads pr ok A b B c \<Longrightarrow> leads pr ok B c C d \<Longrightarrow> leads pr ok A b C d"
  unfolding leads_def by metis

lemma leads_step:
  assumes "\<And>p. ok p \<Longrightarrow> \<exists>p'. ok p' \<and> dsm_handleState pr (sm_at st s out sm p) buf = Inr (st', sm_at st s' out' sm p', buf')"
    and "st \<noteq> TS_Done" "st' \<noteq> TS_WaitForData"
  shows "leads pr ok (sm_at st s out sm) buf (sm_at st' s' out' sm) buf'"
  unfolding leads_def
proof (intro allI impI)
  fix p
  assume "ok p"
  with assms(1) obtain p' where p': "ok p'"
    "dsm_handleState pr (sm_at st s out sm p) buf = Inr (st', sm_at st s' out' sm p', buf')" by blast
  from dsm_run_step [OF p'(2)] assms(2,3) p'(1)
  show "\<exists>p'. ok p' \<and> dsm_run pr (sm_at st s out sm p) buf = dsm_run pr (sm_at st' s' out' sm p') buf'" by auto
qed

lemma readsD: "reads ok rd bs v \<Longrightarrow> ok p \<Longrightarrow> \<exists>p'. ok p' \<and> rd p (bs @ rest) = Inr (Some (v, rest), p')"
  by (simp add: reads_def)

lemma writesD: "writes ok wr bs \<Longrightarrow> ok p \<Longrightarrow> \<exists>p'. ok p' \<and> wr p = Inr (bs, p')"
  by (simp add: writes_def)

text \<open>Reading a token and writing it again.\<close>

lemma read_write:
  assumes "reads ok rd bs v" "writes ok (wr v) bs'" "ok p"
    and "\<And>sm. k v sm = bindr (sm_write (wr v) (f sm)) (\<lambda>sm. g sm)"
    and "\<And>p out. f (sm_at st s out sm p) = sm_at st s1 out sm p"
    and "\<And>p out. g (sm_at st s1 out sm p) = Inr (st', sm_at st s' out sm p)"
  shows "\<exists>p'. ok p' \<and> sm_read rd k (sm_at st s out sm p) (bs @ rest) = Inr (st', sm_at st s' (out @ bs') sm p', rest)"
proof -
  obtain p1 where p1: "ok p1" "rd p (bs @ rest) = Inr (Some (v, rest), p1)" using readsD [OF assms(1,3)] by blast
  obtain p2 where p2: "ok p2" "wr v p1 = Inr (bs', p2)" using writesD [OF assms(2) p1(1)] by blast
  from p1 p2 assms(4-6) show ?thesis by (auto simp: sm_read_def sm_write_def)
qed

lemma structBegin_leads:
  assumes "wire_format pr w ok valid" "valid (Tk_StructBegin n)"
  shows "leads pr ok (sm_at TS_StructBegin s out sm) (w (Tk_StructBegin n) @ rest)
    (sm_at TS_FieldBegin s (out @ w (Tk_StructBegin n)) sm) rest"
proof (rule leads_step)
  obtain n' where n': "reads ok (readStructBegin pr) (w (Tk_StructBegin n)) n'" "w (Tk_StructBegin n') = w (Tk_StructBegin n)"
    using assms by (auto simp: wire_format_def wire_reads_def)
  have wr: "writes ok (writeStructBegin pr n') (w (Tk_StructBegin n))"
    using assms(1) n'(2) unfolding wire_format_def wire_writes_def by metis
  fix p
  assume "ok p"
  from read_write [OF n'(1), where wr = "writeStructBegin pr", OF wr this, where f = id and g = "\<lambda>sm. Inr (TS_FieldBegin, sm)"]
  show "\<exists>p'. ok p' \<and> dsm_handleState pr (sm_at TS_StructBegin s out sm p) (w (Tk_StructBegin n) @ rest) =
      Inr (TS_FieldBegin, sm_at TS_StructBegin s (out @ w (Tk_StructBegin n)) sm p', rest)"
    by (simp add: dsm_handleState_def structBegin_def)
qed simp_all

lemma wire_format_field:
  assumes "wire_format pr w ok valid" "valid (Tk_FieldBegin n ty i)" "ty \<noteq> FT_Stop"
  obtains n' where "reads ok (readFieldBegin pr) (w (Tk_FieldBegin n ty i)) (n', ty, i)"
    "w (Tk_FieldBegin n' ty i) = w (Tk_FieldBegin n ty i)"
proof -
  have "\<forall>n ty i. ty \<noteq> FT_Stop \<and> valid (Tk_FieldBegin n ty i) \<longrightarrow>
      (\<exists>n'. reads ok (readFieldBegin pr) (w (Tk_FieldBegin n ty i)) (n', ty, i) \<and>
            w (Tk_FieldBegin n' ty i) = w (Tk_FieldBegin n ty i))"
    using assms(1) unfolding wire_format_def wire_reads_def by (elim conjE) assumption
  with assms(2,3) that show ?thesis by blast
qed

lemma fieldBegin_leads:
  assumes "wire_format pr w ok valid" "valid (Tk_FieldBegin n ty i)" "ty \<noteq> FT_Stop"
  shows "leads pr ok (sm_at TS_FieldBegin s out sm) (w (Tk_FieldBegin n ty i) @ rest)
    (sm_at TS_FieldValue (Frame2 TS_FieldEnd ty # s) (out @ w (Tk_FieldBegin n ty i)) sm) rest"
proof (rule leads_step)
  obtain n' where n': "reads ok (readFieldBegin pr) (w (Tk_FieldBegin n ty i)) (n', ty, i)"
      "w (Tk_FieldBegin n' ty i) = w (Tk_FieldBegin n ty i)"
    using assms by (rule wire_format_field)
  have wr: "writes ok (writeFieldBegin pr n' ty i) (w (Tk_FieldBegin n ty i))"
    using assms(1) n'(2) unfolding wire_format_def wire_writes_def by metis
  fix p
  assume "ok p"
  from read_write [OF n'(1), where wr = "\<lambda>(n, ty, i). writeFieldBegin pr n ty i" and bs' = "w (Tk_FieldBegin n ty i)", OF _ this,
      where f = "push_frame (Frame2 TS_FieldEnd ty)" and g = "\<lambda>sm. Inr (TS_FieldValue, sm)"] wr assms(3)
  show "\<exists>p'. ok p' \<and> dsm_handleState pr (sm_at TS_FieldBegin s out sm p) (w (Tk_FieldBegin n ty i) @ rest) =
      Inr (TS_FieldValue, sm_at TS_FieldBegin (Frame2 TS_FieldEnd ty # s) (out @ w (Tk_FieldBegin n ty i)) sm p', rest)"
    by (simp add: dsm_handleState_def fieldBegin_def)
qed simp_all

lemma stop_leads:
  assumes "wire_format pr w ok valid"
  shows "leads pr ok (sm_at TS_FieldBegin s out sm) (w (Tk_FieldBegin [] FT_Stop 0) @ rest) (sm_at TS_StructEnd s out sm) rest"
proof (rule leads_step)
  obtain n i where r: "reads ok (readFieldBegin pr) (w (Tk_FieldBegin [] FT_Stop 0)) (n, FT_Stop, i)"
    using assms by (auto simp: wire_format_def wire_reads_def)
  fix p
  assume "ok p"
  from readsD [OF r this, of rest]
  show "\<exists>p'. ok p' \<and> dsm_handleState pr (sm_at TS_FieldBegin s out sm p) (w (Tk_FieldBegin [] FT_Stop 0) @ rest) =
      Inr (TS_StructEnd, sm_at TS_FieldBegin s out sm p', rest)"
    by (auto simp: dsm_handleState_def fieldBegin_def sm_read_def)
qed simp_all

lemma structEnd_leads:
  assumes "wire_format pr w ok valid" "fr_return_state fr \<noteq> TS_WaitForData"
  shows "leads pr ok (sm_at TS_StructEnd (fr # s) out sm) (w Tk_StructEnd @ rest)
    (sm_at (fr_return_state fr) s (out @ w (Tk_FieldBegin [] FT_Stop 0) @ w Tk_StructEnd) sm) rest"
proof (rule leads_step)
  have l: "reads ok (readStructEnd pr) (w Tk_StructEnd) ()" "writes ok (writeFieldBegin pr [] FT_Stop 0) (w (Tk_FieldBegin [] FT_Stop 0))"
    "writes ok (writeStructEnd pr) (w Tk_StructEnd)"
    using assms by (simp_all add: wire_format_def wire_reads_def wire_writes_def)
  fix p
  assume "ok p"
  then obtain p1 p2 p3 where "ok p3" "readStructEnd pr p (w Tk_StructEnd @ rest) = Inr (Some ((), rest), p1)"
      "writeFieldBegin pr [] FT_Stop 0 p1 = Inr (w (Tk_FieldBegin [] FT_Stop 0), p2)" "writeStructEnd pr p2 = Inr (w Tk_StructEnd, p3)"
    using readsD [OF l(1)] writesD [OF l(2)] writesD [OF l(3)] by metis
  then show "\<exists>p'. ok p' \<and> dsm_handleState pr (sm_at TS_StructEnd (fr # s) out sm p) (w Tk_StructEnd @ rest) =
      Inr (fr_return_state fr, sm_at TS_StructEnd s (out @ w (Tk_FieldBegin [] FT_Stop 0) @ w Tk_StructEnd) sm p', rest)"
    by (auto simp: dsm_handleState_def structEnd_def sm_read_def sm_write_def popReturnState_def)
qed (use assms in simp_all)

lemma fieldEnd_leads:
  assumes "wire_format pr w ok valid"
  shows "leads pr ok (sm_at TS_FieldEnd (fr # s) out sm) (w Tk_FieldEnd @ rest)
    (sm_at TS_FieldBegin s (out @ w Tk_FieldEnd) sm) rest"
proof (rule leads_step)
  have l: "reads ok (readFieldEnd pr) (w Tk_FieldEnd) ()" "writes ok (writeFieldEnd pr) (w Tk_FieldEnd)"
    using assms by (simp_all add: wire_format_def wire_reads_def wire_writes_def)
  fix p
  assume "ok p"
  then obtain p1 p2 where "ok p2" "readFieldEnd pr p (w Tk_FieldEnd @ rest) = Inr (Some ((), rest), p1)"
      "writeFieldEnd pr p1 = Inr (w Tk_FieldEnd, p2)"
    using readsD [OF l(1)] writesD [OF l(2)] by metis
  then show "\<exists>p'. ok p' \<and> dsm_handleState pr (sm_at TS_FieldEnd (fr # s) out sm p) (w Tk_FieldEnd @ rest) =
      Inr (TS_FieldBegin, sm_at TS_FieldEnd s (out @ w Tk_FieldEnd) sm p', rest)"
    by (auto simp: dsm_handleState_def fieldEnd_def sm_read_def sm_write_def popReturnState_def)
qed simp_all

text \<open>The end of a container.\<close>

lemma container_end_leads:
  assumes "reads ok rd bs ()" "writes ok wr bs" "fr_return_state fr \<noteq> TS_WaitForData" "st \<noteq> TS_Done"
    and "\<And>s out p buf. dsm_handleState pr (sm_at st s out sm p) buf =
      sm_read rd (\<lambda>_ sm. bindr (sm_write wr sm) popReturnState) (sm_at st s out sm p) buf"
  shows "leads pr ok (sm_at st (fr # s) out sm) (bs @ rest) (sm_at (fr_return_state fr) s (out @ bs) sm) rest"
proof (rule leads_step)
  fix p
  assume "ok p"
  then obtain p1 p2 where "ok p2" "rd p (bs @ rest) = Inr (Some ((), rest), p1)" "wr p1 = Inr (bs, p2)"
    using readsD [OF assms(1)] writesD [OF assms(2)] by metis
  then show "\<exists>p'. ok p' \<and> dsm_handleState pr (sm_at st (fr # s) out sm p) (bs @ rest) =
      Inr (fr_return_state fr, sm_at st s (out @ bs) sm p', rest)"
    by (auto simp: assms(5) sm_read_def sm_write_def popReturnState_def)
qed (use assms in simp_all)

text \<open>
  The contract of a value: handling it in a state either reads and writes it and goes on with
  \<^verbatim>\<open>ret\<close>, or pushes a frame, and then the machine comes back to \<^verbatim>\<open>ret\<close> with
  the frames below as they were left.
\<close>

definition handled :: "'p thrift_protocol \<Rightarrow> (token \<Rightarrow> buffer) \<Rightarrow> ('p \<Rightarrow> bool) \<Rightarrow> tvalue \<Rightarrow> bool" where
  "handled pr w ok v \<longleftrightarrow> (\<forall>ret st s out sm rest p. ret \<in> return_states \<longrightarrow> ok p \<longrightarrow>
     (\<exists>next pushed out1 rest1 p1. ok p1 \<and> next \<noteq> TS_WaitForData \<and> (pushed = [] \<or> (\<exists>fr. pushed = [fr])) \<and>
        handleValue pr (type_of v) ret (sm_at st s out sm p) (wire w (tokens v) @ rest) =
          Inr (next, sm_at st (pushed @ s) out1 sm p1, rest1) \<and>
        (\<forall>s'. leads pr ok (sm_at next (pushed @ s') out1 sm) rest1 (sm_at ret s' (out @ wire w (tokens v)) sm) rest)))"

lemma handled_basic:
  assumes "reads ok rd bs v" "writes ok (wr v) bs" "wire w (tokens tv) = bs"
    and "\<And>ret. handleValue pr (type_of tv) ret = basic_value rd wr ret"
  shows "handled pr w ok tv"
  unfolding handled_def
proof (intro allI impI)
  fix ret st s out sm rest p
  assume ret: "ret \<in> return_states" and p: "ok p"
  from read_write [OF assms(1), where wr = wr, OF assms(2) p, where f = id and g = "\<lambda>sm. Inr (ret, sm)" and st = st and s = s and ?s1.0 = s
      and k = "\<lambda>v sm. bindr (sm_write (wr v) sm) (\<lambda>sm. Inr (ret, sm))" and s' = s and st' = ret and sm = sm and out = out and rest = rest]
  obtain p1 where "ok p1" "basic_value rd wr ret (sm_at st s out sm p) (bs @ rest) = Inr (ret, sm_at st s (out @ bs) sm p1, rest)"
    unfolding basic_value_def by auto
  with ret assms(3,4) show "\<exists>next pushed out1 rest1 p1. ok p1 \<and> next \<noteq> TS_WaitForData \<and> (pushed = [] \<or> (\<exists>fr. pushed = [fr])) \<and>
        handleValue pr (type_of tv) ret (sm_at st s out sm p) (wire w (tokens tv) @ rest) =
          Inr (next, sm_at st (pushed @ s) out1 sm p1, rest1) \<and>
        (\<forall>s'. leads pr ok (sm_at next (pushed @ s') out1 sm) rest1 (sm_at ret s' (out @ wire w (tokens tv)) sm) rest)"
    by (intro exI [of _ ret] exI [of _ "[]"] exI [of _ "out @ bs"] exI [of _ rest] exI [of _ p1])
      (auto simp: return_states_def leads_refl)
qed

lemma handled_container:
  assumes "container_state (type_of tv) = Some nx"
    and "\<And>ret s out sm rest. ret \<in> return_states \<Longrightarrow>
      leads pr ok (sm_at nx (Frame1 ret # s) out sm) (wire w (tokens tv) @ rest) (sm_at ret s (out @ wire w (tokens tv)) sm) rest"
  shows "handled pr w ok tv"
  unfolding handled_def
proof (intro allI impI)
  fix ret st s out sm rest p
  assume ret: "ret \<in> return_states" and p: "ok p"
  have "handleValue pr (type_of tv) ret (sm_at st s out sm p) (wire w (tokens tv) @ rest) =
      Inr (nx, sm_at st (Frame1 ret # s) out sm p, wire w (tokens tv) @ rest)"
    using assms(1) by (cases "type_of tv") (simp_all add: container_state_def handleValue_def sm_pure_def)
  with p ret assms(2) container_state_nested(3) [OF assms(1)]
  show "\<exists>next pushed out1 rest1 p1. ok p1 \<and> next \<noteq> TS_WaitForData \<and> (pushed = [] \<or> (\<exists>fr. pushed = [fr])) \<and>
        handleValue pr (type_of tv) ret (sm_at st s out sm p) (wire w (tokens tv) @ rest) =
          Inr (next, sm_at st (pushed @ s) out1 sm p1, rest1) \<and>
        (\<forall>s'. leads pr ok (sm_at next (pushed @ s') out1 sm) rest1 (sm_at ret s' (out @ wire w (tokens tv)) sm) rest)"
    by (intro exI [of _ nx] exI [of _ "[Frame1 ret]"] exI [of _ out] exI [of _ "wire w (tokens tv) @ rest"] exI [of _ p]) auto
qed

lemma value_leads:
  assumes "handled pr w ok v" "ret \<in> return_states" "st \<noteq> TS_Done"
    and "\<And>p buf. dsm_handleState pr (sm_at st s out sm p) buf = handleValue pr (type_of v) ret (sm_at st s out sm p) buf"
  shows "leads pr ok (sm_at st s out sm) (wire w (tokens v) @ rest) (sm_at ret s (out @ wire w (tokens v)) sm) rest"
  unfolding leads_def
proof (intro allI impI)
  fix p
  assume "ok p"
  with assms(1,2) obtain "next" pushed out1 rest1 p1 where h: "ok p1" "next \<noteq> TS_WaitForData"
      "handleValue pr (type_of v) ret (sm_at st s out sm p) (wire w (tokens v) @ rest) =
        Inr (next, sm_at st (pushed @ s) out1 sm p1, rest1)"
      "\<And>s'. leads pr ok (sm_at next (pushed @ s') out1 sm) rest1 (sm_at ret s' (out @ wire w (tokens v)) sm) rest"
    unfolding handled_def by metis
  have "dsm_run pr (sm_at st s out sm p) (wire w (tokens v) @ rest) = dsm_run pr (sm_at next (pushed @ s) out1 sm p1) rest1"
    using dsm_run_step [OF h(3) [folded assms(4)]] assms(3) h(2) by simp
  with h(1,4) show "\<exists>p'. ok p' \<and> dsm_run pr (sm_at st s out sm p) (wire w (tokens v) @ rest) =
      dsm_run pr (sm_at ret s (out @ wire w (tokens v)) sm p') rest"
    unfolding leads_def by auto
qed

lemma element_leads:
  assumes "handled pr w ok v" "ret \<in> return_states" "st \<noteq> TS_Done"
    and "\<And>p buf. dsm_handleState pr (sm_at st (fr # s) out sm p) buf =
      counted (length s) (handleValue pr (type_of v) ret (sm_at st (fr # s) out sm p) buf)"
  shows "leads pr ok (sm_at st (fr # s) out sm) (wire w (tokens v) @ rest)
    (sm_at ret (dec_frame fr # s) (out @ wire w (tokens v)) sm) rest"
  unfolding leads_def
proof (intro allI impI)
  fix p
  assume "ok p"
  with assms(1,2) obtain "next" pushed out1 rest1 p1 where h: "ok p1" "next \<noteq> TS_WaitForData"
      "pushed = [] \<or> (\<exists>f. pushed = [f])"
      "handleValue pr (type_of v) ret (sm_at st (fr # s) out sm p) (wire w (tokens v) @ rest) =
        Inr (next, sm_at st (pushed @ fr # s) out1 sm p1, rest1)"
      "\<And>s'. leads pr ok (sm_at next (pushed @ s') out1 sm) rest1 (sm_at ret s' (out @ wire w (tokens v)) sm) rest"
    unfolding handled_def by metis
  have "dsm_handleState pr (sm_at st (fr # s) out sm p) (wire w (tokens v) @ rest) =
      Inr (next, sm_at st (pushed @ dec_frame fr # s) out1 sm p1, rest1)"
    using h(2,3) by (auto simp: assms(4) h(4) counted_def dec_remaining_stack)
  then have "dsm_run pr (sm_at st (fr # s) out sm p) (wire w (tokens v) @ rest) =
      dsm_run pr (sm_at next (pushed @ dec_frame fr # s) out1 sm p1) rest1"
    using dsm_run_step assms(3) h(2) by fastforce
  with h(1,5) show "\<exists>p'. ok p' \<and> dsm_run pr (sm_at st (fr # s) out sm p) (wire w (tokens v) @ rest) =
      dsm_run pr (sm_at ret (dec_frame fr # s) (out @ wire w (tokens v)) sm p') rest"
    unfolding leads_def by auto
qed

definition field_tokens :: "string \<times> u16 \<times> tvalue \<Rightarrow> token list" where
  "field_tokens f = (case f of (fn, i, v) \<Rightarrow> Tk_FieldBegin fn (type_of v) i # tokens v @ [Tk_FieldEnd])"

lemma field_tokens_eq: "field_tokens (fn, i, v) = Tk_FieldBegin fn (type_of v) i # tokens v @ [Tk_FieldEnd]"
  by (simp add: field_tokens_def)

lemma type_of_not_Stop [simp]: "type_of v \<noteq> FT_Stop"
  by (cases v) simp_all

lemma fields_leads:
  assumes "wire_format pr w ok valid"
    and "\<forall>(fn, i, v) \<in> set fs. handled pr w ok v" "\<forall>t \<in> set (concat (map field_tokens fs)). valid t"
  shows "leads pr ok (sm_at TS_FieldBegin s out sm) (wire w (concat (map field_tokens fs)) @ rest)
    (sm_at TS_FieldBegin s (out @ wire w (concat (map field_tokens fs))) sm) rest"
  using assms(2,3)
proof (induction fs arbitrary: out)
  case Nil
  then show ?case by (simp add: leads_refl)
next
  case (Cons f fs)
  obtain fn i v where f: "f = (fn, i, v)" by (cases f)
  let ?rest = "wire w (concat (map field_tokens fs)) @ rest"
  let ?h = "w (Tk_FieldBegin fn (type_of v) i)"
  have v: "handled pr w ok v" "valid (Tk_FieldBegin fn (type_of v) i)" using Cons.prems f by (auto simp: field_tokens_eq)
  have "leads pr ok (sm_at TS_FieldBegin s out sm) (?h @ wire w (tokens v) @ w Tk_FieldEnd @ ?rest)
      (sm_at TS_FieldValue (Frame2 TS_FieldEnd (type_of v) # s) (out @ ?h) sm) (wire w (tokens v) @ w Tk_FieldEnd @ ?rest)"
    using assms(1) v(2) by (rule fieldBegin_leads) simp
  also have "leads pr ok (sm_at TS_FieldValue (Frame2 TS_FieldEnd (type_of v) # s) (out @ ?h) sm) (wire w (tokens v) @ w Tk_FieldEnd @ ?rest)
      (sm_at TS_FieldEnd (Frame2 TS_FieldEnd (type_of v) # s) ((out @ ?h) @ wire w (tokens v)) sm) (w Tk_FieldEnd @ ?rest)"
    using v(1) by (rule value_leads) (simp_all add: return_states_def dsm_handleState_def fieldValue_def back_frame_def)
  also have "leads pr ok (sm_at TS_FieldEnd (Frame2 TS_FieldEnd (type_of v) # s) ((out @ ?h) @ wire w (tokens v)) sm) (w Tk_FieldEnd @ ?rest)
      (sm_at TS_FieldBegin s (((out @ ?h) @ wire w (tokens v)) @ w Tk_FieldEnd) sm) ?rest"
    using assms(1) by (rule fieldEnd_leads)
  also have "leads pr ok (sm_at TS_FieldBegin s (((out @ ?h) @ wire w (tokens v)) @ w Tk_FieldEnd) sm) ?rest
      (sm_at TS_FieldBegin s ((((out @ ?h) @ wire w (tokens v)) @ w Tk_FieldEnd) @ wire w (concat (map field_tokens fs))) sm) rest"
    by (rule Cons.IH) (use Cons.prems in auto)
  finally show ?case using f by (simp add: field_tokens_eq)
qed

lemma struct_handled:
  assumes "wire_format pr w ok valid" "\<forall>(fn, i, v) \<in> set fs. handled pr w ok v"
    and "\<forall>t \<in> set (tokens (TStruct n fs)). valid t" "ret \<noteq> TS_WaitForData"
  shows "leads pr ok (sm_at TS_StructBegin (Frame1 ret # s) out sm) (wire w (tokens (TStruct n fs)) @ rest)
    (sm_at ret s (out @ wire w (tokens (TStruct n fs))) sm) rest"
proof -
  have tk: "tokens (TStruct n fs) = Tk_StructBegin n # concat (map field_tokens fs) @ [Tk_FieldBegin [] FT_Stop 0, Tk_StructEnd]"
    by (simp add: field_tokens_def [abs_def])
  let ?fs = "wire w (concat (map field_tokens fs))"
  let ?stop = "w (Tk_FieldBegin [] FT_Stop 0)"
  let ?out = "out @ w (Tk_StructBegin n)"
  have a: "leads pr ok (sm_at TS_StructBegin (Frame1 ret # s) out sm) (w (Tk_StructBegin n) @ ?fs @ ?stop @ w Tk_StructEnd @ rest)
      (sm_at TS_FieldBegin (Frame1 ret # s) ?out sm) (?fs @ ?stop @ w Tk_StructEnd @ rest)"
    using assms(1) by (rule structBegin_leads) (use assms(3) in simp)
  have b: "leads pr ok (sm_at TS_FieldBegin (Frame1 ret # s) ?out sm) (?fs @ ?stop @ w Tk_StructEnd @ rest)
      (sm_at TS_FieldBegin (Frame1 ret # s) (?out @ ?fs) sm) (?stop @ w Tk_StructEnd @ rest)"
    using assms(1,2) by (rule fields_leads) (use assms(3) [unfolded tk] in simp)
  have c: "leads pr ok (sm_at TS_FieldBegin (Frame1 ret # s) (?out @ ?fs) sm) (?stop @ w Tk_StructEnd @ rest)
      (sm_at TS_StructEnd (Frame1 ret # s) (?out @ ?fs) sm) (w Tk_StructEnd @ rest)"
    using assms(1) by (rule stop_leads)
  have d: "leads pr ok (sm_at TS_StructEnd (Frame1 ret # s) (?out @ ?fs) sm) (w Tk_StructEnd @ rest)
      (sm_at (fr_return_state (Frame1 ret)) s ((?out @ ?fs) @ ?stop @ w Tk_StructEnd) sm) rest"
    using assms(1) by (rule structEnd_leads) (use assms(4) in simp)
  show ?thesis
    using leads_trans [OF leads_trans [OF leads_trans [OF a b] c] d]
    by (simp only: tk wire_simps append_assoc append_Nil2 append_Nil Frame_fields)
qed

text \<open>The elements of a list or of a set.\<close>

lemma elements_leads:
  assumes "\<forall>v \<in> set vs. handled pr w ok v \<and> type_of v = ty" "length vs < 2 ^ 32" "st \<in> {TS_ListValue, TS_SetValue}"
    and "fr_elem_type fr = ty" "fr_remaining fr = word_of_nat (length vs)" "fr_return_state fr \<noteq> TS_WaitForData"
    and "\<And>fr s out p buf. dsm_handleState pr (sm_at st (fr # s) out sm p) buf =
      (if fr_remaining fr = 0 then sm_pure popReturnState (sm_at st (fr # s) out sm p) buf
       else counted (length s) (handleValue pr (fr_elem_type fr) st (sm_at st (fr # s) out sm p) buf))"
  shows "leads pr ok (sm_at st (fr # s) out sm) (wire w (concat (map tokens vs)) @ rest)
    (sm_at (fr_return_state fr) s (out @ wire w (concat (map tokens vs))) sm) rest"
  using assms(1,2,4-6)
proof (induction vs arbitrary: fr out)
  case Nil
  show ?case
    unfolding list.map concat.simps wire_simps append_Nil append_Nil2
    by (rule leads_step) (use Nil assms(3,7) in \<open>auto simp: sm_pure_def popReturnState_def\<close>)
next
  case (Cons v vs)
  have n: "fr_remaining fr \<noteq> 0"
  proof
    assume "fr_remaining fr = 0"
    then have "unat (word_of_nat (Suc (length vs)) :: u32) = 0" using Cons.prems(4) by simp
    then show False using Cons.prems(2) by (simp add: unat_of_nat take_bit_nat_eq_self del: of_nat_Suc)
  qed
  have a: "leads pr ok (sm_at st (fr # s) out sm) (wire w (tokens v) @ wire w (concat (map tokens vs)) @ rest)
      (sm_at st (dec_frame fr # s) (out @ wire w (tokens v)) sm) (wire w (concat (map tokens vs)) @ rest)"
    by (rule element_leads) (use Cons.prems assms(3,7) n in \<open>auto simp: return_states_def\<close>)
  have b: "leads pr ok (sm_at st (dec_frame fr # s) (out @ wire w (tokens v)) sm) (wire w (concat (map tokens vs)) @ rest)
      (sm_at (fr_return_state (dec_frame fr)) s ((out @ wire w (tokens v)) @ wire w (concat (map tokens vs))) sm) rest"
    by (rule Cons.IH) (use Cons.prems in auto)
  from leads_trans [OF a b] show ?case by simp
qed

lemma listValue_handles:
  "dsm_handleState pr (sm_at TS_ListValue (fr # s) out sm p) buf =
     (if fr_remaining fr = 0 then sm_pure popReturnState (sm_at TS_ListValue (fr # s) out sm p) buf
      else counted (length s) (handleValue pr (fr_elem_type fr) TS_ListValue (sm_at TS_ListValue (fr # s) out sm p) buf))"
  by (simp add: dsm_handleState_def listValue_def back_frame_def)

lemma setValue_handles:
  "dsm_handleState pr (sm_at TS_SetValue (fr # s) out sm p) buf =
     (if fr_remaining fr = 0 then sm_pure popReturnState (sm_at TS_SetValue (fr # s) out sm p) buf
      else counted (length s) (handleValue pr (fr_elem_type fr) TS_SetValue (sm_at TS_SetValue (fr # s) out sm p) buf))"
  by (simp add: dsm_handleState_def setValue_def back_frame_def)

lemma mapKey_handles:
  "dsm_handleState pr (sm_at TS_MapKey (fr # s) out sm p) buf =
     (if fr_remaining fr = 0 then sm_pure popReturnState (sm_at TS_MapKey (fr # s) out sm p) buf
      else handleValue pr (fr_elem_type fr) TS_MapValue (sm_at TS_MapKey (fr # s) out sm p) buf)"
  by (simp add: dsm_handleState_def mapKey_def back_frame_def)

lemma mapValue_handles:
  "dsm_handleState pr (sm_at TS_MapValue (fr # s) out sm p) buf =
     counted (length s) (handleValue pr (fr_value_type fr) TS_MapKey (sm_at TS_MapValue (fr # s) out sm p) buf)"
  by (simp add: dsm_handleState_def mapValue_def back_frame_def)

lemma remaining_not_0:
  assumes "r = (word_of_nat (length (x # xs)) :: u32)" "length (x # xs) < 2 ^ 32"
  shows "r \<noteq> 0"
proof
  assume "r = 0"
  then have "unat (word_of_nat (Suc (length xs)) :: u32) = 0" using assms(1) by simp
  then show False using assms(2) by (simp add: unat_of_nat take_bit_nat_eq_self del: of_nat_Suc)
qed

definition pair_tokens :: "tvalue \<times> tvalue \<Rightarrow> token list" where
  "pair_tokens kv = (case kv of (k, v) \<Rightarrow> tokens k @ tokens v)"

lemma pairs_leads:
  assumes "\<forall>(k, v) \<in> set kvs. handled pr w ok k \<and> handled pr w ok v \<and> type_of k = kt \<and> type_of v = vt" "length kvs < 2 ^ 32"
    and "fr_elem_type fr = kt" "fr_value_type fr = vt" "fr_remaining fr = word_of_nat (length kvs)"
    and "fr_return_state fr \<noteq> TS_WaitForData"
  shows "leads pr ok (sm_at TS_MapKey (fr # s) out sm) (wire w (concat (map pair_tokens kvs)) @ rest)
    (sm_at (fr_return_state fr) s (out @ wire w (concat (map pair_tokens kvs))) sm) rest"
  using assms
proof (induction kvs arbitrary: fr out)
  case Nil
  show ?case
    unfolding list.map concat.simps wire_simps append_Nil append_Nil2
    by (rule leads_step) (use Nil in \<open>auto simp: mapKey_handles sm_pure_def popReturnState_def\<close>)
next
  case (Cons kv kvs)
  obtain k v where kv: "kv = (k, v)" by (cases kv)
  have n: "fr_remaining fr \<noteq> 0" by (rule remaining_not_0 [OF Cons.prems(5,2)])
  let ?rest = "wire w (concat (map pair_tokens kvs)) @ rest"
  have a: "leads pr ok (sm_at TS_MapKey (fr # s) out sm) (wire w (tokens k) @ wire w (tokens v) @ ?rest)
      (sm_at TS_MapValue (fr # s) (out @ wire w (tokens k)) sm) (wire w (tokens v) @ ?rest)"
    by (rule value_leads) (use Cons.prems kv n in \<open>auto simp: return_states_def mapKey_handles\<close>)
  have b: "leads pr ok (sm_at TS_MapValue (fr # s) (out @ wire w (tokens k)) sm) (wire w (tokens v) @ ?rest)
      (sm_at TS_MapKey (dec_frame fr # s) ((out @ wire w (tokens k)) @ wire w (tokens v)) sm) ?rest"
    by (rule element_leads) (use Cons.prems kv in \<open>auto simp: return_states_def mapValue_handles\<close>)
  have c: "leads pr ok (sm_at TS_MapKey (dec_frame fr # s) ((out @ wire w (tokens k)) @ wire w (tokens v)) sm) ?rest
      (sm_at (fr_return_state (dec_frame fr)) s (((out @ wire w (tokens k)) @ wire w (tokens v)) @ wire w (concat (map pair_tokens kvs))) sm) rest"
    by (rule Cons.IH) (use Cons.prems in auto)
  from leads_trans [OF leads_trans [OF a b] c] show ?case by (simp add: kv pair_tokens_def [of "(k, v)"])
qed

text \<open>The header of a container.\<close>

lemma container_begin_leads:
  assumes "reads ok rd bs v" "writes ok wr bs" "st \<noteq> TS_Done" "st' \<noteq> TS_WaitForData"
    and "\<And>s out p buf. dsm_handleState pr (sm_at st s out sm p) buf = sm_read rd k (sm_at st s out sm p) buf"
    and "\<And>sm. k v sm = bindr (sm_write wr (push_frame fr sm)) (\<lambda>sm. Inr (st', sm))"
  shows "leads pr ok (sm_at st s out sm) (bs @ rest) (sm_at st' (fr # s) (out @ bs) sm) rest"
proof (rule leads_step)
  fix p
  assume "ok p"
  then obtain p1 p2 where "ok p2" "rd p (bs @ rest) = Inr (Some (v, rest), p1)" "wr p1 = Inr (bs, p2)"
    using readsD [OF assms(1)] writesD [OF assms(2)] by metis
  then show "\<exists>p'. ok p' \<and> dsm_handleState pr (sm_at st s out sm p) (bs @ rest) = Inr (st', sm_at st (fr # s) (out @ bs) sm p', rest)"
    by (auto simp: assms(5,6) sm_read_def sm_write_def)
qed (use assms in simp_all)

lemma list_handled:
  assumes "wire_format pr w ok valid" "\<forall>v \<in> set vs. handled pr w ok v \<and> type_of v = ty" "length vs < 2 ^ 32"
    and "valid (Tk_ListBegin ty (word_of_nat (length vs)))" "ret \<noteq> TS_WaitForData"
  shows "leads pr ok (sm_at TS_ListBegin (Frame1 ret # s) out sm) (wire w (tokens (TList ty vs)) @ rest)
    (sm_at ret s (out @ wire w (tokens (TList ty vs))) sm) rest"
proof -
  let ?h = "w (Tk_ListBegin ty (word_of_nat (length vs)))"
  let ?vs = "wire w (concat (map tokens vs))"
  let ?fr = "Frame3 TS_ListEnd ty (word_of_nat (length vs))"
  have l: "reads ok (readListBegin pr) ?h (ty, word_of_nat (length vs))" "writes ok (writeListBegin pr ty (word_of_nat (length vs))) ?h"
    "reads ok (readListEnd pr) (w Tk_ListEnd) ()" "writes ok (writeListEnd pr) (w Tk_ListEnd)"
    using assms(1,4) by (simp_all add: wire_format_def wire_reads_def wire_writes_def)
  have a: "leads pr ok (sm_at TS_ListBegin (Frame1 ret # s) out sm) (?h @ ?vs @ w Tk_ListEnd @ rest)
      (sm_at TS_ListValue (?fr # Frame1 ret # s) (out @ ?h) sm) (?vs @ w Tk_ListEnd @ rest)"
    using l(1,2) by (rule container_begin_leads [where k = "\<lambda>(elem_type, size) sm.
      bindr (sm_write (writeListBegin pr elem_type size) (push_frame (Frame3 TS_ListEnd elem_type size) sm)) (\<lambda>sm. Inr (TS_ListValue, sm))"]) (simp_all add: dsm_handleState_def listBegin_def)
  have b: "leads pr ok (sm_at TS_ListValue (?fr # Frame1 ret # s) (out @ ?h) sm) (?vs @ w Tk_ListEnd @ rest)
      (sm_at (fr_return_state ?fr) (Frame1 ret # s) ((out @ ?h) @ ?vs) sm) (w Tk_ListEnd @ rest)"
    using assms(2,3) by (rule elements_leads) (simp_all add: listValue_handles)
  have c: "leads pr ok (sm_at TS_ListEnd (Frame1 ret # s) ((out @ ?h) @ ?vs) sm) (w Tk_ListEnd @ rest)
      (sm_at (fr_return_state (Frame1 ret)) s (((out @ ?h) @ ?vs) @ w Tk_ListEnd) sm) rest"
    using l(3,4) by (rule container_end_leads) (simp_all add: assms(5) dsm_handleState_def listEnd_def)
  from leads_trans [OF leads_trans [OF a b [unfolded Frame_fields]] c] show ?thesis by simp
qed

lemma set_handled:
  assumes "wire_format pr w ok valid" "\<forall>v \<in> set vs. handled pr w ok v \<and> type_of v = ty" "length vs < 2 ^ 32"
    and "valid (Tk_SetBegin ty (word_of_nat (length vs)))" "ret \<noteq> TS_WaitForData"
  shows "leads pr ok (sm_at TS_SetBegin (Frame1 ret # s) out sm) (wire w (tokens (TSet ty vs)) @ rest)
    (sm_at ret s (out @ wire w (tokens (TSet ty vs))) sm) rest"
proof -
  let ?h = "w (Tk_SetBegin ty (word_of_nat (length vs)))"
  let ?vs = "wire w (concat (map tokens vs))"
  let ?fr = "Frame3 TS_SetEnd ty (word_of_nat (length vs))"
  have l: "reads ok (readSetBegin pr) ?h (ty, word_of_nat (length vs))" "writes ok (writeSetBegin pr ty (word_of_nat (length vs))) ?h"
    "reads ok (readSetEnd pr) (w Tk_SetEnd) ()" "writes ok (writeSetEnd pr) (w Tk_SetEnd)"
    using assms(1,4) by (simp_all add: wire_format_def wire_reads_def wire_writes_def)
  have a: "leads pr ok (sm_at TS_SetBegin (Frame1 ret # s) out sm) (?h @ ?vs @ w Tk_SetEnd @ rest)
      (sm_at TS_SetValue (?fr # Frame1 ret # s) (out @ ?h) sm) (?vs @ w Tk_SetEnd @ rest)"
    using l(1,2) by (rule container_begin_leads [where k = "\<lambda>(elem_type, size) sm.
      bindr (sm_write (writeSetBegin pr elem_type size) (push_frame (Frame3 TS_SetEnd elem_type size) sm)) (\<lambda>sm. Inr (TS_SetValue, sm))"]) (simp_all add: dsm_handleState_def setBegin_def)
  have b: "leads pr ok (sm_at TS_SetValue (?fr # Frame1 ret # s) (out @ ?h) sm) (?vs @ w Tk_SetEnd @ rest)
      (sm_at (fr_return_state ?fr) (Frame1 ret # s) ((out @ ?h) @ ?vs) sm) (w Tk_SetEnd @ rest)"
    using assms(2,3) by (rule elements_leads) (simp_all add: setValue_handles)
  have c: "leads pr ok (sm_at TS_SetEnd (Frame1 ret # s) ((out @ ?h) @ ?vs) sm) (w Tk_SetEnd @ rest)
      (sm_at (fr_return_state (Frame1 ret)) s (((out @ ?h) @ ?vs) @ w Tk_SetEnd) sm) rest"
    using l(3,4) by (rule container_end_leads) (simp_all add: assms(5) dsm_handleState_def setEnd_def)
  from leads_trans [OF leads_trans [OF a b [unfolded Frame_fields]] c] show ?thesis by simp
qed

lemma map_handled:
  assumes "wire_format pr w ok valid"
    and "\<forall>(k, v) \<in> set kvs. handled pr w ok k \<and> handled pr w ok v \<and> type_of k = kt \<and> type_of v = vt" "length kvs < 2 ^ 32"
    and "valid (Tk_MapBegin kt vt (word_of_nat (length kvs)))" "ret \<noteq> TS_WaitForData"
  shows "leads pr ok (sm_at TS_MapBegin (Frame1 ret # s) out sm) (wire w (tokens (TMap kt vt kvs)) @ rest)
    (sm_at ret s (out @ wire w (tokens (TMap kt vt kvs))) sm) rest"
proof -
  let ?h = "w (Tk_MapBegin kt vt (word_of_nat (length kvs)))"
  let ?vs = "wire w (concat (map pair_tokens kvs))"
  let ?fr = "Frame4 TS_MapEnd kt vt (word_of_nat (length kvs))"
  have l: "reads ok (readMapBegin pr) ?h (kt, vt, word_of_nat (length kvs))"
    "writes ok (writeMapBegin pr kt vt (word_of_nat (length kvs))) ?h"
    "reads ok (readMapEnd pr) (w Tk_MapEnd) ()" "writes ok (writeMapEnd pr) (w Tk_MapEnd)"
    using assms(1,4) by (simp_all add: wire_format_def wire_reads_def wire_writes_def)
  have a: "leads pr ok (sm_at TS_MapBegin (Frame1 ret # s) out sm) (?h @ ?vs @ w Tk_MapEnd @ rest)
      (sm_at TS_MapKey (?fr # Frame1 ret # s) (out @ ?h) sm) (?vs @ w Tk_MapEnd @ rest)"
    using l(1,2) by (rule container_begin_leads [where k = "\<lambda>(key_type, value_type, size) sm.
      bindr (sm_write (writeMapBegin pr key_type value_type size) (push_frame (Frame4 TS_MapEnd key_type value_type size) sm))
        (\<lambda>sm. Inr (TS_MapKey, sm))"]) (simp_all add: dsm_handleState_def mapBegin_def)
  have b: "leads pr ok (sm_at TS_MapKey (?fr # Frame1 ret # s) (out @ ?h) sm) (?vs @ w Tk_MapEnd @ rest)
      (sm_at (fr_return_state ?fr) (Frame1 ret # s) ((out @ ?h) @ ?vs) sm) (w Tk_MapEnd @ rest)"
    using assms(2,3) by (rule pairs_leads) simp_all
  have c: "leads pr ok (sm_at TS_MapEnd (Frame1 ret # s) ((out @ ?h) @ ?vs) sm) (w Tk_MapEnd @ rest)
      (sm_at (fr_return_state (Frame1 ret)) s (((out @ ?h) @ ?vs) @ w Tk_MapEnd) sm) rest"
    using l(3,4) by (rule container_end_leads) (simp_all add: assms(5) dsm_handleState_def mapEnd_def)
  from leads_trans [OF leads_trans [OF a b [unfolded Frame_fields]] c] show ?thesis
    by (simp add: pair_tokens_def [abs_def])
qed

lemma all_handled:
  assumes "wire_format pr w ok valid"
  shows "\<lbrakk>well_typed v; \<forall>t \<in> set (tokens v). valid t\<rbrakk> \<Longrightarrow> handled pr w ok v"
proof (induction v)
  case (TStruct n fs)
  have fs: "\<forall>(fn, i, v) \<in> set fs. handled pr w ok v"
  proof (clarify)
    fix fn i v
    assume m: "(fn, i, v) \<in> set fs"
    show "handled pr w ok v"
      by (rule TStruct.IH [OF m, of "(i, v)" v]) (use TStruct.prems m in \<open>auto simp: snds.simps\<close>)
  qed
  show ?case
    by (rule handled_container [where nx = TS_StructBegin])
      (use struct_handled [OF assms fs TStruct.prems(2)] in \<open>auto simp: container_state_def return_states_def\<close>)
next
  case (TMap kt vt kvs)
  have kvs: "\<forall>(k, v) \<in> set kvs. handled pr w ok k \<and> handled pr w ok v \<and> type_of k = kt \<and> type_of v = vt"
  proof (clarify)
    fix k v
    assume m: "(k, v) \<in> set kvs"
    have "handled pr w ok k" by (rule TMap.IH(1) [OF m, of k]) (use TMap.prems m in \<open>auto simp: fsts.simps\<close>)
    moreover have "handled pr w ok v" by (rule TMap.IH(2) [OF m, of v]) (use TMap.prems m in \<open>auto simp: snds.simps\<close>)
    ultimately show "handled pr w ok k \<and> handled pr w ok v \<and> type_of k = kt \<and> type_of v = vt" using TMap.prems m by auto
  qed
  show ?case
    by (rule handled_container [where nx = TS_MapBegin])
      (use map_handled [OF assms kvs] TMap.prems in \<open>auto simp: container_state_def return_states_def\<close>)
next
  case (TList ty vs)
  have "\<forall>v \<in> set vs. handled pr w ok v \<and> type_of v = ty" using TList by auto
  then show ?case
    by (intro handled_container [where nx = TS_ListBegin])
      (use list_handled [OF assms] TList.prems in \<open>auto simp: container_state_def return_states_def\<close>)
next
  case (TSet ty vs)
  have "\<forall>v \<in> set vs. handled pr w ok v \<and> type_of v = ty" using TSet by auto
  then show ?case
    by (intro handled_container [where nx = TS_SetBegin])
      (use set_handled [OF assms] TSet.prems in \<open>auto simp: container_state_def return_states_def\<close>)
next
  case (TBool b)
  show ?case by (rule handled_basic [of ok "readBool pr" "w (Tk_Bool b)" b "writeBool pr"])
    (use assms TBool in \<open>simp_all add: wire_format_def wire_reads_def wire_writes_def handleValue_def\<close>)
next
  case (TByte b)
  show ?case by (rule handled_basic [of ok "readByte pr" "w (Tk_Byte b)" b "writeByte pr"])
    (use assms TByte in \<open>simp_all add: wire_format_def wire_reads_def wire_writes_def handleValue_def\<close>)
next
  case (TI16 b)
  show ?case by (rule handled_basic [of ok "readInt16 pr" "w (Tk_I16 b)" b "writeInt16 pr"])
    (use assms TI16 in \<open>simp_all add: wire_format_def wire_reads_def wire_writes_def handleValue_def\<close>)
next
  case (TI32 b)
  show ?case by (rule handled_basic [of ok "readInt32 pr" "w (Tk_I32 b)" b "writeInt32 pr"])
    (use assms TI32 in \<open>simp_all add: wire_format_def wire_reads_def wire_writes_def handleValue_def\<close>)
next
  case (TI64 b)
  show ?case by (rule handled_basic [of ok "readInt64 pr" "w (Tk_I64 b)" b "writeInt64 pr"])
    (use assms TI64 in \<open>simp_all add: wire_format_def wire_reads_def wire_writes_def handleValue_def\<close>)
next
  case (TDouble b)
  show ?case by (rule handled_basic [of ok "readDouble pr" "w (Tk_Double b)" b "writeDouble pr"])
    (use assms TDouble in \<open>simp_all add: wire_format_def wire_reads_def wire_writes_def handleValue_def\<close>)
next
  case (TString b)
  show ?case by (rule handled_basic [of ok "readString pr" "w (Tk_String b)" b "writeString pr"])
    (use assms TString in \<open>simp_all add: wire_format_def wire_reads_def wire_writes_def handleValue_def\<close>)
qed

section \<open>Whole messages\<close>

lemma messageBegin_runs:
  assumes "wire_format pr w ok valid" "valid (Tk_MessageBegin name ty seq)"
  shows "\<exists>p'. ok p' \<and> dsm_run pr (new_dsm p md) (w (Tk_MessageBegin name ty seq) @ rest) =
    dsm_run pr (sm_at TS_StructBegin [Frame1 TS_MessageEnd] (w (Tk_MessageBegin name ty seq)) (new_dsm p (header_of name ty seq md)) p') rest"
proof -
  have "\<forall>name ty seq md p rest. valid (Tk_MessageBegin name ty seq) \<longrightarrow>
      (\<exists>p'. ok p' \<and> readMessageBegin pr md p (w (Tk_MessageBegin name ty seq) @ rest) =
         Inr (Some (header_of name ty seq md, rest), p'))"
    using assms(1) unfolding wire_format_def wire_reads_def by (elim conjE) assumption
  with assms(2) obtain p1 where p1: "ok p1" "readMessageBegin pr md p (w (Tk_MessageBegin name ty seq) @ rest) =
      Inr (Some (header_of name ty seq md, rest), p1)" by blast
  have "writes ok (writeMessageBegin pr (header_of name ty seq md)) (w (Tk_MessageBegin name ty seq))"
    using assms(1) unfolding wire_format_def wire_writes_def by (elim conjE) blast
  from writesD [OF this p1(1)] obtain p2 where p2: "ok p2"
      "writeMessageBegin pr (header_of name ty seq md) p1 = Inr (w (Tk_MessageBegin name ty seq), p2)" by blast
  have "dsm_handleState pr (new_dsm p md) (w (Tk_MessageBegin name ty seq) @ rest) =
      Inr (TS_StructBegin, sm_at TS_MessageBegin [Frame1 TS_MessageEnd] (w (Tk_MessageBegin name ty seq))
             (new_dsm p (header_of name ty seq md)) p2, rest)"
    using p1(2) p2(2) by (simp add: dsm_handleState_def messageBegin_def new_dsm_def sm_write_def sm_at_def)
  from dsm_run_step [OF this] p2(1) show ?thesis by (auto simp: new_dsm_def)
qed

lemma messageEnd_runs:
  assumes "wire_format pr w ok valid" "ok p"
  shows "\<exists>p'. ok p' \<and> dsm_run pr (sm_at TS_MessageEnd s out sm p) (w Tk_MessageEnd @ rest) =
    Some (Inr (TS_Done, sm_at TS_Done s (out @ w Tk_MessageEnd) sm p', rest))"
proof -
  have l: "reads ok (readMessageEnd pr) (w Tk_MessageEnd) ()" "writes ok (writeMessageEnd pr) (w Tk_MessageEnd)"
    using assms by (simp_all add: wire_format_def wire_reads_def wire_writes_def)
  obtain p1 p2 where p: "ok p2" "readMessageEnd pr p (w Tk_MessageEnd @ rest) = Inr (Some ((), rest), p1)"
      "writeMessageEnd pr p1 = Inr (w Tk_MessageEnd, p2)"
    using readsD [OF l(1) assms(2)] writesD [OF l(2)] by metis
  then have "dsm_handleState pr (sm_at TS_MessageEnd s out sm p) (w Tk_MessageEnd @ rest) =
      Inr (TS_Done, sm_at TS_MessageEnd s (out @ w Tk_MessageEnd) sm p2, rest)"
    by (simp add: dsm_handleState_def messageEnd_def sm_read_def sm_write_def)
  from dsm_run_step [OF this] p(1) show ?thesis by (auto simp: dsm_run.simps)
qed

text \<open>The machine reads a message from its first byte to its last and writes it again, byte for byte.\<close>

lemma dsm_run_message:
  assumes "wire_format pr w ok valid" "well_typed v" "type_of v = FT_Struct" "\<forall>t \<in> set (message_tokens name ty seq v). valid t"
  shows "\<exists>sm. dsm_run pr (new_dsm p md) (wire w (message_tokens name ty seq v) @ rest) = Some (Inr (TS_Done, sm, rest)) \<and>
    sm_origin_message sm = wire w (message_tokens name ty seq v) \<and> sm_metadata sm = header_of name ty seq md \<and> ok (sm_proto sm)"
proof -
  let ?h = "w (Tk_MessageBegin name ty seq)" and ?v = "wire w (tokens v)"
  let ?sm = "new_dsm p (header_of name ty seq md)"
  have valid: "valid (Tk_MessageBegin name ty seq)" "\<forall>t \<in> set (tokens v). valid t" using assms(4) by (auto simp: message_tokens_def)
  obtain n fs where v: "v = TStruct n fs" using assms(3) by (cases v) auto
  have fs: "\<forall>(fn, i, v) \<in> set fs. handled pr w ok v"
    using assms(2) valid(2) v by (auto intro!: all_handled [OF assms(1)])
  obtain p1 where p1: "ok p1" "dsm_run pr (new_dsm p md) (?h @ ?v @ w Tk_MessageEnd @ rest) =
      dsm_run pr (sm_at TS_StructBegin [Frame1 TS_MessageEnd] ?h ?sm p1) (?v @ w Tk_MessageEnd @ rest)"
    using messageBegin_runs [OF assms(1) valid(1)] by blast
  have "leads pr ok (sm_at TS_StructBegin [Frame1 TS_MessageEnd] ?h ?sm) (?v @ w Tk_MessageEnd @ rest)
      (sm_at TS_MessageEnd [] (?h @ ?v) ?sm) (w Tk_MessageEnd @ rest)"
    using struct_handled [OF assms(1) fs, of n TS_MessageEnd "[]"] valid(2) v by simp
  with p1 obtain p2 where p2: "ok p2" "dsm_run pr (new_dsm p md) (?h @ ?v @ w Tk_MessageEnd @ rest) =
      dsm_run pr (sm_at TS_MessageEnd [] (?h @ ?v) ?sm p2) (w Tk_MessageEnd @ rest)"
    unfolding leads_def by auto
  from messageEnd_runs [OF assms(1) p2(1)] obtain p3 where "ok p3" "dsm_run pr (new_dsm p md) (?h @ ?v @ w Tk_MessageEnd @ rest) =
      Some (Inr (TS_Done, sm_at TS_Done [] ((?h @ ?v) @ w Tk_MessageEnd) ?sm p3, rest))"
    using p2(2) by metis
  then show ?thesis by (auto simp: message_tokens_def new_dsm_def)
qed

section \<open>Frames\<close>

text \<open>
  What a transport promises that puts a header before a message and a trailer after it: it takes away what
  it added, and does not report a protocol or an exception of its own.
\<close>

definition frame_of :: "(buffer \<Rightarrow> buffer) \<Rightarrow> (buffer \<Rightarrow> buffer) \<Rightarrow> buffer \<Rightarrow> buffer" where
  "frame_of fhead ftail msg = fhead msg @ msg @ ftail msg"

definition frame_format ::
  "'t thrift_transport \<Rightarrow> (buffer \<Rightarrow> buffer) \<Rightarrow> (buffer \<Rightarrow> buffer) \<Rightarrow> ('t \<Rightarrow> bool) \<Rightarrow> (buffer \<Rightarrow> bool) \<Rightarrow> bool" where
  "frame_format tr fhead ftail okt fits \<longleftrightarrow>
     (\<forall>mm msg. fits msg \<longrightarrow> writes okt (encodeFrame tr mm msg) (frame_of fhead ftail msg)) \<and>
     (\<forall>md msg t rest. fits msg \<longrightarrow>
        (\<exists>md' t'. okt t' \<and> decodeFrameStart tr md t (fhead msg @ rest) = Inr (Some (md', rest), t') \<and>
           mm_proto md' = mm_proto md \<and> mm_app_ex_type md' = mm_app_ex_type md)) \<and>
     (\<forall>msg. fits msg \<longrightarrow> reads okt (decodeFrameEnd tr) (ftail msg) ())"

definition thrift_idle :: "('t, 'p) thrift_codec \<Rightarrow> bool" where
  "thrift_idle c \<longleftrightarrow> \<not> tc_frame_started c \<and> \<not> tc_frame_ended c \<and> tc_metadata c = None"

definition thrift_decoded :: "string \<Rightarrow> thrift_message_type \<Rightarrow> u32 \<Rightarrow> buffer \<Rightarrow> 'x metadata \<Rightarrow> 'x metadata" where
  "thrift_decoded name ty seq frame md =
     (putString ''method'' name md)\<lparr>md_request_id := scast seq, md_message_type := of_thrift_message_type ty,
        md_origin_message := md_origin_message (putString ''method'' name md) @ frame\<rparr>"

lemma thrift_decode_frame:
  assumes "wire_format pr w ok valid" "well_typed v" "type_of v = FT_Struct" "\<forall>t \<in> set (message_tokens name ty seq v). valid t"
    and "frame_format tr fhead ftail okt fits" "fits (wire w (message_tokens name ty seq v))" "thrift_idle c"
  shows "\<exists>c'. thrift_decode tr pr c (frame_of fhead ftail (wire w (message_tokens name ty seq v)) @ rest) md =
      Some (Inr (Done, c', rest, thrift_decoded name ty seq (frame_of fhead ftail (wire w (message_tokens name ty seq v))) md)) \<and>
    thrift_idle c' \<and> ok (tc_protocol c') \<and> okt (tc_transport c')"
proof -
  let ?msg = "wire w (message_tokens name ty seq v)"
  let ?frame = "frame_of fhead ftail ?msg"
  have idle: "\<not> tc_frame_started c" "\<not> tc_frame_ended c" "tc_metadata c = None" using assms(7) by (simp_all add: thrift_idle_def)
  obtain md1 t1 where t1: "okt t1" "decodeFrameStart tr new_msg_metadata (tc_transport c) (fhead ?msg @ ?msg @ ftail ?msg @ rest) =
      Inr (Some (md1, ?msg @ ftail ?msg @ rest), t1)" "mm_proto md1 = None" "mm_app_ex_type md1 = None"
    using assms(5,6) unfolding frame_format_def new_msg_metadata_def by (elim conjE) (metis msg_metadata.select_convs(2,9))
  define c1 where "c1 = c\<lparr>tc_metadata := Some md1, tc_transport := t1, tc_frame_started := True,
      tc_state_machine := Some (new_dsm (tc_protocol c) md1)\<rparr>"
  have "thrift_frame_start tr pr c (?frame @ rest) = Inr (True, c1, ?msg @ ftail ?msg @ rest)"
    using t1 idle by (simp add: thrift_frame_start_def frame_of_def negotiate_protocol_def c1_def)
  then have start: "thrift_decode tr pr c (?frame @ rest) md =
      thrift_continue tr pr c1 (new_dsm (tc_protocol c) md1) (?msg @ ftail ?msg @ rest) md"
    using idle by (simp add: thrift_decode_fresh) (simp add: thrift_decode_started c1_def)
  obtain sm where sm: "dsm_run pr (new_dsm (tc_protocol c) md1) (?msg @ ftail ?msg @ rest) = Some (Inr (TS_Done, sm, ftail ?msg @ rest))"
      "sm_origin_message sm = ?msg" "sm_metadata sm = header_of name ty seq md1" "ok (sm_proto sm)"
    using dsm_run_message [OF assms(1-4)] by blast
  obtain t2 where t2: "okt t2" "decodeFrameEnd tr t1 (ftail ?msg @ rest) = Inr (Some ((), rest), t2)"
    using assms(5,6) t1(1) unfolding frame_format_def reads_def by blast
  obtain t3 where t3: "okt t3" "encodeFrame tr (header_of name ty seq md1) ?msg t2 = Inr (?frame, t3)"
    using assms(5,6) t2(1) unfolding frame_format_def writes_def by blast
  have "thrift_toMetadata tr (header_of name ty seq md1) ?msg t2 md = Inr (thrift_decoded name ty seq ?frame md, t3)"
    using t3(2) by (simp add: thrift_toMetadata_def header_of_def opt_value_def thrift_decoded_def)
  then have "thrift_continue tr pr c1 (new_dsm (tc_protocol c) md1) (?msg @ ftail ?msg @ rest) md =
      Some (Inr (Done, thrift_complete (c1\<lparr>tc_protocol := sm_proto sm, tc_state_machine := Some sm,
        tc_transport := t3, tc_frame_ended := True, tc_metadata := None\<rparr>), rest, thrift_decoded name ty seq ?frame md))"
    using sm t2(2) by (simp add: thrift_continue_def thrift_frame_end_def c1_def)
  with start sm(4) t3(1) show ?thesis by (auto simp: thrift_complete_def thrift_idle_def)
qed

section \<open>Error replies\<close>

definition app_exception :: "string \<Rightarrow> tvalue" where
  "app_exception msg = TStruct TApplicationException
     [(''message'', 1, TString msg), (''type'', 2, TI32 (word_of_nat (app_exception_number InternalError)))]"

lemma write_all_wire:
  assumes "list_all2 (\<lambda>wr t. writes ok wr (w t)) ws ts" "ok p"
  shows "\<exists>p'. ok p' \<and> write_all ws p = Inr (wire w ts, p')"
  using assms
proof (induction ws ts arbitrary: p rule: list_all2_induct)
  case (Cons wr ws t ts)
  obtain p1 where p1: "ok p1" "wr p = Inr (w t, p1)" using writesD [OF Cons(1) Cons(4)] by blast
  obtain p2 where "ok p2" "write_all ws p1 = Inr (wire w ts, p2)" using Cons(3) [OF p1(1)] by blast
  with p1 show ?case by simp
qed simp

lemma app_exception_writes:
  assumes "wire_format pr w ok valid" "ok p"
  shows "\<exists>p'. ok p' \<and> write_all (app_exception_writes pr (header_of name ty seq md) msg) p =
    Inr (wire w (message_tokens name ty seq (app_exception msg)), p')"
proof (rule write_all_wire)
  show "list_all2 (\<lambda>wr t. writes ok wr (w t)) (app_exception_writes pr (header_of name ty seq md) msg)
      (message_tokens name ty seq (app_exception msg))"
    using assms(1) unfolding wire_format_def wire_writes_def
    by (simp add: app_exception_writes_def message_tokens_def app_exception_def)
qed (rule assms(2))

lemma thrift_onError_frame:
  assumes "wire_format pr w ok valid" "frame_format tr fhead ftail okt fits" "ok (tc_protocol c)" "okt (tc_transport c)"
    and "getString ''method'' md = Inr m"
    and "fits (wire w (message_tokens m Exception (ucast (md_request_id md)) (app_exception (err_message err))))"
  shows "\<exists>c'. thrift_onError tr pr md err c buffer =
    Inr (buffer @ frame_of fhead ftail (wire w (message_tokens m Exception (ucast (md_request_id md)) (app_exception (err_message err)))), c')"
proof -
  let ?mm = "header_of m Exception (ucast (md_request_id md)) new_msg_metadata"
  let ?msg = "wire w (message_tokens m Exception (ucast (md_request_id md)) (app_exception (err_message err)))"
  obtain p' where p': "write_all (app_exception_writes pr ?mm (err_message err)) (tc_protocol c) = Inr (?msg, p')"
    using app_exception_writes [OF assms(1,3)] by blast
  have "writes okt (encodeFrame tr ?mm ?msg) (frame_of fhead ftail ?msg)" using assms(2,6) by (simp add: frame_format_def)
  from writesD [OF this assms(4)] obtain t' where t': "encodeFrame tr ?mm ?msg (tc_transport c) = Inr (frame_of fhead ftail ?msg, t')"
    by blast
  show ?thesis
    using p' t' assms(5)
    by (auto simp: thrift_onError_def thrift_toMsgMetadata_def header_of_def new_msg_metadata_def Let_def)
qed

end
