(* ===== verification/Thrift_Binary.thy ===== *)
theory Thrift_Binary
  imports Thrift_Wire
begin

text \<open>
  The properties of the Thrift codec: chunking and termination for every protocol that reads incrementally and
  makes progress, the others for every protocol and transport that keep the promises of
  \<^verbatim>\<open>Thrift_Wire\<close>; and a protocol and a transport that keep them: the strict binary encoding of
  Apache Thrift behind a four-byte length.  These two are not a model of Envoy's implementations, which are
  not part of the repository; they show that the promises can be kept and give the properties a concrete run.
\<close>

section \<open>Parsers\<close>

text \<open>A reader without a state: None when more data is needed.\<close>

type_synonym 'a parser = "buffer \<Rightarrow> ('a \<times> buffer) option res"

definition reader_of :: "'a parser \<Rightarrow> (unit, 'a) reader" where
  "reader_of f p b = bindr (f b) (\<lambda>x. Inr (x, p))"

definition p_ret :: "'a \<Rightarrow> 'a parser" where
  "p_ret v b = Inr (Some (v, b))"

definition p_fail :: "string \<Rightarrow> 'a parser" where
  "p_fail msg b = Inl (EnvoyException msg)"

definition p_bytes :: "nat \<Rightarrow> buffer parser" where
  "p_bytes n b = (if length b < n then Inr None else Inr (Some (take n b, drop n b)))"

definition p_bind :: "'a parser \<Rightarrow> ('a \<Rightarrow> 'b parser) \<Rightarrow> 'b parser" where
  "p_bind f g b = bindr (f b) (\<lambda>x. case x of None \<Rightarrow> Inr None | Some (v, b') \<Rightarrow> g v b')"

definition p_map :: "('a \<Rightarrow> 'b) \<Rightarrow> 'a parser \<Rightarrow> 'b parser" where
  "p_map h f = p_bind f (\<lambda>v. p_ret (h v))"

definition p_int :: "('a::len word) parser" where
  "p_int = p_map (\<lambda>bs. word_of_nat (be_get bs)) (p_bytes (LENGTH('a) div 8))"

definition stable :: "'a parser \<Rightarrow> bool" where
  "stable f \<longleftrightarrow> (\<forall>b ext. (\<forall>e. f b = Inl e \<longrightarrow> f (b @ ext) = Inl e) \<and>
     (\<forall>v b'. f b = Inr (Some (v, b')) \<longrightarrow> f (b @ ext) = Inr (Some (v, b' @ ext))))"

definition takes :: "nat \<Rightarrow> 'a parser \<Rightarrow> bool" where
  "takes n f \<longleftrightarrow> (\<forall>b v b'. f b = Inr (Some (v, b')) \<longrightarrow> length b' + n \<le> length b)"

definition parses :: "'a parser \<Rightarrow> buffer \<Rightarrow> 'a \<Rightarrow> bool" where
  "parses f bs v \<longleftrightarrow> (\<forall>rest. f (bs @ rest) = Inr (Some (v, rest)))"

lemma stable_intros [simp, intro]:
  "stable (p_ret v)" "stable (p_fail msg)" "stable (p_bytes n)"
  by (auto simp: stable_def p_ret_def p_fail_def p_bytes_def)

lemma stable_bind [simp, intro]:
  assumes "stable f" "\<And>v. stable (g v)"
  shows "stable (p_bind f g)"
  unfolding stable_def
proof (intro allI)
  fix b ext
  note f = assms(1) [unfolded stable_def, rule_format, of b ext]
  show "(\<forall>e. p_bind f g b = Inl e \<longrightarrow> p_bind f g (b @ ext) = Inl e) \<and>
    (\<forall>v b'. p_bind f g b = Inr (Some (v, b')) \<longrightarrow> p_bind f g (b @ ext) = Inr (Some (v, b' @ ext)))"
  proof (cases "f b")
    case (Inl e)
    with f show ?thesis by (simp add: p_bind_def)
  next
    case (Inr x)
    show ?thesis
    proof (cases x)
      case None
      with Inr show ?thesis by (simp add: p_bind_def)
    next
      case (Some y)
      obtain v b1 where y: "y = (v, b1)" by (cases y)
      from assms(2) [of v, unfolded stable_def, rule_format, of b1 ext] f Inr Some y show ?thesis by (simp add: p_bind_def)
    qed
  qed
qed

lemma stable_map [simp, intro]: "stable f \<Longrightarrow> stable (p_map h f)"
  by (simp add: p_map_def)

lemma stable_int [simp, intro]: "stable p_int"
  by (simp add: p_int_def)

lemma takes_intros:
  "takes 0 (p_ret v)" "takes n (p_fail msg)" "takes n (p_bytes n)"
  by (auto simp: takes_def p_ret_def p_fail_def p_bytes_def)

lemma takes_bind:
  assumes "takes m f" "\<And>v. takes n (g v)"
  shows "takes (m + n) (p_bind f g)"
  unfolding takes_def p_bind_def
proof (intro allI impI)
  fix b v b'
  assume "bindr (f b) (\<lambda>x. case x of None \<Rightarrow> Inr None | Some (v, b') \<Rightarrow> g v b') = Inr (Some (v, b'))"
  then obtain u b1 where "f b = Inr (Some (u, b1))" "g u b1 = Inr (Some (v, b'))" by (auto simp: bindr_eq_Inr split: option.splits)
  with assms show "length b' + (m + n) \<le> length b" unfolding takes_def by fastforce
qed

lemma takes_map: "takes n f \<Longrightarrow> takes n (p_map h f)"
  unfolding p_map_def by (drule takes_bind [OF _ takes_intros(1), of n f h]) simp

lemma takes_int: "takes (LENGTH('a) div 8) (p_int :: ('a::len word) parser)"
  unfolding p_int_def by (rule takes_map) (rule takes_intros)

lemma takes_weaken: "takes n f \<Longrightarrow> m \<le> n \<Longrightarrow> takes m f"
  unfolding takes_def by fastforce

lemma incremental_reader: "stable f \<Longrightarrow> incremental (reader_of f)"
  unfolding incremental_def stable_def reader_of_def by (auto simp: bindr_eq_Inl bindr_eq_Inr)

lemma no_growth_reader: "takes n f \<Longrightarrow> no_growth (reader_of f)"
  unfolding no_growth_def takes_def reader_of_def by (fastforce simp: bindr_eq_Inr)

lemma consuming_reader: "takes (Suc n) f \<Longrightarrow> consuming_read (reader_of f)"
  unfolding consuming_read_def takes_def reader_of_def by (fastforce simp: bindr_eq_Inr)

lemma reads_reader: "parses f bs v \<Longrightarrow> reads ok (reader_of f) bs v"
  by (auto simp: parses_def reads_def reader_of_def)

lemma parses_ret: "parses (p_ret v) [] v"
  by (simp add: parses_def p_ret_def)

lemma parses_bytes: "length bs = n \<Longrightarrow> parses (p_bytes n) bs bs"
  by (simp add: parses_def p_bytes_def)

lemma parses_bind: "parses f bs u \<Longrightarrow> parses (g u) bs' v \<Longrightarrow> parses (p_bind f g) (bs @ bs') v"
  by (simp add: parses_def p_bind_def)

lemma parses_map: "parses f bs u \<Longrightarrow> parses (p_map h f) bs (h u)"
  unfolding p_map_def using parses_bind [of f bs u "\<lambda>v. p_ret (h v)" "[]"] by (simp add: parses_ret)

lemma parses_int: "8 dvd LENGTH('a) \<Longrightarrow> parses p_int (be_bytes w) (w :: 'a::len word)"
  unfolding p_int_def
  using parses_map [OF parses_bytes, of "be_bytes w" "LENGTH('a) div 8" "\<lambda>bs. word_of_nat (be_get bs) :: 'a word"]
  by (simp add: be_get_be_bytes)

section \<open>The binary protocol\<close>

definition ft_byte :: "field_type \<Rightarrow> byte" where
  "ft_byte ty = word_of_int (field_type_number ty)"

definition ft_of_byte :: "byte \<Rightarrow> field_type" where
  "ft_of_byte b =
     (case filter (\<lambda>ty. ft_byte ty = b)
         [FT_Stop, FT_Void, FT_Bool, FT_Byte, FT_Double, FT_I16, FT_I32, FT_I64, FT_String, FT_Struct, FT_Map, FT_Set, FT_List] of
        [] \<Rightarrow> FT_Other (sint b) | ty # _ \<Rightarrow> ty)"

definition ft_ok :: "field_type \<Rightarrow> bool" where
  "ft_ok ty \<longleftrightarrow> ft_of_byte (ft_byte ty) = ty"

fun mt_byte :: "thrift_message_type \<Rightarrow> byte" where
  "mt_byte Call = 1"
| "mt_byte Reply = 2"
| "mt_byte Exception = 3"
| "mt_byte T_Oneway = 4"

definition p_string :: "string parser" where
  "p_string = p_bind (p_int :: u32 parser) (\<lambda>n. p_map chars_of_bytes (p_bytes (unat n)))"

definition string_bytes :: "string \<Rightarrow> buffer" where
  "string_bytes s = be_bytes (word_of_nat (length s) :: u32) @ bytes_of_chars s"

definition p_ft :: "field_type parser" where
  "p_ft = p_map ft_of_byte p_int"

definition p_messageBegin :: "msg_metadata \<Rightarrow> msg_metadata parser" where
  "p_messageBegin md =
     p_bind (p_bytes 4) (\<lambda>ver.
       if take 3 ver \<noteq> [0x80, 1, 0] then p_fail ''invalid binary protocol version''
       else case filter (\<lambda>ty. mt_byte ty = ver ! 3) [Call, Reply, Exception, T_Oneway] of
         [] \<Rightarrow> p_fail ''invalid binary protocol message type''
       | ty # _ \<Rightarrow> p_bind p_string (\<lambda>name. p_map (\<lambda>seq. header_of name ty seq md) p_int))"

definition p_fieldBegin :: "(string \<times> field_type \<times> u16) parser" where
  "p_fieldBegin = p_bind p_ft (\<lambda>ty.
     if ty = FT_Stop then p_ret ([], FT_Stop, 0) else p_map (\<lambda>i. ([], ty, i)) p_int)"

definition p_mapBegin :: "(field_type \<times> field_type \<times> u32) parser" where
  "p_mapBegin = p_bind p_ft (\<lambda>kt. p_bind p_ft (\<lambda>vt. p_map (\<lambda>n. (kt, vt, n)) p_int))"

definition p_listBegin :: "(field_type \<times> u32) parser" where
  "p_listBegin = p_bind p_ft (\<lambda>ty. p_map (\<lambda>n. (ty, n)) p_int)"

text \<open>The bytes of a token.\<close>

fun binary_wire :: "token \<Rightarrow> buffer" where
  "binary_wire (Tk_MessageBegin name ty seq) = [0x80, 1, 0, mt_byte ty] @ string_bytes name @ be_bytes seq"
| "binary_wire (Tk_FieldBegin n ty i) = ft_byte ty # (if ty = FT_Stop then [] else be_bytes i)"
| "binary_wire (Tk_MapBegin kt vt n) = ft_byte kt # ft_byte vt # be_bytes n"
| "binary_wire (Tk_ListBegin ty n) = ft_byte ty # be_bytes n"
| "binary_wire (Tk_SetBegin ty n) = ft_byte ty # be_bytes n"
| "binary_wire (Tk_Bool b) = [if b then 1 else 0]"
| "binary_wire (Tk_Byte b) = [b]"
| "binary_wire (Tk_I16 i) = be_bytes i"
| "binary_wire (Tk_I32 i) = be_bytes i"
| "binary_wire (Tk_I64 i) = be_bytes i"
| "binary_wire (Tk_Double d) = be_bytes d"
| "binary_wire (Tk_String s) = string_bytes s"
| "binary_wire _ = []"

fun binary_valid :: "token \<Rightarrow> bool" where
  "binary_valid (Tk_MessageBegin name ty seq) \<longleftrightarrow> length name < 2 ^ 32"
| "binary_valid (Tk_FieldBegin n ty i) \<longleftrightarrow> ft_ok ty"
| "binary_valid (Tk_MapBegin kt vt n) \<longleftrightarrow> ft_ok kt \<and> ft_ok vt"
| "binary_valid (Tk_ListBegin ty n) \<longleftrightarrow> ft_ok ty"
| "binary_valid (Tk_SetBegin ty n) \<longleftrightarrow> ft_ok ty"
| "binary_valid (Tk_String s) \<longleftrightarrow> length s < 2 ^ 32"
| "binary_valid _ \<longleftrightarrow> True"

definition put_token :: "token \<Rightarrow> unit writer" where
  "put_token t p = Inr (binary_wire t, p)"

definition binary_protocol :: "unit thrift_protocol" where
  "binary_protocol = \<lparr>pr_type = (\<lambda>_. Binary), pr_setType = (\<lambda>_ p. p),
     readMessageBegin = (\<lambda>md. reader_of (p_messageBegin md)), readMessageEnd = reader_of (p_ret ()),
     readStructBegin = reader_of (p_ret []), readStructEnd = reader_of (p_ret ()),
     readFieldBegin = reader_of p_fieldBegin, readFieldEnd = reader_of (p_ret ()),
     readMapBegin = reader_of p_mapBegin, readMapEnd = reader_of (p_ret ()),
     readListBegin = reader_of p_listBegin, readListEnd = reader_of (p_ret ()),
     readSetBegin = reader_of p_listBegin, readSetEnd = reader_of (p_ret ()),
     readBool = reader_of (p_map (\<lambda>b :: byte. b \<noteq> 0) p_int), readByte = reader_of p_int, readInt16 = reader_of p_int,
     readInt32 = reader_of p_int, readInt64 = reader_of p_int, readDouble = reader_of p_int, readString = reader_of p_string,
     writeMessageBegin = (\<lambda>md. put_token (Tk_MessageBegin (the (mm_method_name md)) (the (mm_msg_type md)) (the (mm_seq_id md)))),
     writeMessageEnd = put_token Tk_MessageEnd, writeStructBegin = (\<lambda>n. put_token (Tk_StructBegin n)),
     writeStructEnd = put_token Tk_StructEnd, writeFieldBegin = (\<lambda>n ty i. put_token (Tk_FieldBegin n ty i)),
     writeFieldEnd = put_token Tk_FieldEnd, writeMapBegin = (\<lambda>kt vt n. put_token (Tk_MapBegin kt vt n)),
     writeMapEnd = put_token Tk_MapEnd, writeListBegin = (\<lambda>ty n. put_token (Tk_ListBegin ty n)),
     writeListEnd = put_token Tk_ListEnd, writeSetBegin = (\<lambda>ty n. put_token (Tk_SetBegin ty n)),
     writeSetEnd = put_token Tk_SetEnd, writeBool = (\<lambda>v. put_token (Tk_Bool v)), writeByte = (\<lambda>v. put_token (Tk_Byte v)),
     writeInt16 = (\<lambda>v. put_token (Tk_I16 v)), writeInt32 = (\<lambda>v. put_token (Tk_I32 v)), writeInt64 = (\<lambda>v. put_token (Tk_I64 v)),
     writeDouble = (\<lambda>v. put_token (Tk_Double v)), writeString = (\<lambda>v. put_token (Tk_String v))\<rparr>"

lemma ft_ok_type_of: "ft_ok (type_of v)"
  by (cases v) (simp_all add: ft_ok_def ft_of_byte_def ft_byte_def)

lemma takes_0_map: "takes n f \<Longrightarrow> takes 0 (p_map h f)"
  by (rule takes_weaken [OF takes_map]) simp_all

lemma takes_string: "takes 4 p_string"
  unfolding p_string_def
proof (rule takes_bind [where m = 4 and n = 0, simplified])
  show "takes 4 (p_int :: u32 parser)" using takes_int [where 'a = 32] by simp
qed (rule takes_0_map [OF takes_intros(3)])

lemma takes_ft: "takes 1 p_ft"
  unfolding p_ft_def using takes_map [OF takes_int [where 'a = 8]] by simp

lemma takes_bind_0: "takes n f \<Longrightarrow> (\<And>v. takes 0 (g v)) \<Longrightarrow> takes n (p_bind f g)"
  using takes_bind [of n f 0 g] by simp

lemma takes_0: "takes n f \<Longrightarrow> takes 0 f"
  by (rule takes_weaken) simp_all

lemma takes_headers: "takes 1 (p_messageBegin md)" "takes 1 p_fieldBegin" "takes 1 p_mapBegin" "takes 1 p_listBegin"
proof -
  show "takes 1 p_fieldBegin" unfolding p_fieldBegin_def
    by (rule takes_bind_0 [OF takes_ft]) (simp add: takes_intros takes_0_map [OF takes_int])
  show "takes 1 p_listBegin" unfolding p_listBegin_def
    by (rule takes_bind_0 [OF takes_ft]) (rule takes_0_map [OF takes_int])
  show "takes 1 p_mapBegin" unfolding p_mapBegin_def
    by (rule takes_bind_0 [OF takes_ft], rule takes_bind_0 [OF takes_0 [OF takes_ft]], rule takes_0_map [OF takes_int])
  show "takes 1 (p_messageBegin md)" unfolding p_messageBegin_def
  proof (rule takes_bind_0)
    show "takes 1 (p_bytes 4)" by (rule takes_weaken [OF takes_intros(3)]) simp
    fix v :: buffer
    have "takes 0 (p_bind p_string (\<lambda>name. p_map (\<lambda>seq. header_of name ty seq md) p_int))" for ty
      by (rule takes_bind_0 [OF takes_0 [OF takes_string]], rule takes_0_map [OF takes_int])
    then show "takes 0 (if take 3 v \<noteq> [0x80, 1, 0] then p_fail ''invalid binary protocol version''
       else case filter (\<lambda>ty. mt_byte ty = v ! 3) [Call, Reply, Exception, T_Oneway] of
         [] \<Rightarrow> p_fail ''invalid binary protocol message type''
       | ty # _ \<Rightarrow> p_bind p_string (\<lambda>name. p_map (\<lambda>seq. header_of name ty seq md) p_int))"
      by (simp add: takes_intros split: list.split)
  qed
qed

lemma stable_string: "stable p_string" "stable p_ft"
  by (simp_all add: p_string_def p_ft_def)

lemma stable_headers: "stable (p_messageBegin md)" "stable p_fieldBegin" "stable p_mapBegin" "stable p_listBegin"
  unfolding p_messageBegin_def p_fieldBegin_def p_mapBegin_def p_listBegin_def
  by (auto simp: stable_string split: list.split)

lemma binary_incremental: "incremental_protocol binary_protocol"
  by (simp add: incremental_protocol_def binary_protocol_def incremental_reader stable_headers stable_string)

lemma binary_progressive: "progressive binary_protocol"
proof -
  have ints: "no_growth (reader_of (p_int :: byte parser))" "no_growth (reader_of (p_int :: u16 parser))"
    "no_growth (reader_of (p_int :: u32 parser))" "no_growth (reader_of (p_int :: u64 parser))"
    "no_growth (reader_of (p_map (\<lambda>b :: byte. b \<noteq> 0) p_int))"
    using no_growth_reader [OF takes_int] no_growth_reader [OF takes_map [OF takes_int]] by blast+
  have headers: "consuming_read (reader_of (p_messageBegin md))" "consuming_read (reader_of p_fieldBegin)"
    "consuming_read (reader_of p_mapBegin)" "consuming_read (reader_of p_listBegin)" for md
    using takes_headers by (simp_all add: consuming_reader [of 0])
  show ?thesis
    by (simp add: progressive_def binary_protocol_def ints headers no_growth_reader [OF takes_intros(1)]
        no_growth_reader [OF takes_string])
qed

lemma parses_string: "length s < 2 ^ 32 \<Longrightarrow> parses p_string (string_bytes s) s"
proof -
  assume "length s < 2 ^ 32"
  then have n: "unat (word_of_nat (length s) :: u32) = length s" by (simp add: unat_of_nat take_bit_nat_eq_self)
  have "parses (p_map chars_of_bytes (p_bytes (length s))) (bytes_of_chars s) (chars_of_bytes (bytes_of_chars s))"
    by (rule parses_map [OF parses_bytes]) simp
  then show ?thesis
    unfolding p_string_def string_bytes_def using n by (intro parses_bind [OF parses_int]) simp_all
qed

lemma parses_ft: "ft_ok ty \<Longrightarrow> parses p_ft [ft_byte ty] ty"
  using parses_map [OF parses_int [where 'a = 8], of ft_of_byte "ft_byte ty"] by (simp add: p_ft_def ft_ok_def)

lemma parses_ints:
  "parses p_int [b] (b :: byte)" "parses p_int (be_bytes i) (i :: u16)" "parses p_int (be_bytes j) (j :: u32)"
  "parses p_int (be_bytes k) (k :: u64)"
  using parses_int [where 'a = 8, of b] by (simp_all add: parses_int)

lemma mt_byte_inverse: "filter (\<lambda>t. mt_byte t = mt_byte ty) [Call, Reply, Exception, T_Oneway] = [ty]"
  by (cases ty) simp_all

lemma parses_messageBegin:
  assumes "length name < 2 ^ 32"
  shows "parses (p_messageBegin md) (binary_wire (Tk_MessageBegin name ty seq)) (header_of name ty seq md)"
  unfolding p_messageBegin_def binary_wire.simps
proof (rule parses_bind [OF parses_bytes])
  have "parses (p_bind p_string (\<lambda>name. p_map (\<lambda>seq. header_of name ty seq md) p_int)) (string_bytes name @ be_bytes seq)
      (header_of name ty seq md)"
    by (rule parses_bind [OF parses_string [OF assms]], rule parses_map [OF parses_ints(3)])
  then show "parses (if take 3 [0x80, 1, 0, mt_byte ty] \<noteq> [0x80, 1, 0] then p_fail ''invalid binary protocol version''
       else case filter (\<lambda>t. mt_byte t = [0x80, 1, 0, mt_byte ty] ! 3) [Call, Reply, Exception, T_Oneway] of
         [] \<Rightarrow> p_fail ''invalid binary protocol message type''
       | ty # _ \<Rightarrow> p_bind p_string (\<lambda>name. p_map (\<lambda>seq. header_of name ty seq md) p_int)) (string_bytes name @ be_bytes seq)
      (header_of name ty seq md)"
    using mt_byte_inverse [of ty] by (simp add: numeral_3_eq_3 del: filter.simps)
qed simp

lemma parses_fieldBegin:
  "ft_ok ty \<Longrightarrow> ty \<noteq> FT_Stop \<Longrightarrow> parses p_fieldBegin (binary_wire (Tk_FieldBegin n ty i)) ([], ty, i)"
  "parses p_fieldBegin (binary_wire (Tk_FieldBegin n FT_Stop i)) ([], FT_Stop, 0)"
  unfolding p_fieldBegin_def
  using parses_bind [OF parses_ft, of ty "\<lambda>ty. if ty = FT_Stop then p_ret ([], FT_Stop, 0) else p_map (\<lambda>i. ([], ty, i)) p_int"
      "be_bytes i" "([], ty, i)"]
    parses_bind [OF parses_ft, of FT_Stop "\<lambda>ty. if ty = FT_Stop then p_ret ([], FT_Stop, 0) else p_map (\<lambda>i. ([], ty, i)) p_int"
      "[]" "([], FT_Stop, 0)"]
    parses_map [OF parses_ints(2), of "\<lambda>i. ([], ty, i)" i]
  by (simp_all add: parses_ret ft_ok_def ft_of_byte_def ft_byte_def)

lemma parses_listBegin: "ft_ok ty \<Longrightarrow> parses p_listBegin (ft_byte ty # be_bytes n) (ty, n)"
  unfolding p_listBegin_def
  using parses_bind [OF parses_ft, of ty "\<lambda>ty. p_map (\<lambda>n. (ty, n)) p_int" "be_bytes n" "(ty, n)"]
    parses_map [OF parses_ints(3), of "\<lambda>n. (ty, n)" n] by simp

lemma parses_mapBegin: "ft_ok kt \<Longrightarrow> ft_ok vt \<Longrightarrow> parses p_mapBegin (ft_byte kt # ft_byte vt # be_bytes n) (kt, vt, n)"
  unfolding p_mapBegin_def
  using parses_bind [OF parses_ft, of kt "\<lambda>kt. p_bind p_ft (\<lambda>vt. p_map (\<lambda>n. (kt, vt, n)) p_int)" "ft_byte vt # be_bytes n" "(kt, vt, n)"]
    parses_bind [OF parses_ft, of vt "\<lambda>vt. p_map (\<lambda>n. (kt, vt, n)) p_int" "be_bytes n" "(kt, vt, n)"]
    parses_map [OF parses_ints(3), of "\<lambda>n. (kt, vt, n)" n] by simp

lemma parses_bool: "parses (p_map (\<lambda>b :: byte. b \<noteq> 0) p_int) [if b then 1 else 0] b"
  using parses_map [OF parses_ints(1), of "\<lambda>b. b \<noteq> 0" "if b then 1 else 0"] by (cases b) simp_all

lemma binary_format: "wire_format binary_protocol binary_wire (\<lambda>_. True) binary_valid"
proof -
  have "wire_writes binary_protocol binary_wire (\<lambda>_. True)"
    by (simp add: wire_writes_def writes_def binary_protocol_def put_token_def header_of_def)
  moreover have "\<exists>p'. readMessageBegin binary_protocol md p (binary_wire (Tk_MessageBegin name ty seq) @ rest) =
      Inr (Some (header_of name ty seq md, rest), p')" if "length name < 2 ^ 32" for name ty seq md p rest
    using parses_messageBegin [OF that, of md ty seq] by (simp add: binary_protocol_def reader_of_def parses_def del: binary_wire.simps)
  moreover have "\<exists>n'. reads (\<lambda>_. True) (reader_of (p_ret ([] :: string))) [] n'"
    by (intro exI [of _ "[]"] reads_reader parses_ret)
  moreover have "\<exists>n'. reads (\<lambda>_. True) (reader_of p_fieldBegin) (binary_wire (Tk_FieldBegin n ty i)) (n', ty, i) \<and>
      binary_wire (Tk_FieldBegin n' ty i) = binary_wire (Tk_FieldBegin n ty i)" if "ft_ok ty" "ty \<noteq> FT_Stop" for n ty i
    using reads_reader [OF parses_fieldBegin(1) [OF that]] by (intro exI [of _ "[]"]) simp
  moreover have "\<exists>n i. reads (\<lambda>_. True) (reader_of p_fieldBegin) (binary_wire (Tk_FieldBegin [] FT_Stop 0)) (n, FT_Stop, i)"
    by (intro exI [of _ "[]"] exI [of _ 0] reads_reader parses_fieldBegin(2))
  moreover have "reads (\<lambda>_. True) (reader_of (p_map (\<lambda>b :: byte. b \<noteq> 0) p_int)) (binary_wire (Tk_Bool v)) v" for v
    using reads_reader [OF parses_bool] by simp
  ultimately have "wire_writes binary_protocol binary_wire (\<lambda>_. True)" "wire_reads binary_protocol binary_wire (\<lambda>_. True) binary_valid"
    unfolding wire_reads_def
    by (simp_all add: binary_protocol_def reads_reader parses_listBegin parses_mapBegin parses_ints parses_string parses_ret
         del: binary_wire.simps(1,2,6))
  then show ?thesis by (simp add: wire_format_def)
qed

section \<open>The framed transport\<close>

definition framed_transport :: "unit thrift_transport" where
  "framed_transport = \<lparr>decodeFrameStart = (\<lambda>md. reader_of (p_map (\<lambda>n. md\<lparr>mm_frame_size := Some n\<rparr>) p_int)),
     decodeFrameEnd = reader_of (p_ret ()),
     encodeFrame = (\<lambda>mm msg t. Inr (be_bytes (word_of_nat (length msg) :: u32) @ msg, t))\<rparr>"

definition framed_head :: "buffer \<Rightarrow> buffer" where
  "framed_head msg = be_bytes (word_of_nat (length msg) :: u32)"

lemma framed_format: "frame_format framed_transport framed_head (\<lambda>_. []) (\<lambda>_. True) (\<lambda>_. True)"
proof -
  have "reader_of (p_map (\<lambda>n. md\<lparr>mm_frame_size := Some n\<rparr>) p_int) t (framed_head msg @ rest) =
      Inr (Some (md\<lparr>mm_frame_size := Some (word_of_nat (length msg))\<rparr>, rest), t)"
    for md :: msg_metadata and t :: unit and msg rest
    using parses_map [OF parses_ints(3), of "\<lambda>n. md\<lparr>mm_frame_size := Some n\<rparr>" "word_of_nat (length msg)"]
    by (simp add: parses_def reader_of_def framed_head_def)
  moreover have "reads (\<lambda>_. True) (reader_of (p_ret ())) [] ()" by (rule reads_reader [OF parses_ret])
  ultimately show ?thesis
    unfolding frame_format_def framed_transport_def
    by (auto simp: writes_def frame_of_def framed_head_def)
qed

lemma framed_incremental: "incremental_transport framed_transport"
  by (simp add: incremental_transport_def framed_transport_def incremental_reader)

lemma framed_progressive: "progressive_transport framed_transport"
  by (simp add: progressive_transport_def framed_transport_def no_growth_reader [OF takes_intros(1)]
      no_growth_reader [OF takes_map [OF takes_int]])

section \<open>Properties\<close>

definition thrift_frame ::
  "(token \<Rightarrow> buffer) \<Rightarrow> (buffer \<Rightarrow> buffer) \<Rightarrow> (buffer \<Rightarrow> buffer) \<Rightarrow> string \<times> thrift_message_type \<times> u32 \<times> tvalue \<Rightarrow> buffer" where
  "thrift_frame w fhead ftail m = (case m of (name, ty, seq, v) \<Rightarrow> frame_of fhead ftail (wire w (message_tokens name ty seq v)))"

definition thrift_fits :: "(token \<Rightarrow> buffer) \<Rightarrow> (token \<Rightarrow> bool) \<Rightarrow> (buffer \<Rightarrow> bool) \<Rightarrow> string \<times> thrift_message_type \<times> u32 \<times> tvalue \<Rightarrow> bool" where
  "thrift_fits w valid fits m = (case m of (name, ty, seq, v) \<Rightarrow>
     well_typed v \<and> type_of v = FT_Struct \<and> (\<forall>t \<in> set (message_tokens name ty seq v). valid t) \<and>
     fits (wire w (message_tokens name ty seq v)))"

definition thrift_delivered ::
  "(token \<Rightarrow> buffer) \<Rightarrow> (buffer \<Rightarrow> buffer) \<Rightarrow> (buffer \<Rightarrow> buffer) \<Rightarrow> message_type \<Rightarrow> string \<times> thrift_message_type \<times> u32 \<times> tvalue
   \<Rightarrow> 'x metadata" where
  "thrift_delivered w fhead ftail mt m = (case m of (name, ty, seq, v) \<Rightarrow>
     thrift_decoded name ty seq (thrift_frame w fhead ftail m) (fresh_metadata mt))"

lemma header_not_Nil:
  assumes "wire_format pr w ok valid" "progressive pr" "valid (Tk_MessageBegin name ty seq)"
  shows "w (Tk_MessageBegin name ty seq) \<noteq> []"
proof
  assume e: "w (Tk_MessageBegin name ty seq) = []"
  have "\<forall>name ty seq md p rest. valid (Tk_MessageBegin name ty seq) \<longrightarrow>
      (\<exists>p'. ok p' \<and> readMessageBegin pr md p (w (Tk_MessageBegin name ty seq) @ rest) =
         Inr (Some (header_of name ty seq md, rest), p'))"
    using assms(1) unfolding wire_format_def wire_reads_def by (elim conjE) assumption
  with assms(3) obtain p' where "readMessageBegin pr new_msg_metadata undefined (w (Tk_MessageBegin name ty seq) @ []) =
      Inr (Some (header_of name ty seq new_msg_metadata, []), p')" by blast
  from consuming_readD [OF progressiveD(1) [OF assms(2)] this] e show False by simp
qed

lemma thrift_serves:
  fixes d :: "(('t, 'p) thrift_codec, unit, 'x) decoder"
  assumes "wire_format pr w ok valid" "progressive pr" "frame_format tr fhead ftail okt fits"
    and "\<forall>m \<in> set msgs. thrift_fits w valid fits m" "thrift_idle (d_codec d)" "msgs \<noteq> []"
  shows "\<exists>d'. dispatch_loop (thrift_decode_fn tr pr) recorder d (concat (map (thrift_frame w fhead ftail) msgs)) s =
      Some (Inr (d', []), s @ map (thrift_delivered w fhead ftail (d_messageType d)) msgs) \<and> thrift_idle (d_codec d')"
  using assms(4-6)
proof (induction msgs arbitrary: d s)
  case (Cons m msgs)
  obtain name ty seq v where m: "m = (name, ty, seq, v)" by (cases m)
  let ?rest = "concat (map (thrift_frame w fhead ftail) msgs)"
  let ?md = "thrift_delivered w fhead ftail (d_messageType d) m :: 'x metadata"
  have fit: "well_typed v" "type_of v = FT_Struct" "\<forall>t \<in> set (message_tokens name ty seq v). valid t"
    "fits (wire w (message_tokens name ty seq v))" using Cons.prems(1) m by (simp_all add: thrift_fits_def)
  obtain c where c: "thrift_decode tr pr (d_codec d) (thrift_frame w fhead ftail m @ ?rest) (fresh_metadata (d_messageType d)) =
      Some (Inr (Done, c, ?rest, ?md))" "thrift_idle c"
    using thrift_decode_frame [OF assms(1) fit(1-3) assms(3) fit(4) Cons.prems(2)] m
    by (auto simp: thrift_frame_def thrift_delivered_def)
  from c(1) have "thrift_decode_fn tr pr (d_codec d) (thrift_frame w fhead ftail m @ ?rest) (fresh_metadata (d_messageType d)) =
      Inr (Done, c, ?rest, ?md)" by (simp add: thrift_decode_fn_def)
  then have d: "onData (thrift_decode_fn tr pr) recorder d (thrift_frame w fhead ftail m @ ?rest) s =
      (Inr (?rest = [], idle c d, ?rest), s @ [?md])"
    by (subst onData_done) (assumption, simp)
  show ?case
  proof (cases "msgs = []")
    case True
    with d c(2) show ?thesis by (subst dispatch_loop.simps) simp
  next
    case False
    then obtain m' ms where "msgs = m' # ms" by (cases msgs) auto
    moreover obtain name' ty' seq' v' where "m' = (name', ty', seq', v')" by (cases m')
    ultimately have "?rest \<noteq> []"
      using Cons.prems(1) header_not_Nil [OF assms(1,2), of name' ty' seq']
      by (simp add: thrift_frame_def frame_of_def message_tokens_def thrift_fits_def)
    then have rest: "(?rest = []) = False" by blast
    obtain d' where "dispatch_loop (thrift_decode_fn tr pr) recorder (idle c d) ?rest (s @ [?md]) =
        Some (Inr (d', []), (s @ [?md]) @ map (thrift_delivered w fhead ftail (d_messageType d)) msgs)" "thrift_idle (d_codec d')"
      using Cons.IH [of "idle c d" "s @ [?md]"] Cons.prems(1) c(2) False by auto
    with d show ?thesis unfolding rest by (subst dispatch_loop.simps) simp
  qed
qed simp

text \<open>
  C13: the state machine of the Thrift codec implements the grammar of Thrift messages: whatever the tree of
  structs, lists, sets and maps, a connection that carries whole messages one after the other delivers each of
  them, in order, with its method, sequence id and type, and with the bytes of its frame as they came; nothing
  is left in the buffer and the codec is ready for the next frame.  The protocol is any whose
  operations have bytes of their own and read what they write (the binary protocols, not the compact one), the
  transport any that puts a header and a trailer around a message.
\<close>

theorem thrift_serves_messages:
  fixes d :: "(('t, 'p) thrift_codec, unit, 'x) decoder"
  assumes "wire_format pr w ok valid" "progressive pr" "frame_format tr fhead ftail okt fits"
    and "\<forall>m \<in> set msgs. thrift_fits w valid fits m" "thrift_idle (d_codec d)" "msgs \<noteq> []"
  shows "\<exists>d'. dispatch_loop (thrift_decode_fn tr pr) recorder d (concat (map (thrift_frame w fhead ftail) msgs)) s =
      Some (Inr (d', []), s @ map (thrift_delivered w fhead ftail (d_messageType d)) msgs) \<and> thrift_idle (d_codec d')"
  using assms by (rule thrift_serves)

definition nested_example :: tvalue where
  "nested_example = TStruct [] [([], 1, TList FT_Map [TMap FT_String FT_I32 [(TString ''a'', TI32 7)], TMap FT_String FT_I32 []]),
     ([], 2, TStruct [] [([], 1, TSet FT_Bool [TBool True]), ([], 3, TDouble 5)])]"

lemma nested_example_fits:
  "thrift_fits binary_wire binary_valid (\<lambda>_. True) (''ping'', Call, 9, nested_example)"
  "thrift_fits binary_wire binary_valid (\<lambda>_. True) (''pong'', T_Oneway, 10, TStruct [] [])"
  by (simp_all add: thrift_fits_def nested_example_def message_tokens_def ft_ok_def ft_of_byte_def ft_byte_def)

theorem thrift_serves_messages_witness:
  "\<exists>d'. dispatch_loop (thrift_decode_fn framed_transport binary_protocol) (recorder :: (unit metadata list, unit, unit) callbacks)
      (new_decoder (new_ThriftCodec () ()) Request)
      (concat (map (thrift_frame binary_wire framed_head (\<lambda>_. [])) [(''ping'', Call, 9, nested_example), (''pong'', T_Oneway, 10, TStruct [] [])])) [] =
      Some (Inr (d', []), [] @ map (thrift_delivered binary_wire framed_head (\<lambda>_. [])
        (d_messageType (new_decoder (new_ThriftCodec () ()) Request :: ((unit, unit) thrift_codec, unit, unit) decoder)))
        [(''ping'', Call, 9, nested_example), (''pong'', T_Oneway, 10, TStruct [] [])]) \<and> thrift_idle (d_codec d')"
  by (rule thrift_serves_messages [OF binary_format binary_progressive framed_format])
    (auto simp: nested_example_fits thrift_idle_def new_decoder_def new_ThriftCodec_def)

lemma ucast_scast_wide: "ucast (scast (i :: u32) :: u64) = i"
proof (rule bit_word_eqI)
  fix n :: nat
  assume "n < LENGTH(32)"
  then have "n \<le> 31" by simp
  then show "bit (ucast (scast i :: u64) :: u32) n = bit i n" by (simp add: bit_ucast_iff bit_signed_iff min_absorb2)
qed

text \<open>
  C22: a local reply is a Thrift message: the bytes that \<^verbatim>\<open>onError\<close> writes for a request are one frame, and a
  Thrift codec that reads them reports an exception with the method and the request id of the request (the
  sequence id of a Thrift message has 32 bits, so a request id that came off the wire survives the round trip).
\<close>

theorem thrift_error_reply_decodes:
  fixes md md0 :: "'x metadata"
  assumes "wire_format pr w ok valid" "frame_format tr fhead ftail okt fits" "ok (tc_protocol c)" "okt (tc_transport c)"
    and "getString ''method'' md = Inr m" "md_request_id md = scast (i :: u32)"
    and "thrift_fits w valid fits (m, Exception, i, app_exception (err_message err))" "thrift_idle c2"
  shows "\<exists>buf c' c2' md'. thrift_onError tr pr md err c [] = Inr (buf, c') \<and>
    thrift_decode tr pr c2 buf md0 = Some (Inr (Done, c2', [], md')) \<and>
    md_message_type md' = MT_Error \<and> md_request_id md' = md_request_id md \<and> getString ''method'' md' = Inr m"
proof -
  let ?msg = "wire w (message_tokens m Exception i (app_exception (err_message err)))"
  have i: "ucast (md_request_id md) = i" using assms(6) by (simp add: ucast_scast_wide)
  have fit: "well_typed (app_exception (err_message err))" "type_of (app_exception (err_message err)) = FT_Struct"
    "\<forall>t \<in> set (message_tokens m Exception i (app_exception (err_message err))). valid t" "fits ?msg"
    using assms(7) by (simp_all add: thrift_fits_def)
  obtain c' where "thrift_onError tr pr md err c [] = Inr ([] @ frame_of fhead ftail ?msg, c')"
    using thrift_onError_frame [OF assms(1-5), of err "[]"] fit(4) i by auto
  moreover obtain c2' where "thrift_decode tr pr c2 (frame_of fhead ftail ?msg @ []) md0 =
      Some (Inr (Done, c2', [], thrift_decoded m Exception i (frame_of fhead ftail ?msg) md0))"
    using thrift_decode_frame [OF assms(1) fit(1-3) assms(2) fit(4) assms(8)] by blast
  ultimately show ?thesis using assms(6) by (auto simp: thrift_decoded_def)
qed

theorem thrift_error_reply_decodes_witness:
  "\<exists>buf c' c2' md'. thrift_onError framed_transport binary_protocol
      (putString ''method'' ''ping'' (fresh_metadata Request\<lparr>md_request_id := 0xFFFFFFFFFFFFFFFE\<rparr>) :: unit metadata)
      (Error RouteNotFound ''no route'') (new_ThriftCodec () ()) [] = Inr (buf, c') \<and>
    thrift_decode framed_transport binary_protocol (new_ThriftCodec () ()) buf (new_metadata :: unit metadata) = Some (Inr (Done, c2', [], md')) \<and>
    md_message_type md' = MT_Error \<and>
    md_request_id md' = md_request_id (putString ''method'' ''ping'' (fresh_metadata Request\<lparr>md_request_id := 0xFFFFFFFFFFFFFFFE\<rparr>) :: unit metadata) \<and>
    getString ''method'' md' = Inr ''ping''"
  by (rule thrift_error_reply_decodes [OF binary_format framed_format, where i = "0xFFFFFFFE"])
    (auto simp: thrift_fits_def app_exception_def message_tokens_def ft_ok_def ft_of_byte_def ft_byte_def
      thrift_idle_def new_ThriftCodec_def)

text \<open>
  C14: how TCP cuts a Thrift connection into reads does not matter: decoding a buffer and then, from where the
  decoder stopped in the middle of a message, what it left over followed by the next bytes, gives the messages and
  the state of one read of everything.
\<close>

theorem thrift_chunking:
  fixes d :: "(('t, 'p) thrift_codec, 'h, 'x) decoder"
  assumes "incremental_protocol pr" "progressive pr" "incremental_transport tr" "thrift_ready (d_codec d)" "never_waits cb"
    and "dispatch_loop (thrift_decode_fn tr pr) cb d buf s = Some (Inr (d', buf'), s')" "ext \<noteq> []"
  shows "dispatch_loop (thrift_decode_fn tr pr) cb d (buf @ ext) s = dispatch_loop (thrift_decode_fn tr pr) cb d' (buf' @ ext) s'"
  using framing.dispatch_loop_append [OF thrift_framing [OF assms(1-3)] assms(6,4,7,5)] by simp

lemma new_ThriftCodec_ready [simp]: "thrift_ready (new_ThriftCodec t p)"
  by (simp add: thrift_ready_def new_ThriftCodec_def)

theorem thrift_chunking_witness:
  "\<exists>d' s'. dispatch_loop (thrift_decode_fn framed_transport binary_protocol) (recorder :: (unit metadata list, unit, unit) callbacks)
      (new_decoder (new_ThriftCodec () ()) Request) (thrift_frame binary_wire framed_head (\<lambda>_. []) (''ping'', Call, 9, nested_example)) [] =
      Some (Inr (d', []), s') \<and>
    dispatch_loop (thrift_decode_fn framed_transport binary_protocol) recorder (new_decoder (new_ThriftCodec () ()) Request)
      (thrift_frame binary_wire framed_head (\<lambda>_. []) (''ping'', Call, 9, nested_example) @ [0, 0, 1]) [] =
    dispatch_loop (thrift_decode_fn framed_transport binary_protocol) recorder d' ([] @ [0, 0, 1]) s'"
proof -
  let ?d = "new_decoder (new_ThriftCodec () ()) Request :: ((unit, unit) thrift_codec, unit, unit) decoder"
  obtain d' where "dispatch_loop (thrift_decode_fn framed_transport binary_protocol) recorder ?d
      (concat (map (thrift_frame binary_wire framed_head (\<lambda>_. [])) [(''ping'', Call, 9, nested_example)])) [] =
      Some (Inr (d', []), [] @ map (thrift_delivered binary_wire framed_head (\<lambda>_. []) (d_messageType ?d)) [(''ping'', Call, 9, nested_example)])"
    using thrift_serves [OF binary_format binary_progressive framed_format, of "[(''ping'', Call, 9, nested_example)]" ?d "[]"]
      nested_example_fits by (auto simp: thrift_idle_def new_decoder_def new_ThriftCodec_def)
  moreover from thrift_chunking [OF binary_incremental binary_progressive framed_incremental _ recorder_never_waits this, of "[0, 0, 1]"]
  have "dispatch_loop (thrift_decode_fn framed_transport binary_protocol) recorder ?d
      (thrift_frame binary_wire framed_head (\<lambda>_. []) (''ping'', Call, 9, nested_example) @ [0, 0, 1]) [] =
    dispatch_loop (thrift_decode_fn framed_transport binary_protocol) recorder d' ([] @ [0, 0, 1])
      ([] @ map (thrift_delivered binary_wire framed_head (\<lambda>_. []) (d_messageType ?d)) [(''ping'', Call, 9, nested_example)])"
    by (simp add: new_decoder_def)
  ultimately show ?thesis by (simp only: concat.simps list.map append_Nil2) blast
qed

text \<open>
  C15: no bytes make the Thrift codec spin: the loop of the decoder state machine ends on every input, and so does
  the loop of the decoder around it, as long as the reads of the protocol that introduce a message, a field or an
  element consume what they read.
\<close>

theorem thrift_dispatch_returns:
  fixes d :: "(('t, 'p) thrift_codec, 'h, 'x) decoder"
  assumes "progressive pr" "progressive_transport tr" "thrift_ready (d_codec d)"
  shows "(\<exists>r. thrift_decode tr pr (d_codec d) buf md = Some r) \<and> (\<exists>r. dispatch_loop (thrift_decode_fn tr pr) cb d buf s = Some r)"
  using thrift_decode_returns [OF assms(1,3)] consuming.dispatch_loop_returns [OF thrift_consuming [OF assms(1,2)] assms(3)]
  by (intro conjI)

theorem thrift_dispatch_returns_witness:
  "(\<exists>r. thrift_decode framed_transport binary_protocol
      (d_codec (new_decoder (new_ThriftCodec () ()) Request :: ((unit, unit) thrift_codec, unit, unit) decoder))
      [0, 0, 0, 1, 0x80, 1, 7] (new_metadata :: unit metadata) = Some r) \<and>
   (\<exists>r. dispatch_loop (thrift_decode_fn framed_transport binary_protocol) recorder
      (new_decoder (new_ThriftCodec () ()) Request :: ((unit, unit) thrift_codec, unit, unit) decoder) [0, 0, 0, 1, 0x80, 1, 7] [] = Some r)"
  by (rule thrift_dispatch_returns [OF binary_progressive framed_progressive]) (simp add: new_decoder_def)

end
