(* ===== verification/Local_Ratelimit.thy ===== *)
theory Local_Ratelimit
  imports Connection Route
begin

text \<open>
  The local rate limit filter (\<^verbatim>\<open>filters/local_ratelimit\<close>): token buckets, one for
  every condition and one for the whole service.

  The counter of a bucket is an atomic variable that the worker threads and the timer change with
  compare-and-exchange loops.  \<^verbatim>\<open>requestAllowedHelper\<close> and
  \<^verbatim>\<open>onFillTimerHelper\<close> are these loops when nobody interferes; \<^verbatim>\<open>bucket_step\<close>
  is their execution by any number of threads, one load or compare-and-exchange at a time, and the refinement
  below shows that the threads see what some order of whole calls would give.

  Times are in nanoseconds of the monotonic clock, intervals in milliseconds.  The header matchers are those of
  the routes.
\<close>

section \<open>State\<close>

record token_bucket =
  tb_max_tokens :: u32
  tb_tokens_per_fill :: u32
  tb_fill_interval :: int

record token_state =
  ts_tokens :: u32
  ts_fill_time :: int

record 'm limit_condition =
  lc_token_state :: token_state
  lc_match :: "'m list"
  lc_token_bucket :: token_bucket

text \<open>
  The global bucket and its state are only used when the configuration has a bucket.  The timer is the interval
  it is armed with.
\<close>

record 'm local_limiter =
  ll_global_token_bucket :: token_bucket
  ll_global_token_state :: token_state
  ll_fill_timer :: "int option"
  ll_conditions :: "'m limit_condition list"
  ll_timer_duration :: int
  ll_has_token_bucket :: bool

text \<open>The configuration: a bucket with its optional fields, and the conditions.\<close>

record bucket_proto =
  bp_max_tokens :: u32
  bp_tokens_per_fill :: "u32 option"
  bp_fill_interval :: "int option"

record 'm condition_proto =
  cp_match :: "'m list"
  cp_token_bucket :: bucket_proto

record 'm limit_proto =
  lp_token_bucket :: "bucket_proto option"
  lp_conditions :: "'m condition_proto list"

definition default_bucket_proto :: bucket_proto where
  "default_bucket_proto = \<lparr>bp_max_tokens = 0, bp_tokens_per_fill = None, bp_fill_interval = None\<rparr>"

definition get_or :: "'a \<Rightarrow> 'a option \<Rightarrow> 'a" where
  "get_or d x = (case x of None \<Rightarrow> d | Some v \<Rightarrow> v)"

section \<open>Construction\<close>

definition min_fill_interval :: "int \<Rightarrow> 'm condition_proto list \<Rightarrow> int" where
  "min_fill_interval fill_interval conditions =
     foldl (\<lambda>d c. let i = get_or 0 (bp_fill_interval (cp_token_bucket c)) in
        if d = 0 \<or> i < d then i else d) fill_interval conditions"

definition new_condition :: "int \<Rightarrow> 'm condition_proto \<Rightarrow> 'm limit_condition" where
  "new_condition now c =
     (let b = cp_token_bucket c;
          bucket = \<lparr>tb_max_tokens = bp_max_tokens b, tb_tokens_per_fill = get_or 1 (bp_tokens_per_fill b),
                    tb_fill_interval = get_or 0 (bp_fill_interval b)\<rparr>
      in \<lparr>lc_token_state = \<lparr>ts_tokens = tb_max_tokens bucket, ts_fill_time = now\<rparr>,
          lc_match = cp_match c, lc_token_bucket = bucket\<rparr>)"

definition LocalRateLimiterImpl ::
  "int \<Rightarrow> u32 \<Rightarrow> u32 \<Rightarrow> int \<Rightarrow> 'm condition_proto list \<Rightarrow> 'm limit_proto \<Rightarrow> 'm local_limiter res" where
  "LocalRateLimiterImpl fill_interval max_tokens tokens_per_fill now conditions cfg =
     (let timer_duration = min_fill_interval fill_interval conditions;
          has = lp_token_bucket cfg \<noteq> None
      in if timer_duration < 50 then
           Inl (EnvoyException ''local rate limit token bucket fill timer must be >= 50ms'')
         else Inr \<lparr>
           ll_global_token_bucket = (if has
             then \<lparr>tb_max_tokens = max_tokens, tb_tokens_per_fill = tokens_per_fill, tb_fill_interval = fill_interval\<rparr>
             else \<lparr>tb_max_tokens = 0, tb_tokens_per_fill = 0, tb_fill_interval = 0\<rparr>),
           ll_global_token_state = \<lparr>ts_tokens = (if has then max_tokens else 0), ts_fill_time = 0\<rparr>,
           ll_fill_timer = Some timer_duration,
           ll_conditions = map (new_condition now) conditions,
           ll_timer_duration = timer_duration, ll_has_token_bucket = has\<rparr>)"

section \<open>The timer\<close>

definition onFillTimerHelper :: "token_bucket \<Rightarrow> token_state \<Rightarrow> token_state" where
  "onFillTimerHelper bucket ts =
     ts\<lparr>ts_tokens := min (tb_max_tokens bucket) (ts_tokens ts + tb_tokens_per_fill bucket)\<rparr>"

definition fill_if_due :: "int \<Rightarrow> token_bucket \<Rightarrow> token_state \<Rightarrow> token_state" where
  "fill_if_due now bucket ts =
     (if to_ms (now - ts_fill_time ts) \<ge> tb_fill_interval bucket
      then (onFillTimerHelper bucket ts)\<lparr>ts_fill_time := now\<rparr> else ts)"

definition onFillTimerConditionHelper :: "int \<Rightarrow> 'm local_limiter \<Rightarrow> 'm local_limiter" where
  "onFillTimerConditionHelper now lim =
     lim\<lparr>ll_global_token_state := (if ll_has_token_bucket lim
            then fill_if_due now (ll_global_token_bucket lim) (ll_global_token_state lim)
            else ll_global_token_state lim),
         ll_conditions := map (\<lambda>c. c\<lparr>lc_token_state := fill_if_due now (lc_token_bucket c) (lc_token_state c)\<rparr>)
            (ll_conditions lim)\<rparr>"

definition onFillTimer :: "int \<Rightarrow> 'm local_limiter \<Rightarrow> 'm local_limiter" where
  "onFillTimer now lim = (onFillTimerConditionHelper now lim)\<lparr>ll_fill_timer := Some (ll_timer_duration lim)\<rparr>"

section \<open>Requests\<close>

definition requestAllowedHelper :: "token_state \<Rightarrow> bool \<times> token_state" where
  "requestAllowedHelper ts =
     (if ts_tokens ts = 0 then (False, ts) else (True, ts\<lparr>ts_tokens := ts_tokens ts - 1\<rparr>))"

fun allowed_by_condition ::
  "'m match_headers \<Rightarrow> header_map \<Rightarrow> 'm limit_condition list \<Rightarrow> (bool \<times> 'm limit_condition list) option" where
  "allowed_by_condition matchHeaders headers [] = None"
| "allowed_by_condition matchHeaders headers (c # cs) =
     (if matchHeaders headers (lc_match c) then
        (case requestAllowedHelper (lc_token_state c) of (r, ts) \<Rightarrow> Some (r, c\<lparr>lc_token_state := ts\<rparr> # cs))
      else map_option (\<lambda>(r, cs'). (r, c # cs')) (allowed_by_condition matchHeaders headers cs))"

definition requestAllowed ::
  "'m match_headers \<Rightarrow> 'x metadata \<Rightarrow> 'm local_limiter \<Rightarrow> bool \<times> 'm local_limiter" where
  "requestAllowed matchHeaders md lim =
     (case allowed_by_condition matchHeaders (md_headers md) (ll_conditions lim) of
        Some (r, cs) \<Rightarrow> (r, lim\<lparr>ll_conditions := cs\<rparr>)
      | None \<Rightarrow>
          if \<not> ll_has_token_bucket lim then (True, lim)
          else (case requestAllowedHelper (ll_global_token_state lim) of
             (r, ts) \<Rightarrow> (r, lim\<lparr>ll_global_token_state := ts\<rparr>)))"

section \<open>The filter\<close>

record 'm lr_config =
  lr_ok :: nat
  lr_rate_limited :: nat
  lr_rate_limiter :: "'m local_limiter"

definition lr_FilterConfig :: "int \<Rightarrow> 'm limit_proto \<Rightarrow> 'm lr_config res" where
  "lr_FilterConfig now cfg =
     (let b = get_or default_bucket_proto (lp_token_bucket cfg) in
      bindr (LocalRateLimiterImpl (get_or 0 (bp_fill_interval b)) (bp_max_tokens b)
               (get_or 1 (bp_tokens_per_fill b)) now (lp_conditions cfg) cfg) (\<lambda>lim.
      Inr \<lparr>lr_ok = 0, lr_rate_limited = 0, lr_rate_limiter = lim\<rparr>))"

definition lr_shouldRateLimit ::
  "'m match_headers \<Rightarrow> 'x metadata \<Rightarrow> 'm lr_config \<Rightarrow> bool \<times> 'm lr_config" where
  "lr_shouldRateLimit matchHeaders md cfg =
     (case requestAllowed matchHeaders md (lr_rate_limiter cfg) of
        (True, lim) \<Rightarrow> (False, cfg\<lparr>lr_ok := lr_ok cfg + 1, lr_rate_limiter := lim\<rparr>)
      | (False, lim) \<Rightarrow> (True, cfg\<lparr>lr_rate_limited := lr_rate_limited cfg + 1, lr_rate_limiter := lim\<rparr>))"

text \<open>What the filter does: its status, the callbacks it makes and the shared configuration.\<close>

definition lr_onMessageDecoded ::
  "'m match_headers \<Rightarrow> 'x metadata \<Rightarrow> 'm lr_config \<Rightarrow> filter_status \<times> filter_call list \<times> 'm lr_config" where
  "lr_onMessageDecoded matchHeaders md cfg =
     (case lr_shouldRateLimit matchHeaders md cfg of
        (True, cfg') \<Rightarrow> (AbortIteration, [Call_sendLocalReply (Error OverLimit
           (''meta protocol local rate limit: request '' @ [CHR 0x27] @ show_nat (unat (md_request_id md)) @ [CHR 0x27] @ '' has been rate limited'')) False], cfg')
      | (False, cfg') \<Rightarrow> (ContinueIteration, [], cfg'))"

definition lr_onMessageEncoded :: "'x metadata \<Rightarrow> 'm lr_config \<Rightarrow> filter_status \<times> filter_call list \<times> 'm lr_config" where
  "lr_onMessageEncoded md cfg = (ContinueIteration, [], cfg)"

section \<open>Concurrent execution\<close>

text \<open>
  Where a thread is in its loop: about to test the value it loaded, about to exchange it, about to return, or
  the same for the timer.  Besides the counter, the state has two histories: \<^verbatim>\<open>sb_returned\<close> is
  what the calls returned, \<^verbatim>\<open>sb_log\<close> records a call when its outcome is settled.
\<close>

datatype bucket_pc =
    Not_calling
  | Allow_loop u32 | Allow_cas u32 | Returning bool
  | Fill_loop u32 | Fill_cas u32 u32

datatype bucket_op = Op_request bool | Op_fill

record shared_bucket =
  sb_tokens :: u32
  sb_pc :: "nat \<Rightarrow> bucket_pc"
  sb_log :: "(nat \<times> bucket_op) list"
  sb_returned :: "(nat \<times> bool) list"

definition new_bucket :: "u32 \<Rightarrow> shared_bucket" where
  "new_bucket n = \<lparr>sb_tokens = n, sb_pc = (\<lambda>_. Not_calling), sb_log = [], sb_returned = []\<rparr>"

text \<open>A thread that reads zero will refuse.\<close>

definition observe :: "nat \<Rightarrow> u32 \<Rightarrow> (nat \<times> bucket_op) list \<Rightarrow> (nat \<times> bucket_op) list" where
  "observe t v log = (if v = 0 then log @ [(t, Op_request False)] else log)"

text \<open>The weak exchange may fail without a reason; it then stores the current value in
  \<^verbatim>\<open>expected_tokens\<close>.\<close>

inductive bucket_step :: "token_bucket \<Rightarrow> shared_bucket \<Rightarrow> shared_bucket \<Rightarrow> bool" for b where
  request_load: "sb_pc s t = Not_calling \<Longrightarrow>
     bucket_step b s (s\<lparr>sb_pc := (sb_pc s)(t := Allow_loop (sb_tokens s)), sb_log := observe t (sb_tokens s) (sb_log s)\<rparr>)"
| request_empty: "sb_pc s t = Allow_loop 0 \<Longrightarrow> bucket_step b s (s\<lparr>sb_pc := (sb_pc s)(t := Returning False)\<rparr>)"
| request_try: "sb_pc s t = Allow_loop e \<Longrightarrow> e \<noteq> 0 \<Longrightarrow> bucket_step b s (s\<lparr>sb_pc := (sb_pc s)(t := Allow_cas e)\<rparr>)"
| request_cas: "sb_pc s t = Allow_cas e \<Longrightarrow> sb_tokens s = e \<Longrightarrow>
     bucket_step b s (s\<lparr>sb_tokens := e - 1, sb_pc := (sb_pc s)(t := Returning True), sb_log := sb_log s @ [(t, Op_request True)]\<rparr>)"
| request_retry: "sb_pc s t = Allow_cas e \<Longrightarrow>
     bucket_step b s (s\<lparr>sb_pc := (sb_pc s)(t := Allow_loop (sb_tokens s)), sb_log := observe t (sb_tokens s) (sb_log s)\<rparr>)"
| request_return: "sb_pc s t = Returning r \<Longrightarrow>
     bucket_step b s (s\<lparr>sb_pc := (sb_pc s)(t := Not_calling), sb_returned := sb_returned s @ [(t, r)]\<rparr>)"
| fill_load: "sb_pc s t = Not_calling \<Longrightarrow> bucket_step b s (s\<lparr>sb_pc := (sb_pc s)(t := Fill_loop (sb_tokens s))\<rparr>)"
| fill_compute: "sb_pc s t = Fill_loop e \<Longrightarrow>
     bucket_step b s (s\<lparr>sb_pc := (sb_pc s)(t := Fill_cas e (min (tb_max_tokens b) (e + tb_tokens_per_fill b)))\<rparr>)"
| fill_cas: "sb_pc s t = Fill_cas e n \<Longrightarrow> sb_tokens s = e \<Longrightarrow>
     bucket_step b s (s\<lparr>sb_tokens := n, sb_pc := (sb_pc s)(t := Not_calling), sb_log := sb_log s @ [(t, Op_fill)]\<rparr>)"
| fill_retry: "sb_pc s t = Fill_cas e n \<Longrightarrow> bucket_step b s (s\<lparr>sb_pc := (sb_pc s)(t := Fill_loop (sb_tokens s))\<rparr>)"

text \<open>Whole calls, one after the other.\<close>

fun replay :: "token_bucket \<Rightarrow> bucket_op list \<Rightarrow> token_state \<Rightarrow> token_state option" where
  "replay b [] ts = Some ts"
| "replay b (Op_request r # ops) ts =
     (case requestAllowedHelper ts of (r', ts') \<Rightarrow> if r' = r then replay b ops ts' else None)"
| "replay b (Op_fill # ops) ts = replay b ops (onFillTimerHelper b ts)"

definition requests_of :: "nat \<Rightarrow> (nat \<times> bucket_op) list \<Rightarrow> bool list" where
  "requests_of t log = concat (map (\<lambda>(t', opn). case opn of Op_request r \<Rightarrow> if t' = t then [r] else [] | Op_fill \<Rightarrow> []) log)"

definition returns_of :: "nat \<Rightarrow> (nat \<times> bool) list \<Rightarrow> bool list" where
  "returns_of t rs = map snd (filter (\<lambda>x. fst x = t) rs)"

definition granted :: "bucket_op list \<Rightarrow> nat" where
  "granted ops = length (filter (\<lambda>x. x = Op_request True) ops)"

definition fills :: "bucket_op list \<Rightarrow> nat" where
  "fills ops = length (filter (\<lambda>x. x = Op_fill) ops)"

fun pending :: "bucket_pc \<Rightarrow> bool list" where
  "pending (Allow_loop e) = (if e = 0 then [False] else [])"
| "pending (Returning r) = [r]"
| "pending _ = []"

section \<open>Every interleaving is a sequence of calls\<close>

lemma replay_append [simp]:
  "replay b (ops @ ops') ts = (case replay b ops ts of None \<Rightarrow> None | Some ts' \<Rightarrow> replay b ops' ts')"
  by (induction b ops ts rule: replay.induct) (auto split: prod.splits)

lemma requests_of_append [simp]: "requests_of t (l @ l') = requests_of t l @ requests_of t l'"
  by (simp add: requests_of_def)

lemma requests_of_single [simp]:
  "requests_of t [] = []" "requests_of t [(t', Op_request r)] = (if t' = t then [r] else [])" "requests_of t [(t', Op_fill)] = []"
  by (simp_all add: requests_of_def)

lemma returns_of_append [simp]:
  "returns_of t [] = []" "returns_of t (rs @ [(t', r)]) = returns_of t rs @ (if t' = t then [r] else [])"
  by (simp_all add: returns_of_def)

definition bucket_inv :: "token_bucket \<Rightarrow> u32 \<Rightarrow> int \<Rightarrow> shared_bucket \<Rightarrow> bool" where
  "bucket_inv b n ft s \<longleftrightarrow>
     replay b (map snd (sb_log s)) \<lparr>ts_tokens = n, ts_fill_time = ft\<rparr> = Some \<lparr>ts_tokens = sb_tokens s, ts_fill_time = ft\<rparr> \<and>
     (\<forall>t. requests_of t (sb_log s) = returns_of t (sb_returned s) @ pending (sb_pc s t)) \<and>
     (\<forall>t e. sb_pc s t = Allow_cas e \<longrightarrow> e \<noteq> 0) \<and>
     (\<forall>t e m. sb_pc s t = Fill_cas e m \<longrightarrow> m = min (tb_max_tokens b) (e + tb_tokens_per_fill b))"

lemma bucket_inv_step:
  assumes "bucket_step b s s'" "bucket_inv b n ft s"
  shows "bucket_inv b n ft s'"
  using assms
  by cases (auto simp: bucket_inv_def observe_def requestAllowedHelper_def onFillTimerHelper_def)

lemma bucket_inv_reachable:
  assumes "(bucket_step b)\<^sup>*\<^sup>* (new_bucket n) s"
  shows "bucket_inv b n ft s"
  using assms
proof (induction rule: rtranclp_induct)
  case base
  show ?case by (simp add: bucket_inv_def new_bucket_def)
next
  case (step s s')
  then show ?case using bucket_inv_step by blast
qed

section \<open>Bounds\<close>

lemma granted_simps [simp]:
  "granted [] = 0" "granted (ops @ ops') = granted ops + granted ops'"
  "granted (x # ops) = (if x = Op_request True then 1 else 0) + granted ops"
  "fills [] = 0" "fills (x # ops) = (if x = Op_fill then 1 else 0) + fills ops"
  by (simp_all add: granted_def fills_def)

lemma unat_add_le: "unat (x + y :: u32) \<le> unat x + unat y"
  by (simp add: unat_word_ariths)

lemma unat_pred: "(x :: u32) \<noteq> 0 \<Longrightarrow> Suc (unat (x - 1)) = unat x"
  by (simp add: unat_minus_one unat_gt_0)

lemma unat_fill: "unat (ts_tokens (onFillTimerHelper b ts)) \<le> unat (ts_tokens ts) + unat (tb_tokens_per_fill b)"
  using unat_add_le [of "ts_tokens ts" "tb_tokens_per_fill b"]
  by (simp add: onFillTimerHelper_def min_def word_le_nat_alt)

lemma replay_bounds:
  "replay b ops ts = Some ts' \<Longrightarrow>
   granted ops + unat (ts_tokens ts') \<le> unat (ts_tokens ts) + fills ops * unat (tb_tokens_per_fill b)"
proof (induction b ops ts rule: replay.induct)
  case (2 b r ops ts)
  show ?case
  proof (cases "ts_tokens ts = 0")
    case True
    with 2 show ?thesis by (simp add: requestAllowedHelper_def split: if_splits)
  next
    case False
    then have h: "requestAllowedHelper ts = (True, ts\<lparr>ts_tokens := ts_tokens ts - 1\<rparr>)" by (simp add: requestAllowedHelper_def)
    with 2(2) have r: "r = True" "replay b ops (ts\<lparr>ts_tokens := ts_tokens ts - 1\<rparr>) = Some ts'" by (simp_all split: if_splits)
    from 2(1) [OF h [symmetric] r(1) [symmetric] r(2)] unat_pred [OF False] r(1) show ?thesis by simp
  qed
next
  case (3 b ops ts)
  then show ?case using unat_fill [of b ts] by simp
qed simp

lemma replay_le_max:
  "replay b ops ts = Some ts' \<Longrightarrow> ts_tokens ts \<le> tb_max_tokens b \<Longrightarrow> ts_tokens ts' \<le> tb_max_tokens b"
proof (induction b ops ts rule: replay.induct)
  case (2 b r ops ts)
  have "ts_tokens ts - 1 \<le> tb_max_tokens b" if "ts_tokens ts \<noteq> 0"
    using 2(3) unat_pred [OF that] by (simp add: word_le_nat_alt)
  with 2 show ?case by (auto simp: requestAllowedHelper_def split: if_splits)
next
  case (3 b ops ts)
  then show ?case by (simp add: onFillTimerHelper_def)
qed simp

definition returning :: "(nat \<Rightarrow> bucket_pc) \<Rightarrow> nat set" where
  "returning pc = {t. pc t = Returning True}"

lemma returning_upd [simp]:
  "returning (pc(t := x)) = (if x = Returning True then insert t (returning pc) else returning pc - {t})"
  by (auto simp: returning_def)

lemma returning_iff: "t \<in> returning pc \<longleftrightarrow> pc t = Returning True"
  by (simp add: returning_def)

lemma returned_step:
  assumes "bucket_step b s s'" "finite (returning (sb_pc s))"
    and "granted (map snd (sb_log s)) = length (filter snd (sb_returned s)) + card (returning (sb_pc s))"
  shows "finite (returning (sb_pc s')) \<and>
    granted (map snd (sb_log s')) = length (filter snd (sb_returned s')) + card (returning (sb_pc s'))"
  using assms
proof cases
  case (request_return t r)
  show ?thesis
  proof (cases r)
    case True
    then have "t \<in> returning (sb_pc s)" using request_return(2) by (simp add: returning_iff)
    with assms(2) have "card (returning (sb_pc s)) = Suc (card (returning (sb_pc s) - {t}))" by (simp only: card.remove)
    with True assms(2,3) request_return(1) show ?thesis by simp
  next
    case False
    then have "returning (sb_pc s) - {t} = returning (sb_pc s)" using request_return(2) by (auto simp: returning_iff)
    with False assms(2,3) request_return(1) show ?thesis by simp
  qed
qed (auto simp: observe_def returning_iff)

lemma returned_inv:
  assumes "(bucket_step b)\<^sup>*\<^sup>* (new_bucket n) s"
  shows "finite (returning (sb_pc s)) \<and>
    granted (map snd (sb_log s)) = length (filter snd (sb_returned s)) + card (returning (sb_pc s))"
  using assms
proof (induction rule: rtranclp_induct)
  case base
  show ?case by (simp add: new_bucket_def returning_def)
next
  case (step s s')
  then show ?case using returned_step by blast
qed

text \<open>
  C28: the buckets of the local rate limiter are linearizable and never grant more than they hold.  Whatever the
  threads do between the load and the compare-and-exchange of their loops, spurious failures included, the counter is
  what a sequence of whole calls of \<^verbatim>\<open>requestAllowedHelper\<close> and \<^verbatim>\<open>onFillTimerHelper\<close>
  leaves, and every thread was told what these calls answered.  At every moment the requests that were allowed are at
  most the tokens at the start and those of the refills, and a counter that starts within the capacity of the bucket
  stays there.
\<close>

theorem token_bucket_linearizable:
  assumes "(bucket_step b)\<^sup>*\<^sup>* (new_bucket n) s"
  shows "replay b (map snd (sb_log s)) \<lparr>ts_tokens = n, ts_fill_time = ft\<rparr> = Some \<lparr>ts_tokens = sb_tokens s, ts_fill_time = ft\<rparr> \<and>
    (\<forall>t. sb_pc s t = Not_calling \<longrightarrow> returns_of t (sb_returned s) = requests_of t (sb_log s)) \<and>
    length (filter snd (sb_returned s)) \<le> unat n + fills (map snd (sb_log s)) * unat (tb_tokens_per_fill b) \<and>
    (n \<le> tb_max_tokens b \<longrightarrow> sb_tokens s \<le> tb_max_tokens b)"
proof -
  have r: "replay b (map snd (sb_log s)) \<lparr>ts_tokens = n, ts_fill_time = ft\<rparr> = Some \<lparr>ts_tokens = sb_tokens s, ts_fill_time = ft\<rparr>"
    "\<forall>t. sb_pc s t = Not_calling \<longrightarrow> returns_of t (sb_returned s) = requests_of t (sb_log s)"
    using bucket_inv_reachable [OF assms, of ft] by (simp_all add: bucket_inv_def)
  from replay_bounds [OF r(1)] replay_le_max [OF r(1)] returned_inv [OF assms] r show ?thesis by simp
qed

definition race :: "token_bucket" where
  "race = \<lparr>tb_max_tokens = 1, tb_tokens_per_fill = 1, tb_fill_interval = 100\<rparr>"

text \<open>Two threads race for one token; the loser's exchange fails, it loads zero and refuses.\<close>

definition race_end :: shared_bucket where
  "race_end = \<lparr>sb_tokens = 0, sb_pc = (\<lambda>_. Not_calling),
     sb_log = [(1, Op_request True), (0, Op_request False)], sb_returned = [(1, True), (0, False)]\<rparr>"

lemma path_step: "bucket_step b s s1 \<Longrightarrow> (bucket_step b)\<^sup>*\<^sup>* s1 s2 \<Longrightarrow> (bucket_step b)\<^sup>*\<^sup>* s s2"
  by (rule converse_rtranclp_into_rtranclp)

lemma path_end: "s = s' \<Longrightarrow> (bucket_step b)\<^sup>*\<^sup>* s s'"
  by simp

lemma race_reachable: "(bucket_step race)\<^sup>*\<^sup>* (new_bucket 1) race_end"
  unfolding new_bucket_def
  apply (rule path_step [OF bucket_step.request_load [where t = 0]], simp)
  apply (rule path_step [OF bucket_step.request_load [where t = 1]], simp)
  apply (rule path_step [OF bucket_step.request_try [where t = 0 and e = 1]], simp, simp)
  apply (rule path_step [OF bucket_step.request_try [where t = 1 and e = 1]], simp, simp)
  apply (rule path_step [OF bucket_step.request_cas [where t = 1 and e = 1]], simp, simp)
  apply (rule path_step [OF bucket_step.request_retry [where t = 0 and e = 1]], simp)
  apply (rule path_step [OF bucket_step.request_return [where t = 1 and r = True]], simp)
  apply (rule path_step [OF bucket_step.request_empty [where t = 0]], simp)
  apply (rule path_step [OF bucket_step.request_return [where t = 0 and r = False]], simp)
  apply (rule path_end, simp add: race_end_def observe_def, rule ext, simp)
  done

theorem token_bucket_linearizable_witness:
  "replay race (map snd (sb_log race_end)) \<lparr>ts_tokens = 1, ts_fill_time = 5\<rparr> = Some \<lparr>ts_tokens = sb_tokens race_end, ts_fill_time = 5\<rparr> \<and>
    returns_of 0 (sb_returned race_end) = requests_of 0 (sb_log race_end) \<and> requests_of 0 (sb_log race_end) = [False] \<and>
    returns_of 1 (sb_returned race_end) = requests_of 1 (sb_log race_end) \<and> requests_of 1 (sb_log race_end) = [True] \<and>
    length (filter snd (sb_returned race_end)) \<le> unat (1::u32) \<and> sb_tokens race_end \<le> tb_max_tokens race"
proof -
  have "sb_pc race_end 0 = Not_calling" "sb_pc race_end 1 = Not_calling" by (simp_all add: race_end_def)
  with token_bucket_linearizable [OF race_reachable, of 5] show ?thesis
    by (simp add: race_end_def race_def requests_of_def)
qed

text \<open>
  A refill adds tokens and stops at the capacity of the bucket as long as capacity and refill
  together fit into 32 bits; when they do not, the sum wraps and refilling a full bucket takes tokens away.
\<close>

lemma fill_saturates_or_wraps:
  "(unat (tb_max_tokens b) + unat (tb_tokens_per_fill b) < 2 ^ 32 \<longrightarrow> ts_tokens ts \<le> tb_max_tokens b \<longrightarrow>
      unat (ts_tokens (onFillTimerHelper b ts)) = min (unat (tb_max_tokens b)) (unat (ts_tokens ts) + unat (tb_tokens_per_fill b))) \<and>
   (2 ^ 32 \<le> unat (tb_max_tokens b) + unat (tb_tokens_per_fill b) \<longrightarrow> ts_tokens ts = tb_max_tokens b \<longrightarrow>
      unat (ts_tokens (onFillTimerHelper b ts)) = unat (tb_max_tokens b) + unat (tb_tokens_per_fill b) - 2 ^ 32 \<and>
      ts_tokens (onFillTimerHelper b ts) < ts_tokens ts)"
proof (intro conjI impI)
  let ?m = "unat (tb_max_tokens b)" and ?f = "unat (tb_tokens_per_fill b)"
  assume "?m + ?f < 2 ^ 32" "ts_tokens ts \<le> tb_max_tokens b"
  then have "unat (ts_tokens ts + tb_tokens_per_fill b) = unat (ts_tokens ts) + ?f"
    by (simp add: unat_word_ariths word_le_nat_alt)
  then show "unat (ts_tokens (onFillTimerHelper b ts)) = min ?m (unat (ts_tokens ts) + ?f)"
    by (simp add: onFillTimerHelper_def min_def word_le_nat_alt)
next
  let ?m = "unat (tb_max_tokens b)" and ?f = "unat (tb_tokens_per_fill b)"
  assume a: "2 ^ 32 \<le> ?m + ?f" "ts_tokens ts = tb_max_tokens b"
  have m: "?m < 2 ^ 32" "?f < 2 ^ 32" using unat_bound32 by simp_all
  then have "(?m + ?f) mod 2 ^ 32 = ?m + ?f - 2 ^ 32" using a(1) by (simp add: mod_if)
  then have w: "unat (ts_tokens ts + tb_tokens_per_fill b) = ?m + ?f - 2 ^ 32"
    using a(2) by (simp add: unat_word_ariths)
  with m a have "ts_tokens ts + tb_tokens_per_fill b < tb_max_tokens b" by (simp add: word_less_nat_alt)
  then have "ts_tokens (onFillTimerHelper b ts) = ts_tokens ts + tb_tokens_per_fill b"
    by (simp add: onFillTimerHelper_def min_absorb2)
  with w m a show "unat (ts_tokens (onFillTimerHelper b ts)) = ?m + ?f - 2 ^ 32"
    "ts_tokens (onFillTimerHelper b ts) < ts_tokens ts"
    by (simp_all add: word_less_nat_alt)
qed

end
