(* ===== verification/Global_Ratelimit.thy ===== *)
theory Global_Ratelimit
  imports Connection Route
begin

text \<open>
  The global rate limit filter (\<^verbatim>\<open>filters/global_ratelimit\<close>): it asks a rate limit service about every
  request that its matchers select.  The cluster manager and the load balancer of Envoy, which find a host of the
  service, and the gRPC call to that host are parameters.
\<close>

section \<open>The rate limit service\<close>

datatype rls_code = RLS_UNKNOWN | RLS_OK | RLS_OVER_LIMIT

record rls_request =
  rq_domain :: string
  rq_descriptors :: "(string \<times> string) list list"

text \<open>
  The host of a cluster: None when there is no such cluster, \<^verbatim>\<open>Some None\<close> when it has no host.  A call
  returns whether its status is ok and the overall code of the response.
\<close>

record rls_env =
  re_host :: "string \<Rightarrow> string option option"
  re_ShouldRateLimit :: "string \<Rightarrow> rls_request \<Rightarrow> bool \<times> rls_code"

section \<open>The filter\<close>

record rls_descriptor =
  rd_property :: string
  rd_descriptor_key :: string

record 'm rl_config =
  rl_cluster_name :: string
  rl_domain :: string
  rl_descriptors :: "rls_descriptor list"
  rl_failure_mode_deny :: bool
  rl_config_headers :: "'m list"

fun add_descriptors :: "'x metadata \<Rightarrow> rls_descriptor list \<Rightarrow> rls_request \<Rightarrow> rls_request res" where
  "add_descriptors md [] req = Inr req"
| "add_descriptors md (d # ds) req =
     bindr (getString (rd_property d) md) (\<lambda>v.
       add_descriptors md ds (req\<lparr>rq_descriptors := rq_descriptors req @ [[(rd_descriptor_key d, v)]]\<rparr>))"

definition rl_shouldRateLimit ::
  "rls_env \<Rightarrow> 'm match_headers \<Rightarrow> 'm rl_config \<Rightarrow> string \<Rightarrow> 'x metadata \<Rightarrow> bool res" where
  "rl_shouldRateLimit env matchHeaders cfg addr md =
     (if rl_config_headers cfg = [] then Inr False
      else if \<not> matchHeaders (md_headers md) (rl_config_headers cfg) then Inr False
      else bindr (add_descriptors md (rl_descriptors cfg) \<lparr>rq_domain = rl_domain cfg, rq_descriptors = []\<rparr>) (\<lambda>req.
        case re_ShouldRateLimit env addr req of (ok, code) \<Rightarrow>
          if \<not> ok \<and> rl_failure_mode_deny cfg then Inr True
          else if code = RLS_OVER_LIMIT then Inr True
          else Inr False))"

definition rl_reply :: "error_type \<Rightarrow> string \<Rightarrow> 'x metadata \<Rightarrow> string \<Rightarrow> filter_call list" where
  "rl_reply ty before md after = [Call_sendLocalReply (Error ty
     (''meta protocol global ratelimit: '' @ before @ [CHR 0x27] @ show_nat (unat (md_request_id md)) @ [CHR 0x27] @ after)) False]"

definition rl_onMessageDecoded ::
  "rls_env \<Rightarrow> 'm match_headers \<Rightarrow> 'm rl_config \<Rightarrow> 'x metadata \<Rightarrow> filter_status res \<times> filter_call list" where
  "rl_onMessageDecoded env matchHeaders cfg md =
     (case re_host env (rl_cluster_name cfg) of
        None \<Rightarrow> (Inr AbortIteration, rl_reply ClusterNotFound ''rate limit server cluster not found '' md [])
      | Some None \<Rightarrow> (Inr AbortIteration, rl_reply ClusterNotFound ''rate limit server host not found for request '' md [])
      | Some (Some addr) \<Rightarrow>
          (case rl_shouldRateLimit env matchHeaders cfg addr md of
             Inl e \<Rightarrow> (Inl e, [])
           | Inr True \<Rightarrow> (Inr AbortIteration, rl_reply OverLimit ''request '' md '' has been rate limited'')
           | Inr False \<Rightarrow> (Inr ContinueIteration, [])))"

definition rl_onMessageEncoded :: "'x metadata \<Rightarrow> filter_status res \<times> filter_call list" where
  "rl_onMessageEncoded md = (Inr ContinueIteration, [])"

end
