(* ===== verification/Base64.thy ===== *)
theory Base64
  imports Prelude
begin

text \<open>
  \<^verbatim>\<open>filters/common/base64.h\<close>: the encoding in which the proxies exchange the description
  of their workloads.  A string is its bytes.
\<close>

unbundle bit_operations_syntax

section \<open>Tables\<close>

definition CHAR_TABLE :: "byte list" where
  "CHAR_TABLE = bytes_of_chars ''ABCDEFGHIJKLMNOPQRSTUVWXYZabcdefghijklmnopqrstuvwxyz0123456789+/''"

definition REVERSE_LOOKUP_TABLE :: "byte list" where
  "REVERSE_LOOKUP_TABLE = [
    64, 64, 64, 64, 64, 64, 64, 64, 64, 64, 64, 64, 64, 64, 64, 64, 64, 64, 64, 64, 64, 64, 64, 64,
    64, 64, 64, 64, 64, 64, 64, 64, 64, 64, 64, 64, 64, 64, 64, 64, 64, 64, 64, 62, 64, 64, 64, 63,
    52, 53, 54, 55, 56, 57, 58, 59, 60, 61, 64, 64, 64, 64, 64, 64, 64, 0,  1,  2,  3,  4,  5,  6,
    7,  8,  9,  10, 11, 12, 13, 14, 15, 16, 17, 18, 19, 20, 21, 22, 23, 24, 25, 64, 64, 64, 64, 64,
    64, 26, 27, 28, 29, 30, 31, 32, 33, 34, 35, 36, 37, 38, 39, 40, 41, 42, 43, 44, 45, 46, 47, 48,
    49, 50, 51, 64, 64, 64, 64, 64, 64, 64, 64, 64, 64, 64, 64, 64, 64, 64, 64, 64, 64, 64, 64, 64,
    64, 64, 64, 64, 64, 64, 64, 64, 64, 64, 64, 64, 64, 64, 64, 64, 64, 64, 64, 64, 64, 64, 64, 64,
    64, 64, 64, 64, 64, 64, 64, 64, 64, 64, 64, 64, 64, 64, 64, 64, 64, 64, 64, 64, 64, 64, 64, 64,
    64, 64, 64, 64, 64, 64, 64, 64, 64, 64, 64, 64, 64, 64, 64, 64, 64, 64, 64, 64, 64, 64, 64, 64,
    64, 64, 64, 64, 64, 64, 64, 64, 64, 64, 64, 64, 64, 64, 64, 64, 64, 64, 64, 64, 64, 64, 64, 64,
    64, 64, 64, 64, 64, 64, 64, 64, 64, 64, 64, 64, 64, 64, 64, 64]"

definition PAD :: byte where
  "PAD = 61"

section \<open>Encoding\<close>

definition char_at :: "byte \<Rightarrow> byte" where
  "char_at c = CHAR_TABLE ! unat c"

definition encodeBase :: "byte \<Rightarrow> nat \<Rightarrow> byte \<times> buffer \<Rightarrow> byte \<times> buffer" where
  "encodeBase cur pos s = (case s of (next_c, ret) \<Rightarrow>
     if pos mod 3 = 0 then (push_bit 4 (cur AND 0x03), ret @ [char_at (drop_bit 2 cur)])
     else if pos mod 3 = 1 then (push_bit 2 (cur AND 0x0f), ret @ [char_at (next_c OR drop_bit 4 cur)])
     else (0, ret @ [char_at (next_c OR drop_bit 6 cur), char_at (cur AND 0x3f)]))"

definition encodeLast :: "nat \<Rightarrow> byte \<Rightarrow> bool \<Rightarrow> buffer \<Rightarrow> buffer" where
  "encodeLast pos last_char add_padding ret =
     (if pos mod 3 = 1 then ret @ [char_at last_char] @ (if add_padding then [PAD, PAD] else [])
      else if pos mod 3 = 2 then ret @ [char_at last_char] @ (if add_padding then [PAD] else [])
      else ret)"

fun encode_loop :: "buffer \<Rightarrow> nat \<Rightarrow> byte \<times> buffer \<Rightarrow> nat \<times> byte \<times> buffer" where
  "encode_loop [] pos s = (pos, s)"
| "encode_loop (b # bs) pos s = encode_loop bs (Suc pos) (encodeBase b pos s)"

definition base64_encode :: "buffer \<Rightarrow> bool \<Rightarrow> buffer" where
  "base64_encode input add_padding =
     (case encode_loop input 0 (0, []) of (pos, next_c, ret) \<Rightarrow> encodeLast pos next_c add_padding ret)"

section \<open>Decoding\<close>

definition reverse_lookup :: "byte \<Rightarrow> byte" where
  "reverse_lookup c = REVERSE_LOOKUP_TABLE ! unat c"

text \<open>\<^verbatim>\<open>ret.back() |= x\<close>.\<close>

definition or_back :: "byte \<Rightarrow> buffer \<Rightarrow> buffer" where
  "or_back x ret = butlast ret @ [last ret OR x]"

text \<open>None is a character that is not in the alphabet.\<close>

definition decodeBase :: "byte \<Rightarrow> nat \<Rightarrow> buffer \<Rightarrow> buffer option" where
  "decodeBase cur pos ret =
     (let c = reverse_lookup cur in
      if c = 64 then None
      else if pos mod 4 = 0 then Some (ret @ [push_bit 2 c])
      else if pos mod 4 = 1 then Some (or_back (drop_bit 4 c) ret @ [push_bit 4 c])
      else if pos mod 4 = 2 then Some (or_back (drop_bit 2 c) ret @ [push_bit 6 c])
      else Some (or_back c ret))"

text \<open>None when it returns false.\<close>

definition decodeLast :: "byte \<Rightarrow> nat \<Rightarrow> buffer \<Rightarrow> buffer option" where
  "decodeLast cur pos ret =
     (let c = reverse_lookup cur in
      if c = 64 \<or> pos mod 4 = 0 then None
      else if pos mod 4 = 1 then (if c AND 0xf = 0 then Some (or_back (drop_bit 4 c) ret) else None)
      else if pos mod 4 = 2 then (if c AND 0x3 = 0 then Some (or_back (drop_bit 2 c) ret) else None)
      else Some (or_back c ret))"

fun decode_chars :: "byte list \<Rightarrow> nat \<Rightarrow> buffer \<Rightarrow> buffer option" where
  "decode_chars [] pos ret = Some ret"
| "decode_chars (c # cs) pos ret =
     (case decodeBase c pos ret of None \<Rightarrow> None | Some ret' \<Rightarrow> decode_chars cs (Suc pos) ret')"

text \<open>The number of characters before the padding.\<close>

definition unpadded :: "buffer \<Rightarrow> nat" where
  "unpadded input =
     (let n = length input in
      if input ! (n - 1) = PAD then
        (if n - 1 > 0 \<and> input ! (n - 2) = PAD then n - 2 else n - 1)
      else n)"

text \<open>
  When nothing is left before the padding, \<^verbatim>\<open>last\<close> is the greatest 64-bit number and the loop
  starts with the padding character, which is not in the alphabet.
\<close>

definition decodeWithoutPadding :: "buffer \<Rightarrow> buffer res" where
  "decodeWithoutPadding input =
     (if input = [] then Inr []
      else let n = unpadded input in
        if n = 0 then
          (case decodeBase (hd input) 0 [] of
             None \<Rightarrow> Inr [] | Some _ \<Rightarrow> Inl (Undefined ''read past the end of the input''))
        else
          (case decode_chars (take (n - 1) input) 0 [] of
             None \<Rightarrow> Inr []
           | Some ret \<Rightarrow>
               (case decodeLast (input ! (n - 1)) (n - 1) ret of None \<Rightarrow> Inr [] | Some ret' \<Rightarrow> Inr ret')))"

definition max_length :: "nat \<Rightarrow> nat" where
  "max_length n = (n + 3) div 4 * 3 - (if n mod 4 = 3 then 1 else 0) - (if n mod 4 = 2 then 2 else 0)"

lemma less8: "n < 8 \<longleftrightarrow> n = 0 \<or> n = 1 \<or> n = 2 \<or> n = 3 \<or> n = 4 \<or> n = 5 \<or> n = 6 \<or> n = (7::nat)"
  by auto

lemma base64_first: "push_bit 2 (drop_bit 2 a) OR drop_bit 4 (push_bit 4 (a AND 0x03)) = (a::byte)"
  by (rule bit_word_eqI, simp add: less8 bit_simps, (auto simp: bit_simps)?, (simp_all add: numeral_2_eq_2 numeral_3_eq_3)?)

lemma base64_second: "push_bit 4 (drop_bit 4 b) OR drop_bit 2 (push_bit 2 (b AND 0x0f)) = (b::byte)"
  by (rule bit_word_eqI, simp add: less8 bit_simps, (auto simp: bit_simps)?, (simp_all add: numeral_2_eq_2 numeral_3_eq_3)?)

lemma base64_third: "push_bit 6 (drop_bit 6 c) OR (c AND 0x3f) = (c::byte)"
  by (rule bit_word_eqI, simp add: less8 bit_simps, (auto simp: bit_simps)?, (simp_all add: numeral_2_eq_2 numeral_3_eq_3)?)

lemma base64_tail: "push_bit 4 (a AND 0x03) AND 0xf = (0::byte)" "push_bit 2 (b AND 0x0f) AND 0x3 = (0::byte)"
  by (rule bit_word_eqI, simp add: less8 bit_simps, (auto simp: bit_simps)?)+

lemma base64_small:
  "unat (drop_bit 2 (a::byte)) < 64" "unat (push_bit 4 (a AND 0x03) OR drop_bit 4 (b::byte)) < 64"
  "unat (push_bit 2 (b AND 0x0f) OR drop_bit 6 (c::byte)) < 64" "unat (c AND 0x3f :: byte) < 64"
  "unat (push_bit 4 (a AND 0x03)) < 64" "unat (push_bit 2 (b AND 0x0f)) < 64"
proof -
  have small: "unat x < 64" if "\<not> bit x 6" "\<not> bit x 7" for x :: byte
  proof -
    have "x = take_bit 6 x" 
      by (rule bit_word_eqI) (use that in \<open>auto simp: less8 bit_simps\<close>)
    then have "x = x AND mask 6" by (simp add: take_bit_eq_mask)
    then have "x \<le> mask 6" by (metis word_and_le1)
    then show ?thesis by (simp add: word_le_nat_alt mask_eq_exp_minus_1)
  qed
  show "unat (drop_bit 2 (a::byte)) < 64" "unat (push_bit 4 (a AND 0x03) OR drop_bit 4 (b::byte)) < 64"
  "unat (push_bit 2 (b AND 0x0f) OR drop_bit 6 (c::byte)) < 64" "unat (c AND 0x3f :: byte) < 64"
  "unat (push_bit 4 (a AND 0x03)) < 64" "unat (push_bit 2 (b AND 0x0f)) < 64"
    by (rule small; auto simp: bit_simps dest: bit_imp_le_length)+
qed

section \<open>The encoding of RFC 4648\<close>

text \<open>
  Groups of three bytes as four characters of the alphabet, a last group of one or two bytes as
  two or three characters and, on demand, the padding.
\<close>

fun rfc4648 :: "buffer \<Rightarrow> bool \<Rightarrow> buffer" where
  "rfc4648 [] pad = []"
| "rfc4648 [a] pad = [char_at (drop_bit 2 a), char_at (push_bit 4 (a AND 0x03))] @ (if pad then [PAD, PAD] else [])"
| "rfc4648 [a, b] pad =
     [char_at (drop_bit 2 a), char_at (push_bit 4 (a AND 0x03) OR drop_bit 4 b), char_at (push_bit 2 (b AND 0x0f))] @
     (if pad then [PAD] else [])"
| "rfc4648 (a # b # c # bs) pad =
     [char_at (drop_bit 2 a), char_at (push_bit 4 (a AND 0x03) OR drop_bit 4 b),
      char_at (push_bit 2 (b AND 0x0f) OR drop_bit 6 c), char_at (c AND 0x3f)] @ rfc4648 bs pad"

lemma mod4: "pos mod 4 = 0 \<or> pos mod 4 = 1 \<or> pos mod 4 = 2 \<or> pos mod 4 = (3::nat)"
proof -
  have "n = 0 \<or> n = 1 \<or> n = 2 \<or> n = (3::nat)" if "n < 4" for n using that by arith
  from this [of "pos mod 4"] show ?thesis by simp
qed

lemma mod_steps:
  "pos mod 3 = 0 \<Longrightarrow> Suc pos mod 3 = 1 \<and> Suc (Suc pos) mod 3 = 2 \<and> Suc (Suc (Suc pos)) mod 3 = (0::nat)"
  "pos mod 4 = 0 \<Longrightarrow> Suc pos mod 4 = 1 \<and> Suc (Suc pos) mod 4 = 2 \<and> Suc (Suc (Suc pos)) mod 4 = 3 \<and>
     Suc (Suc (Suc (Suc pos))) mod 4 = (0::nat)"
  by presburger+

lemma encode_loop_rfc4648:
  "pos mod 3 = 0 \<Longrightarrow>
   (case encode_loop bs pos (x, ret) of (pos, next_c, ret) \<Rightarrow> encodeLast pos next_c pad ret) = ret @ rfc4648 bs pad"
proof (induction bs pad arbitrary: pos x ret rule: rfc4648.induct)
  case (4 a b c bs pad)
  show ?case
    using mod_steps(1) [OF 4(2)] 4(2) by (simp add: encodeBase_def 4(1))
qed (use mod_steps(1) in \<open>simp_all add: encodeBase_def encodeLast_def\<close>)

lemma base64_encode_rfc4648: "base64_encode bs pad = rfc4648 bs pad"
  unfolding base64_encode_def using encode_loop_rfc4648 [where pos = 0 and x = 0 and ret = "[]"] by simp

section \<open>Inverting the table\<close>

lemma CHAR_TABLE_bytes:
  "CHAR_TABLE = [65, 66, 67, 68, 69, 70, 71, 72, 73, 74, 75, 76, 77, 78, 79, 80, 81, 82, 83, 84, 85, 86, 87, 88, 89, 90, 97, 98, 99, 100, 101, 102, 103, 104, 105, 106, 107, 108, 109, 110, 111, 112, 113, 114, 115, 116, 117, 118, 119, 120, 121, 122, 48, 49, 50, 51, 52, 53, 54, 55, 56, 57, 43, 47]"
  by (simp add: CHAR_TABLE_def bytes_of_chars_def)

lemma map_reverse_lookup: "map reverse_lookup CHAR_TABLE = map of_nat [0..<64]"
  by (simp add: CHAR_TABLE_bytes reverse_lookup_def REVERSE_LOOKUP_TABLE_def upt_rec)

lemma CHAR_TABLE_nth:
  assumes "i < 64"
  shows "reverse_lookup (CHAR_TABLE ! i) = of_nat i" "CHAR_TABLE ! i \<noteq> PAD"
proof -
  have "length CHAR_TABLE = 64" "PAD \<notin> set CHAR_TABLE" by (simp_all add: CHAR_TABLE_bytes PAD_def)
  then show "reverse_lookup (CHAR_TABLE ! i) = of_nat i" "CHAR_TABLE ! i \<noteq> PAD"
    using assms arg_cong [OF map_reverse_lookup, of "\<lambda>xs. xs ! i"] by (auto simp: in_set_conv_nth)
qed

lemma reverse_lookup_char_at:
  assumes "unat c < 64"
  shows "reverse_lookup (char_at c) = c" "char_at c \<noteq> PAD" "c \<noteq> 64"
proof -
  show "reverse_lookup (char_at c) = c" "char_at c \<noteq> PAD"
    using CHAR_TABLE_nth [OF assms] by (simp_all add: char_at_def)
  show "c \<noteq> 64" using assms by auto
qed

lemmas base64_lookup [simp] = base64_small [THEN reverse_lookup_char_at(1)]
  base64_small [THEN reverse_lookup_char_at(2)] base64_small [THEN reverse_lookup_char_at(3)]

lemma or_back_snoc [simp]: "or_back x (ret @ [y]) = ret @ [y OR x]" "or_back x [y] = [y OR x]"
  by (simp_all add: or_back_def)

lemma or_back_snoc2 [simp]: "or_back x (ret @ [z, y]) = ret @ [z, y OR x]" "or_back x (ret @ [w, z, y]) = ret @ [w, z, y OR x]"
  by (simp_all add: or_back_def butlast_append)

section \<open>Decoding what was encoded\<close>

definition decode_all :: "byte list \<Rightarrow> nat \<Rightarrow> buffer \<Rightarrow> buffer option" where
  "decode_all cs pos ret =
     (case decode_chars (butlast cs) pos ret of
        None \<Rightarrow> None | Some ret \<Rightarrow> decodeLast (last cs) (pos + length cs - 1) ret)"

lemma decode_all_Cons:
  "cs \<noteq> [] \<Longrightarrow> decode_all (c # cs) pos ret =
     (case decodeBase c pos ret of None \<Rightarrow> None | Some ret \<Rightarrow> decode_all cs (Suc pos) ret)"
  by (auto simp: decode_all_def split: option.split)

lemma decode_all_single: "decode_all [c] pos ret = decodeLast c pos ret"
  by (simp add: decode_all_def)

lemmas decode_steps = decode_all_Cons decode_all_single decodeBase_def decodeLast_def

lemma rfc4648_not_Nil [simp]: "rfc4648 bs pad = [] \<longleftrightarrow> bs = []"
  by (cases "(bs, pad)" rule: rfc4648.cases) auto

lemma decode_all_group:
  assumes "pos mod 4 = 0" "cs \<noteq> []"
  shows "decode_all ([char_at (drop_bit 2 a), char_at (push_bit 4 (a AND 0x03) OR drop_bit 4 b),
      char_at (push_bit 2 (b AND 0x0f) OR drop_bit 6 c), char_at (c AND 0x3f)] @ cs) pos ret =
    decode_all cs (Suc (Suc (Suc (Suc pos)))) (ret @ [a, b, c])"
  using mod_steps(2) [OF assms(1)] assms
  by (simp add: decode_steps base64_first base64_second base64_third del: push_bit_and)

lemma decode_all_rfc4648:
  "\<lbrakk>pos mod 4 = 0; bs \<noteq> []; \<not> pad\<rbrakk> \<Longrightarrow> decode_all (rfc4648 bs pad) pos ret = Some (ret @ bs)"
proof (induction bs pad arbitrary: pos ret rule: rfc4648.induct)
  case (4 a b c bs pad)
  show ?case
  proof (cases "bs = []")
    case True
    then show ?thesis
      using mod_steps(2) [OF 4(2)] 4(2)
      by (simp add: decode_steps base64_first base64_second base64_third del: push_bit_and)
  next
    case False
    then show ?thesis
      using mod_steps(2) [OF 4(2)] 4(1) [of "Suc (Suc (Suc (Suc pos)))" "ret @ [a, b, c]"] 4(4)
      by (subst rfc4648.simps, subst decode_all_group [OF 4(2)]) simp_all
  qed
qed (use mod_steps(2) in \<open>simp_all add: decode_steps base64_first base64_second base64_tail del: push_bit_and\<close>)

lemma rfc4648_padding: "\<exists>p. rfc4648 bs pad = rfc4648 bs False @ p \<and> p \<in> {[], [PAD], [PAD, PAD]}"
proof (induction bs pad rule: rfc4648.induct)
qed auto

lemma last_rfc4648: "bs \<noteq> [] \<Longrightarrow> \<not> pad \<Longrightarrow> last (rfc4648 bs pad) \<noteq> PAD"
  by (induction bs pad rule: rfc4648.induct) (auto simp del: push_bit_and)

lemma unpadded_append:
  assumes "cs \<noteq> []" "last cs \<noteq> PAD" "p \<in> {[], [PAD], [PAD, PAD]}"
  shows "unpadded (cs @ p) = length cs"
proof -
  obtain ds d where "cs = ds @ [d]" "d \<noteq> PAD" using assms(1,2) by (metis append_butlast_last_id)
  then show ?thesis using assms(3) by (auto simp: unpadded_def nth_append)
qed

lemma decodeWithoutPadding_decode_all:
  assumes "cs \<noteq> []" "last cs \<noteq> PAD" "p \<in> {[], [PAD], [PAD, PAD]}"
  shows "decodeWithoutPadding (cs @ p) = Inr (case decode_all cs 0 [] of None \<Rightarrow> [] | Some ret \<Rightarrow> ret)"
  using assms(1) unpadded_append [OF assms]
  by (auto simp: decodeWithoutPadding_def decode_all_def Let_def nth_append last_conv_nth butlast_conv_take
    split: option.split)

lemma base64_decodes: "decodeWithoutPadding (base64_encode bs pad) = Inr bs"
proof (cases "bs = []")
  case True
  then show ?thesis by (simp add: base64_encode_rfc4648 decodeWithoutPadding_def)
next
  case False
  obtain p where p: "rfc4648 bs pad = rfc4648 bs False @ p" "p \<in> {[], [PAD], [PAD, PAD]}"
    using rfc4648_padding by blast
  show ?thesis
    using decodeWithoutPadding_decode_all [OF _ last_rfc4648 p(2), of bs False] decode_all_rfc4648 [of 0 bs False "[]"] False
    by (simp add: base64_encode_rfc4648 p(1))
qed

text \<open>
  C39: The Base64 routine of the proxy is the encoding of RFC 4648, and decoding what it encoded,
  with or without padding, gives back every byte.
\<close>

theorem base64_roundtrip:
  "base64_encode bs pad = rfc4648 bs pad \<and> decodeWithoutPadding (base64_encode bs pad) = Inr bs"
  by (simp add: base64_encode_rfc4648 [symmetric] base64_decodes)

lemma length_rfc4648: "pad \<Longrightarrow> length (rfc4648 bs pad) = (length bs + 2) div 3 * 4"
proof (induction bs pad rule: rfc4648.induct)
  case (4 a b c bs pad)
  then show ?case by simp presburger
qed simp_all

lemma length_or_back [simp]: "ret \<noteq> [] \<Longrightarrow> length (or_back x ret) = length ret"
  by (simp add: or_back_def)

text \<open>The bytes that are complete or begun after a number of characters.\<close>

definition begun :: "nat \<Rightarrow> nat" where
  "begun pos = (pos * 3 + 3) div 4"

lemma group_mods:
  "(4 * k) mod 4 = (0::nat)" "(4 * k + 1) mod 4 = (1::nat)" "(4 * k + 2) mod 4 = (2::nat)" "(4 * k + 3) mod 4 = (3::nat)"
  "(4 * k + 4) mod 4 = (0::nat)"
  by presburger+

lemma begun_groups:
  "begun (4 * k) = 3 * k" "begun (4 * k + 1) = 3 * k + 1" "begun (4 * k + 2) = 3 * k + 2" "begun (4 * k + 3) = 3 * k + 3"
  unfolding begun_def by (rule div_nat_eqI; simp)+

lemma max_length_groups:
  "max_length (4 * k + 2) = 3 * k + 1" "max_length (4 * k + 3) = 3 * k + 2" "max_length (4 * k + 4) = 3 * k + 3"
proof -
  have "(4 * k + 2 + 3) div 4 = k + 1" "(4 * k + 3 + 3) div 4 = k + 1" "(4 * k + 4 + 3) div 4 = k + 1"
    by (rule div_nat_eqI; simp)+
  then show "max_length (4 * k + 2) = 3 * k + 1" "max_length (4 * k + 3) = 3 * k + 2" "max_length (4 * k + 4) = 3 * k + 3"
    by (simp_all only: max_length_def group_mods) simp_all
qed

lemma group_exists:
  "\<exists>k. pos = 4 * k \<or> pos = 4 * k + 1 \<or> pos = 4 * k + 2 \<or> pos = 4 * k + (3::nat)"
proof -
  have "pos = 4 * (pos div 4) + pos mod 4" by simp
  with mod4 [of pos] show ?thesis by (intro exI [of _ "pos div 4"]) auto
qed

lemma begun_steps:
  "Suc (4 * k) = 4 * k + 1" "Suc (4 * k + 1) = 4 * k + 2" "Suc (4 * k + 2) = 4 * k + 3" "Suc (4 * k + 3) = 4 * k + 4"
  "begun (4 * k + 4) = 3 * k + 3"
  using begun_groups(1) [of "Suc k"] by (simp_all add: add.commute)

lemma begun_Suc:
  "pos mod 4 = 3 \<Longrightarrow> begun (Suc pos) = begun pos"
  "pos mod 4 \<noteq> 3 \<Longrightarrow> begun (Suc pos) = Suc (begun pos)"
  "pos mod 4 \<noteq> 0 \<Longrightarrow> begun pos \<noteq> 0"
  "pos mod 4 \<noteq> 0 \<Longrightarrow> begun pos = max_length (Suc pos)"
  using group_exists [of pos]
  by (elim exE disjE; simp only: begun_steps begun_groups max_length_groups group_mods; simp)+

lemma begun_0 [simp]: "begun 0 = 0"
  by (simp add: begun_def)

lemma length_decodeBase:
  assumes "decodeBase c pos ret = Some ret'" "length ret = begun pos"
  shows "length ret' = begun (Suc pos)"
proof -
  have "ret \<noteq> []" if "pos mod 4 \<noteq> 0" using assms(2) begun_Suc(3) [OF that] by auto
  then show ?thesis
    using assms mod4 [of pos] begun_Suc(1,2) [of pos] by (auto simp: decodeBase_def Let_def split: if_splits)
qed

lemma length_decode_chars:
  "\<lbrakk>decode_chars cs pos ret = Some ret'; length ret = begun pos\<rbrakk>
     \<Longrightarrow> length ret' = begun (pos + length cs)"
proof (induction cs arbitrary: pos ret)
  case (Cons c cs)
  then obtain r where r: "decodeBase c pos ret = Some r" "decode_chars cs (Suc pos) r = Some ret'"
    by (auto split: option.splits)
  from Cons.IH [OF r(2) length_decodeBase [OF r(1) Cons.prems(2)]] show ?case by (simp add: algebra_simps)
qed simp

lemma length_decodeLast:
  assumes "decodeLast c pos ret = Some ret'" "length ret = begun pos"
  shows "length ret' = max_length (Suc pos)"
proof -
  have "ret \<noteq> []" if "pos mod 4 \<noteq> 0" using assms(2) begun_Suc(3) [OF that] by auto
  then show ?thesis
    using assms begun_Suc(4) [of pos] by (auto simp: decodeLast_def Let_def split: if_splits)
qed

lemma reverse_lookup_PAD: "reverse_lookup PAD = 64"
  by (simp add: reverse_lookup_def REVERSE_LOOKUP_TABLE_def PAD_def)

lemma unpadded_0: "input \<noteq> [] \<Longrightarrow> unpadded input = 0 \<Longrightarrow> hd input = PAD"
  by (cases input) (auto simp: unpadded_def Let_def nth_Cons' split: if_splits)

text \<open>
  C40: An encoding fills exactly the space reserved for it, decoding never fails on any
  input, and what it returns, when it is not empty, fills exactly the space computed from the characters
  before the padding (the assertion at the end of \<^verbatim>\<open>decodeWithoutPadding\<close>).
\<close>

theorem base64_lengths:
  "length (base64_encode bs True) = (length bs + 2) div 3 * 4 \<and>
   (\<exists>ret. decodeWithoutPadding input = Inr ret \<and> (ret = [] \<or> length ret = max_length (unpadded input)))"
proof -
  have "\<exists>ret. decodeWithoutPadding input = Inr ret \<and> (ret = [] \<or> length ret = max_length (unpadded input))"
  proof (cases "input = [] \<or> unpadded input = 0")
    case True
    then show ?thesis
      using unpadded_0 [of input] by (auto simp: decodeWithoutPadding_def decodeBase_def reverse_lookup_PAD)
  next
    case False
    have "length ret' = max_length (unpadded input)"
      if d: "decode_chars (take (unpadded input - 1) input) 0 [] = Some ret"
            "decodeLast (input ! (unpadded input - 1)) (unpadded input - 1) ret = Some ret'" for ret ret'
    proof -
      have "unpadded input - 1 \<le> length input" by (auto simp: unpadded_def Let_def)
      then have "length ret = begun (unpadded input - 1)"
        using length_decode_chars [OF d(1)] by simp
      from length_decodeLast [OF d(2) this] False show ?thesis by simp
    qed
    with False show ?thesis by (auto simp: decodeWithoutPadding_def Let_def split: option.split)
  qed
  then show ?thesis by (simp add: base64_encode_rfc4648 length_rfc4648)
qed
end
