(* ===== verification/Peer_Metadata.thy ===== *)
theory Peer_Metadata
  imports Connection Base64
begin

text \<open>
  The metadata exchange filter (\<^verbatim>\<open>filters/metadata_exchange\<close>), which tells the proxy at the other end
  what node it talks to, and the Istio statistics filter (\<^verbatim>\<open>filters/istio_stats\<close>), which reads
  that and counts the requests under tags of both nodes.

  A node is the table \<^verbatim>\<open>FlatNode\<close> of the Istio proxy with the fields that the code reads, where a null
  pointer is None; the conversions between nodes, protobuf structs (the type \<^typ>\<open>'s\<close>) and bytes, and the
  names of two labels, are parameters.  The names in the symbol table of Envoy are the strings they stand for.
\<close>

section \<open>Nodes\<close>

datatype traffic_direction = UNSPECIFIED | INBOUND | OUTBOUND

record flat_node =
  fn_workload_name :: "string option"
  fn_namespace :: "string option"
  fn_cluster_id :: "string option"
  fn_labels :: "(string \<times> string option) list option"

record 's wasm_common =
  wc_extractNodeFlatBufferFromStruct :: "'s \<Rightarrow> flat_node"
  wc_extractStructFromNodeFlatBuffer :: "flat_node \<Rightarrow> 's"
  wc_serializeToStringDeterministic :: "'s \<Rightarrow> buffer"
  wc_ParseFromString :: "buffer \<Rightarrow> 's option"
  wc_extractEmptyNodeFlatBuffer :: flat_node
  wc_kCanonicalServiceLabelName :: string
  wc_kCanonicalServiceRevisionLabelName :: string

definition ExchangeMetadataHeader :: string where
  "ExchangeMetadataHeader = ''x-envoy-peer-metadata''"

definition ExchangeMetadataHeaderId :: string where
  "ExchangeMetadataHeaderId = ''x-envoy-peer-metadata-id''"

section \<open>Metadata exchange\<close>

record exchange_filter =
  mx_local_node_metadata :: string
  mx_local_node_metadata_id :: string
  mx_traffic_direction :: traffic_direction

text \<open>The local node: its metadata, when it has some, and its id.\<close>

definition loadMetadataFromNodeInfo :: "'s wasm_common \<Rightarrow> 's option \<Rightarrow> string \<Rightarrow> string \<times> string" where
  "loadMetadataFromNodeInfo wc node_metadata node_id =
     (case node_metadata of
        None \<Rightarrow> ([], node_id)
      | Some st \<Rightarrow>
          let fb = wc_extractNodeFlatBufferFromStruct wc st;
              metadata_bytes = wc_serializeToStringDeterministic wc (wc_extractStructFromNodeFlatBuffer wc fb)
          in (chars_of_bytes (base64_encode metadata_bytes True), node_id))"

definition MetadataExchangeFilter ::
  "'s wasm_common \<Rightarrow> 's option \<Rightarrow> string \<Rightarrow> traffic_direction \<Rightarrow> exchange_filter" where
  "MetadataExchangeFilter wc node_metadata node_id direction =
     (case loadMetadataFromNodeInfo wc node_metadata node_id of
        (m, i) \<Rightarrow> \<lparr>mx_local_node_metadata = m, mx_local_node_metadata_id = i, mx_traffic_direction = direction\<rparr>)"

definition put_node :: "exchange_filter \<Rightarrow> mutation \<Rightarrow> mutation" where
  "put_node f mut = map_assign ExchangeMetadataHeaderId (mx_local_node_metadata_id f)
     (map_assign ExchangeMetadataHeader (mx_local_node_metadata f) mut)"

definition mx_onMessageDecoded :: "exchange_filter \<Rightarrow> mutation \<Rightarrow> filter_status \<times> mutation" where
  "mx_onMessageDecoded f mut =
     (ContinueIteration, if mx_traffic_direction f = OUTBOUND then put_node f mut else mut)"

definition mx_onMessageEncoded :: "exchange_filter \<Rightarrow> mutation \<Rightarrow> filter_status \<times> mutation" where
  "mx_onMessageEncoded f mut =
     (ContinueIteration, if mx_traffic_direction f = INBOUND then put_node f mut else mut)"

section \<open>Tags\<close>

type_synonym tags = "(string \<times> string) list"

definition GetFromFbStringView :: "string option \<Rightarrow> string" where
  "GetFromFbStringView str = (case str of None \<Rightarrow> [] | Some s \<Rightarrow> s)"

definition or_unknown :: "string option \<Rightarrow> string" where
  "or_unknown str = (let v = GetFromFbStringView str in if v \<noteq> [] then v else ''unknown'')"

text \<open>\<^verbatim>\<open>iter ? iter->value() : d\<close>.\<close>

definition label_value :: "string \<Rightarrow> (string \<times> string option) list \<Rightarrow> string option \<Rightarrow> string option" where
  "label_value k labels d = (case map_of labels k of None \<Rightarrow> d | Some v \<Rightarrow> v)"

definition label_revision :: "string \<Rightarrow> (string \<times> string option) list \<Rightarrow> string" where
  "label_revision k labels = (case map_of labels k of None \<Rightarrow> ''latest'' | Some v \<Rightarrow> or_unknown v)"

definition populateSourceNodeTags :: "'s wasm_common \<Rightarrow> flat_node \<Rightarrow> tags \<Rightarrow> tags" where
  "populateSourceNodeTags wc node tags = tags @
     [(''source_workload'', or_unknown (fn_workload_name node)),
      (''source_workload_namespace'', or_unknown (fn_namespace node)),
      (''source_cluster'', or_unknown (fn_cluster_id node))] @
     (case fn_labels node of
        Some labels \<Rightarrow>
          [(''source_app'', or_unknown (label_value ''app'' labels None)),
           (''source_version'', or_unknown (label_value ''version'' labels None)),
           (''source_canonical_service'',
             or_unknown (label_value (wc_kCanonicalServiceLabelName wc) labels (fn_workload_name node))),
           (''source_canonical_revision'', label_revision (wc_kCanonicalServiceRevisionLabelName wc) labels)]
      | None \<Rightarrow>
          [(''source_app'', ''unknown''), (''source_version'', ''unknown''),
           (''source_canonical_service'', ''unknown''), (''source_canonical_revision'', ''latest'')])"

definition populateDestinationNodeTags :: "'s wasm_common \<Rightarrow> flat_node \<Rightarrow> tags \<Rightarrow> tags" where
  "populateDestinationNodeTags wc node tags = tags @
     [(''destination_workload'', or_unknown (fn_workload_name node)),
      (''destination_service_namespace'', or_unknown (fn_namespace node)),
      (''destination_workload_namespace'', or_unknown (fn_namespace node)),
      (''destination_cluster'', or_unknown (fn_cluster_id node))] @
     (case fn_labels node of
        Some labels \<Rightarrow>
          [(''destination_app'', or_unknown (label_value ''app'' labels None)),
           (''destination_version'', or_unknown (label_value ''version'' labels None)),
           (''destination_canonical_service'',
             or_unknown (label_value (wc_kCanonicalServiceLabelName wc) labels (fn_workload_name node))),
           (''destination_canonical_revision'', label_revision (wc_kCanonicalServiceRevisionLabelName wc) labels)]
      | None \<Rightarrow>
          [(''destination_app'', ''unknown''), (''destination_version'', ''unknown''),
           (''destination_canonical_service'', ''unknown''), (''destination_canonical_revision'', ''latest'')])"

section \<open>Reports\<close>

text \<open>A metric has the elements of its name and its tags.\<close>

datatype metric =
    Counter_inc "string list" tags
  | Histogram_record "string list" tags int

definition CustomStatNamespace :: string where
  "CustomStatNamespace = ''wasmcustom''"

record istio_stats =
  is_traffic_direction :: traffic_direction
  is_local_node_info :: flat_node
  is_metrics :: "metric list"

definition IstioStats :: "'s wasm_common \<Rightarrow> 's option \<Rightarrow> traffic_direction \<Rightarrow> istio_stats" where
  "IstioStats wc node_metadata direction = \<lparr>is_traffic_direction = direction,
     is_local_node_info = (case node_metadata of
        None \<Rightarrow> wc_extractEmptyNodeFlatBuffer wc | Some st \<Rightarrow> wc_extractNodeFlatBufferFromStruct wc st),
     is_metrics = []\<rparr>"

text \<open>What the code reads of the stream info of the message.\<close>

record stream_view =
  sv_upstream_cluster :: "string option"
  sv_request_complete :: "int option"
  sv_bytes_sent :: u64
  sv_bytes_received :: u64

definition after_last_bar :: "string \<Rightarrow> string" where
  "after_last_bar s = (if CHR ''|'' \<in> set s then rev (takeWhile (\<lambda>c. c \<noteq> CHR ''|'') (rev s)) else s)"

definition response_code :: "response_status \<Rightarrow> string" where
  "response_code st = show_nat (case st of RS_Ok \<Rightarrow> 0 | RS_Error \<Rightarrow> 1)"

definition service_tags :: "string \<Rightarrow> tags" where
  "service_tags name = [(''destination_service'', name), (''destination_service_name'', name)]"

definition report_tags ::
  "'s wasm_common \<Rightarrow> flat_node \<Rightarrow> stream_view \<Rightarrow> 'x metadata \<Rightarrow> string \<Rightarrow> istio_stats \<Rightarrow> tags" where
  "report_tags wc peer_node sv md destination_service is =
     (if is_traffic_direction is = INBOUND then
        populateDestinationNodeTags wc (is_local_node_info is)
          (populateSourceNodeTags wc peer_node [(''reporter'', ''destination'')]) @ service_tags destination_service
      else
        populateDestinationNodeTags wc peer_node
          (populateSourceNodeTags wc (is_local_node_info is) [(''reporter'', ''source'')]) @
        (case sv_upstream_cluster sv of None \<Rightarrow> [] | Some name \<Rightarrow> service_tags (after_last_bar name)))
     @ [(''response_code'', response_code (md_response_status md))]"

definition report ::
  "'s wasm_common \<Rightarrow> flat_node \<Rightarrow> stream_view \<Rightarrow> 'x metadata \<Rightarrow> string \<Rightarrow> istio_stats \<Rightarrow> istio_stats" where
  "report wc peer_node sv md destination_service is =
     (let tags = report_tags wc peer_node sv md destination_service is in
      is\<lparr>is_metrics := is_metrics is @ [Counter_inc [CustomStatNamespace, ''istio_requests_total''] tags] @
        (case sv_request_complete sv of
           None \<Rightarrow> []
         | Some d \<Rightarrow> [Histogram_record [CustomStatNamespace, ''istio_request_duration_milliseconds''] tags (to_ms d)]) @
        [Histogram_record [CustomStatNamespace, ''istio_request_bytes''] tags (uint (sv_bytes_sent sv)),
         Histogram_record [CustomStatNamespace, ''istio_response_bytes''] tags (uint (sv_bytes_received sv))]\<rparr>)"

section \<open>The statistics filter\<close>

record stats_filter =
  sf_traffic_direction :: traffic_direction
  sf_peer_node_info :: flat_node
  sf_destination_service :: string

definition new_StatsFilter :: "'s wasm_common \<Rightarrow> traffic_direction \<Rightarrow> string \<Rightarrow> stats_filter" where
  "new_StatsFilter wc direction destination_service = \<lparr>sf_traffic_direction = direction,
     sf_peer_node_info = wc_extractEmptyNodeFlatBuffer wc, sf_destination_service = destination_service\<rparr>"

definition extractPeerNodeMetadata :: "'s wasm_common \<Rightarrow> 'x metadata \<Rightarrow> flat_node res" where
  "extractPeerNodeMetadata wc md =
     bindr (getString ExchangeMetadataHeader md) (\<lambda>metadataHeader.
       if metadataHeader \<noteq> [] then
         bindr (decodeWithoutPadding (bytes_of_chars metadataHeader)) (\<lambda>bytes.
           case wc_ParseFromString wc bytes of
             Some st \<Rightarrow> Inr (wc_extractNodeFlatBufferFromStruct wc st)
           | None \<Rightarrow> Inr (wc_extractEmptyNodeFlatBuffer wc))
       else Inr (wc_extractEmptyNodeFlatBuffer wc))"

definition sf_onMessageDecoded ::
  "'s wasm_common \<Rightarrow> 'x metadata \<Rightarrow> stats_filter \<Rightarrow> (filter_status \<times> stats_filter) res" where
  "sf_onMessageDecoded wc md f =
     (if sf_traffic_direction f = INBOUND then
        bindr (extractPeerNodeMetadata wc md) (\<lambda>n. Inr (ContinueIteration, f\<lparr>sf_peer_node_info := n\<rparr>))
      else Inr (ContinueIteration, f))"

definition sf_onMessageEncoded ::
  "'s wasm_common \<Rightarrow> stream_view \<Rightarrow> 'x metadata \<Rightarrow> stats_filter \<Rightarrow> istio_stats
   \<Rightarrow> (filter_status \<times> stats_filter \<times> istio_stats) res" where
  "sf_onMessageEncoded wc sv md f is =
     bindr (if sf_traffic_direction f = OUTBOUND
            then bindr (extractPeerNodeMetadata wc md) (\<lambda>n. Inr (f\<lparr>sf_peer_node_info := n\<rparr>)) else Inr f) (\<lambda>f'.
       Inr (ContinueIteration, f', report wc (sf_peer_node_info f') sv md (sf_destination_service f') is))"

end
