(* ===== verification/Filters.thy ===== *)
theory Filters
  imports Local_Ratelimit Global_Ratelimit Peer_Metadata Proxy
begin

text \<open>
  The filters of the repository beside the router, in the chain of a message: the rate limiters, the metadata
  exchange and the statistics.  What the filters of a configuration share (the token buckets with
  their counters, the metrics) is the shared state of the chain.
\<close>

section \<open>The filters as functions of the chain\<close>

record 'm shared_filters =
  sh_local :: "'m lr_config"
  sh_istio :: istio_stats

datatype 'm repo_filter =
    F_local
  | F_global "'m rl_config"
  | F_exchange exchange_filter
  | F_stats stats_filter
  | F_shared "'m shared_filters"

record ('s, 'm) filter_env =
  fe_matchHeaders :: "'m match_headers"
  fe_rls :: rls_env
  fe_wasm :: "'s wasm_common"
  fe_stream :: "nat \<Rightarrow> stream_view"

definition no_filter :: "'m repo_filter \<Rightarrow> 'm repo_filter \<Rightarrow> ('c, 'x) net \<Rightarrow> 'x metadata \<Rightarrow> mutation
   \<Rightarrow> ('c, 'x, 'm repo_filter) outcome" where
  "no_filter f g nt md mut = \<lparr>fo_status = Inr ContinueIteration, fo_filter = f, fo_shared = g, fo_net = nt,
     fo_metadata = md, fo_mutation = mut, fo_calls = []\<rparr>"

definition decoded_by :: "('s, 'm) filter_env \<Rightarrow> 'm repo_filter \<Rightarrow> 'm repo_filter \<Rightarrow> ('c, 'x) net \<Rightarrow> 'x metadata \<Rightarrow> mutation
   \<Rightarrow> ('c, 'x, 'm repo_filter) outcome" where
  "decoded_by fe f g nt md mut =
     (case (f, g) of
        (F_local, F_shared sh) \<Rightarrow>
          (case lr_onMessageDecoded (fe_matchHeaders fe) md (sh_local sh) of (st, calls, cfg') \<Rightarrow>
             (no_filter f (F_shared (sh\<lparr>sh_local := cfg'\<rparr>)) nt md mut)\<lparr>fo_status := Inr st, fo_calls := calls\<rparr>)
      | (F_global cfg, _) \<Rightarrow>
          (case rl_onMessageDecoded (fe_rls fe) (fe_matchHeaders fe) cfg md of (st, calls) \<Rightarrow>
             (no_filter f g nt md mut)\<lparr>fo_status := st, fo_calls := calls\<rparr>)
      | (F_exchange mx, _) \<Rightarrow>
          (case mx_onMessageDecoded mx mut of (st, mut') \<Rightarrow> (no_filter f g nt md mut')\<lparr>fo_status := Inr st\<rparr>)
      | (F_stats sf, _) \<Rightarrow>
          (case sf_onMessageDecoded (fe_wasm fe) md sf of
             Inl e \<Rightarrow> (no_filter f g nt md mut)\<lparr>fo_status := Inl e\<rparr>
           | Inr (st, sf') \<Rightarrow> (no_filter (F_stats sf') g nt md mut)\<lparr>fo_status := Inr st\<rparr>)
      | _ \<Rightarrow> no_filter f g nt md mut)"

definition encoded_by :: "('s, 'm) filter_env \<Rightarrow> nat \<Rightarrow> 'm repo_filter \<Rightarrow> 'm repo_filter \<Rightarrow> ('c, 'x) net \<Rightarrow> 'x metadata \<Rightarrow> mutation
   \<Rightarrow> ('c, 'x, 'm repo_filter) outcome" where
  "encoded_by fe i f g nt md mut =
     (case (f, g) of
        (F_local, F_shared sh) \<Rightarrow>
          (case lr_onMessageEncoded md (sh_local sh) of (st, calls, cfg') \<Rightarrow>
             (no_filter f (F_shared (sh\<lparr>sh_local := cfg'\<rparr>)) nt md mut)\<lparr>fo_status := Inr st, fo_calls := calls\<rparr>)
      | (F_global cfg, _) \<Rightarrow>
          (case rl_onMessageEncoded md of (st, calls) \<Rightarrow>
             (no_filter f g nt md mut)\<lparr>fo_status := st, fo_calls := calls\<rparr>)
      | (F_exchange mx, _) \<Rightarrow>
          (case mx_onMessageEncoded mx mut of (st, mut') \<Rightarrow> (no_filter f g nt md mut')\<lparr>fo_status := Inr st\<rparr>)
      | (F_stats sf, F_shared sh) \<Rightarrow>
          (case sf_onMessageEncoded (fe_wasm fe) (fe_stream fe i) md sf (sh_istio sh) of
             Inl e \<Rightarrow> (no_filter f g nt md mut)\<lparr>fo_status := Inl e\<rparr>
           | Inr (st, sf', is') \<Rightarrow> (no_filter (F_stats sf') (F_shared (sh\<lparr>sh_istio := is'\<rparr>)) nt md mut)\<lparr>fo_status := Inr st\<rparr>)
      | _ \<Rightarrow> no_filter f g nt md mut)"

text \<open>None of them does anything in \<^verbatim>\<open>onDestroy\<close>.\<close>

definition repo_filters :: "('s, 'm) filter_env \<Rightarrow> ('c, 'x, 'm repo_filter) filter_fns" where
  "repo_filters fe = \<lparr>ff_onMessageDecoded = (\<lambda>i f g nt md mut. decoded_by fe f g nt md mut),
     ff_onMessageEncoded = (\<lambda>i f g nt md mut. encoded_by fe i f g nt md mut), ff_onDestroy = (\<lambda>i f nt. nt)\<rparr>"

section \<open>A filter that refuses a request\<close>

lemma add_kinds_prefix:
  "\<exists>fs' ds'. am_filters (foldl (\<lambda>m' kf. add_kind kf m') m fs) = am_filters m @ fs' \<and>
     am_decoder_filters (foldl (\<lambda>m' kf. add_kind kf m') m fs) = am_decoder_filters m @ ds' \<and>
     am_local_response_sent (foldl (\<lambda>m' kf. add_kind kf m') m fs) = am_local_response_sent m"
proof (induction fs arbitrary: m)
  case (Cons kf fs)
  from Cons.IH [of "add_kind kf m"] show ?case
    by (cases kf; cases "fst kf") (auto simp: add_kind_def addDecoderFilter_def addEncoderFilter_def addFilter_def)
qed simp

lemma chain_head:
  assumes "cf_filterFactories cfg = (k, f) # rest" "k \<noteq> EncoderKind"
  shows "\<exists>fs dual ds. am_filters (createFilterChain cfg new_message) = f # fs \<and>
    am_decoder_filters (createFilterChain cfg new_message) = (0, dual) # ds \<and>
    \<not> am_local_response_sent (createFilterChain cfg new_message)"
  using assms add_kinds_prefix [of "add_kind (k, f) new_message" rest]
  by (cases k) (auto simp: createFilterChain_def add_kind_def addDecoderFilter_def addFilter_def new_message_def)

lemma delete_leaves:
  assumes "distinct_messages c" "active i c" "cn_written c = w" "cn_net c = n" "cn_shared c = g"
  shows "cn_written (deferredDeleteMessage i c) = w \<and> \<not> active i (deferredDeleteMessage i c) \<and>
    deferred i (deferredDeleteMessage i c) \<and> cn_net (deferredDeleteMessage i c) = n \<and>
    cn_shared (deferredDeleteMessage i c) = g"
proof -
  have "cn_shared (deferredDeleteMessage i c) = cn_shared c" by (simp add: deferredDeleteMessage_def split: option.split)
  with assms delete_active [of c i] show ?thesis by simp
qed

lemma first_filter_refuses:
  assumes "md1 = putString ApplicationProtocol (cf_applicationProtocol cfg) md"
    and "cf_filterFactories cfg = (k, f) # rest" "k \<noteq> EncoderKind"
    and "get_message i cn = Some (createFilterChain cfg new_message)"
    and "active i cn" "distinct_messages cn" "cn_state cn = Open" "md_message_type md = Request"
    and "ff_onMessageDecoded (cf_filters cfg) i f (cn_shared cn) (cn_net cn) md1 mut =
      \<lparr>fo_status = Inr st, fo_filter = f', fo_shared = g', fo_net = cn_net cn, fo_metadata = md1, fo_mutation = mut,
       fo_calls = [Call_sendLocalReply err False]\<rparr>"
    and "co_onError (cf_codec cfg) md1 err [] = Inr b"
  shows "\<exists>cn'. am_onMessageDecoded cfg i md mut cn = (Inr (), cn') \<and> cn_written cn' = cn_written cn @ [(b, False)] \<and>
    \<not> active i cn' \<and> deferred i cn' \<and> cn_net cn' = cn_net cn \<and> cn_shared cn' = g'"
proof -
  obtain fs dual ds where chain: "am_filters (createFilterChain cfg new_message) = f # fs"
      "am_decoder_filters (createFilterChain cfg new_message) = (0, dual) # ds"
      "\<not> am_local_response_sent (createFilterChain cfg new_message)"
    using chain_head [OF assms(2,3)] by blast
  define cnA where "cnA = upd_message i (\<lambda>m. m\<lparr>am_filter_action := Some mut\<rparr>)
    (upd_message i (\<lambda>m. m\<lparr>am_metadata := Some md1\<rparr>)
      (upd_message i (\<lambda>m. m\<lparr>am_bytes_sent := am_bytes_sent m + getMessageSize md\<rparr>)
        (inc request_decoding_success cn)))"
  define cn1 where "cn1 = (upd_message i (\<lambda>m'. m'\<lparr>am_filters := (am_filters m')[0 := f'],
      am_metadata := Some md1, am_filter_action := Some mut\<rparr>) cnA)\<lparr>cn_shared := g', cn_net := cn_net cn\<rparr>"
  let ?cn2 = "upd_message i (\<lambda>m. m\<lparr>am_local_response_sent := True\<rparr>)
        (inc local_response_business_exception (conn_write b False cn1))"
  obtain mA where mA: "get_message i cnA = Some mA" "am_filters mA = f # fs" "am_decoder_filters mA = (0, dual) # ds"
      "\<not> am_local_response_sent mA" "am_metadata mA = Some md1" "am_filter_action mA = Some mut"
    using assms(4) chain by (simp add: cnA_def)
  obtain m1 where m1: "get_message i cn1 = Some m1" "am_metadata m1 = Some md1"
    using mA(1) by (simp add: cn1_def)
  have shared: "cn_shared cnA = cn_shared cn" "cn_net cnA = cn_net cn" by (simp_all add: cnA_def)
  have same: "cn_state cn1 = Open" "cn_written cn1 = cn_written cn" "active i cn1" "distinct_messages cn1"
    "cn_net cn1 = cn_net cn" "cn_shared cn1 = g'"
    using assms(5-7) by (simp_all add: cn1_def cnA_def active_def distinct_messages_def)
  have "run_decoder_filter cfg i 0 cnA = bindS (filter_callbacks cfg i [Call_sendLocalReply err False] cn1) (\<lambda>_ cn2. (Inr st, cn2))"
    using mA assms(9) shared by (simp add: run_decoder_filter_def the_message_def Let_def cn1_def)
  then have run: "run_decoder_filter cfg i 0 cnA = (Inr st, ?cn2)"
    using sendLocalReply_open [OF m1 same(1) assms(10)] by (simp add: filter_callback_def)
  have applied: "applyDecoderFilters cfg i None CanStartFromCurrent cnA =
      (Inr ContinueIteration, upd_message i (\<lambda>m. m\<lparr>am_filter_action := None\<rparr>) ?cn2)"
    using mA run m1(1) by (simp add: applyDecoderFilters_def the_message_def commonPrefix_def local_response_sent_def)
  have "am_onMessageDecoded cfg i md mut cn =
      bindS (applyDecoderFilters cfg i None CanStartFromCurrent cnA) (\<lambda>st cn2. case st of
             PauseIteration \<Rightarrow> (Inr (), upd_message i (\<lambda>m. m\<lparr>am_pending_stream_decoded := True\<rparr>) cn2)
           | AbortIteration \<Rightarrow> (Inr (), deferredDeleteMessage i cn2)
           | ContinueIteration \<Rightarrow> maybeDeferredDeleteMessage i cn2
           | Retry \<Rightarrow> (Inl (Panic ''invalid filter status''), cn2))"
    using assms(1,8) by (simp add: am_onMessageDecoded_def stream_switch_def Let_def cnA_def)
  with applied have "am_onMessageDecoded cfg i md mut cn =
      maybeDeferredDeleteMessage i (upd_message i (\<lambda>m. m\<lparr>am_filter_action := None\<rparr>) ?cn2)"
    by simp
  then have "\<exists>st'. am_onMessageDecoded cfg i md mut cn = (Inr (), deferredDeleteMessage i
      ((upd_message i (\<lambda>m. m\<lparr>am_pending_stream_decoded := False\<rparr>)
         (upd_message i (\<lambda>m. m\<lparr>am_filter_action := None\<rparr>) ?cn2))\<lparr>cn_stats := st'\<rparr>))"
    using m1
    by (auto simp: maybeDeferredDeleteMessage_def the_metadata_def the_message_def local_response_sent_def Let_def)
  then obtain st' where st': "am_onMessageDecoded cfg i md mut cn = (Inr (), deferredDeleteMessage i
      ((upd_message i (\<lambda>m. m\<lparr>am_pending_stream_decoded := False\<rparr>)
         (upd_message i (\<lambda>m. m\<lparr>am_filter_action := None\<rparr>) ?cn2))\<lparr>cn_stats := st'\<rparr>))" (is "_ = (Inr (), deferredDeleteMessage i ?cn3)")
    by blast
  have "distinct_messages ?cn3" "active i ?cn3" using same by simp_all
  moreover have "cn_written ?cn3 = cn_written cn @ [(b, False)]" "cn_net ?cn3 = cn_net cn" "cn_shared ?cn3 = g'"
    using same by (simp_all add: conn_write_def)
  ultimately have "cn_written (deferredDeleteMessage i ?cn3) = cn_written cn @ [(b, False)] \<and>
      \<not> active i (deferredDeleteMessage i ?cn3) \<and> deferred i (deferredDeleteMessage i ?cn3) \<and>
      cn_net (deferredDeleteMessage i ?cn3) = cn_net cn \<and> cn_shared (deferredDeleteMessage i ?cn3) = g'"
    by (rule delete_leaves)
  with st' show ?thesis by blast
qed

section \<open>Rate limits in the chain\<close>

definition over_limit :: "'m match_headers \<Rightarrow> 'x metadata \<Rightarrow> 'm local_limiter \<Rightarrow> bool" where
  "over_limit matchHeaders md lim \<longleftrightarrow>
     (case find (\<lambda>c. matchHeaders (md_headers md) (lc_match c)) (ll_conditions lim) of
        Some c \<Rightarrow> ts_tokens (lc_token_state c) = 0
      | None \<Rightarrow> ll_has_token_bucket lim \<and> ts_tokens (ll_global_token_state lim) = 0)"

lemma allowed_by_condition_find:
  "allowed_by_condition mh hs cs = None \<longleftrightarrow> find (\<lambda>c. mh hs (lc_match c)) cs = None"
  "find (\<lambda>c. mh hs (lc_match c)) cs = Some c \<Longrightarrow> ts_tokens (lc_token_state c) = 0 \<Longrightarrow>
     allowed_by_condition mh hs cs = Some (False, cs)"
  "find (\<lambda>c. mh hs (lc_match c)) cs = Some c \<Longrightarrow> ts_tokens (lc_token_state c) \<noteq> 0 \<Longrightarrow>
     \<exists>cs'. allowed_by_condition mh hs cs = Some (True, cs')"
  by (induction cs) (auto simp: requestAllowedHelper_def split: if_splits)

lemma requestAllowed_over_limit:
  "over_limit mh md lim \<Longrightarrow> requestAllowed mh md lim = (False, lim)"
  "\<not> over_limit mh md lim \<Longrightarrow> fst (requestAllowed mh md lim)"
proof -
  let ?c = "find (\<lambda>c. mh (md_headers md) (lc_match c)) (ll_conditions lim)"
  show "requestAllowed mh md lim = (False, lim)" if o: "over_limit mh md lim"
  proof (cases ?c)
    case None
    then have "allowed_by_condition mh (md_headers md) (ll_conditions lim) = None" by (simp only: allowed_by_condition_find)
    with None o show ?thesis by (simp add: over_limit_def requestAllowed_def requestAllowedHelper_def)
  next
    case (Some c)
    with o allowed_by_condition_find(2) [of mh "md_headers md" "ll_conditions lim" c] show ?thesis by (simp add: over_limit_def requestAllowed_def)
  qed
  show "fst (requestAllowed mh md lim)" if o: "\<not> over_limit mh md lim"
  proof (cases ?c)
    case None
    then have "allowed_by_condition mh (md_headers md) (ll_conditions lim) = None" by (simp only: allowed_by_condition_find)
    with None o show ?thesis by (auto simp: over_limit_def requestAllowed_def requestAllowedHelper_def)
  next
    case (Some c)
    with o allowed_by_condition_find(3) [of mh "md_headers md" "ll_conditions lim" c] show ?thesis by (auto simp: over_limit_def requestAllowed_def)
  qed
qed

lemma lr_refuses:
  assumes "over_limit mh md (lr_rate_limiter cfg)"
  shows "\<exists>msg. lr_onMessageDecoded mh md cfg =
    (AbortIteration, [Call_sendLocalReply (Error OverLimit msg) False], cfg\<lparr>lr_rate_limited := lr_rate_limited cfg + 1\<rparr>)"
  using requestAllowed_over_limit(1) [OF assms]
  by (simp add: lr_onMessageDecoded_def lr_shouldRateLimit_def)

text \<open>
  A request over the limit does not get past the rate limiter.  When the first condition that matches it, or
  the bucket of the service when none does, has no token left, and the rate limiter is the first filter of any
  chain, the client gets exactly one error reply, the message is deleted, no filter after it runs (the upstream
  side is as it was), the request is counted as limited and no bucket changes.
\<close>

lemma rate_limited_request_answered:
  assumes "cf_filters cfg = proxy_filters rv (repo_filters fe)"
    and "cf_filterFactories cfg = (CodecKind, FOther F_local) # rest"
    and "get_message i cn = Some (createFilterChain cfg new_message)"
    and "active i cn" "distinct_messages cn" "cn_state cn = Open" "md_message_type md = Request"
    and "cn_shared cn = FOther (F_shared sh)"
    and "md1 = putString ApplicationProtocol (cf_applicationProtocol cfg) md"
    and "over_limit (fe_matchHeaders fe) md1 (lr_rate_limiter (sh_local sh))"
    and "\<forall>err. err_type err = OverLimit \<longrightarrow> (\<exists>b. co_onError (cf_codec cfg) md1 err [] = Inr b)"
  shows "\<exists>cn' err b. am_onMessageDecoded cfg i md mut cn = (Inr (), cn') \<and> err_type err = OverLimit \<and>
    co_onError (cf_codec cfg) md1 err [] = Inr b \<and> cn_written cn' = cn_written cn @ [(b, False)] \<and>
    \<not> active i cn' \<and> deferred i cn' \<and> cn_net cn' = cn_net cn \<and>
    cn_shared cn' = FOther (F_shared (sh\<lparr>sh_local := (sh_local sh)\<lparr>lr_rate_limited := lr_rate_limited (sh_local sh) + 1\<rparr>\<rparr>))"
proof -
  obtain msg where lr: "lr_onMessageDecoded (fe_matchHeaders fe) md1 (sh_local sh) = (AbortIteration,
      [Call_sendLocalReply (Error OverLimit msg) False], (sh_local sh)\<lparr>lr_rate_limited := lr_rate_limited (sh_local sh) + 1\<rparr>)"
    using lr_refuses [OF assms(10)] by blast
  obtain b where b: "co_onError (cf_codec cfg) md1 (Error OverLimit msg) [] = Inr b"
    using assms(11) [rule_format, of "Error OverLimit msg"] by auto
  have "ff_onMessageDecoded (cf_filters cfg) i (FOther F_local) (cn_shared cn) (cn_net cn) md1 mut =
      \<lparr>fo_status = Inr AbortIteration, fo_filter = FOther F_local,
       fo_shared = FOther (F_shared (sh\<lparr>sh_local := (sh_local sh)\<lparr>lr_rate_limited := lr_rate_limited (sh_local sh) + 1\<rparr>\<rparr>)),
       fo_net = cn_net cn, fo_metadata = md1, fo_mutation = mut, fo_calls = [Call_sendLocalReply (Error OverLimit msg) False]\<rparr>"
    using lr by (simp add: assms(1,8) proxy_filters_def repo_filters_def decoded_by_def no_filter_def other_outcome_def)
  from first_filter_refuses [OF assms(9,2) _ assms(3-7) this b] obtain cn' where
    "am_onMessageDecoded cfg i md mut cn = (Inr (), cn')" "cn_written cn' = cn_written cn @ [(b, False)]"
    "\<not> active i cn'" "deferred i cn'" "cn_net cn' = cn_net cn"
    "cn_shared cn' = FOther (F_shared (sh\<lparr>sh_local := (sh_local sh)\<lparr>lr_rate_limited := lr_rate_limited (sh_local sh) + 1\<rparr>\<rparr>))"
    by auto
  with b show ?thesis by (intro exI [of _ cn'] exI [of _ "Error OverLimit msg"] exI [of _ b]) simp
qed

text \<open>A service with one token, which a first request took.\<close>

definition one_token :: "unit lr_config" where
  "one_token = snd (lr_shouldRateLimit (\<lambda>_ _. True) (new_metadata :: unit metadata)
     (case lr_FilterConfig 0 \<lparr>lp_token_bucket = Some \<lparr>bp_max_tokens = 1, bp_tokens_per_fill = None,
        bp_fill_interval = Some 100\<rparr>, lp_conditions = []\<rparr> of Inr c \<Rightarrow> c | Inl _ \<Rightarrow> undefined))"

definition sample_wasm :: "flat_node wasm_common" where
  "sample_wasm = \<lparr>wc_extractNodeFlatBufferFromStruct = id, wc_extractStructFromNodeFlatBuffer = id,
     wc_serializeToStringDeterministic = (\<lambda>n. bytes_of_chars (case fn_workload_name n of None \<Rightarrow> [] | Some w \<Rightarrow> w)),
     wc_ParseFromString = (\<lambda>b. Some \<lparr>fn_workload_name = Some (chars_of_bytes b), fn_namespace = None,
        fn_cluster_id = None, fn_labels = None\<rparr>),
     wc_extractEmptyNodeFlatBuffer = \<lparr>fn_workload_name = None, fn_namespace = None, fn_cluster_id = None, fn_labels = None\<rparr>,
     wc_kCanonicalServiceLabelName = ''name'', wc_kCanonicalServiceRevisionLabelName = ''revision''\<rparr>"

definition sample_filter_env :: "(flat_node, unit) filter_env" where
  "sample_filter_env = \<lparr>fe_matchHeaders = (\<lambda>_ _. True),
     fe_rls = \<lparr>re_host = (\<lambda>_. None), re_ShouldRateLimit = (\<lambda>_ _. (True, RLS_OK))\<rparr>, fe_wasm = sample_wasm,
     fe_stream = (\<lambda>_. \<lparr>sv_upstream_cluster = None, sv_request_complete = None, sv_bytes_sent = 0, sv_bytes_received = 0\<rparr>)\<rparr>"

definition limited_proxy :: "(unit, unit, (unit, unit repo_filter) pfilter) config" where
  "limited_proxy = \<lparr>cf_codec = byte_codec, cf_applicationProtocol = ''byte'', cf_idleTimeout = None,
     cf_filterFactories = [(CodecKind, FOther F_local), (CodecKind, FRouter new_router)],
     cf_filters = proxy_filters byte_env (repo_filters sample_filter_env)\<rparr>"

definition limited_shared :: "unit shared_filters" where
  "limited_shared = \<lparr>sh_local = one_token, sh_istio = IstioStats sample_wasm None INBOUND\<rparr>"

definition limited_conn :: "(unit, unit, (unit, unit repo_filter) pfilter) conn" where
  "limited_conn = snd (newMessageHandler limited_proxy (new_conn (FOther (F_shared limited_shared)) (byte_net AnswerLater)))"

lemma rate_limited_example:
  "\<exists>cn'. am_onMessageDecoded limited_proxy 0 (fresh_metadata Request) [] limited_conn = (Inr (), cn')
     \<and> cn_written cn' = [([255], False)] \<and> \<not> active 0 cn' \<and> deferred 0 cn' \<and> cn_net cn' = byte_net AnswerLater"
proof -
  have cfg: "cf_filters limited_proxy = proxy_filters byte_env (repo_filters sample_filter_env)"
    "cf_filterFactories limited_proxy = (CodecKind, FOther F_local) # [(CodecKind, FRouter new_router)]"
    by (simp_all add: limited_proxy_def)
  have cn: "get_message 0 limited_conn = Some (createFilterChain limited_proxy new_message)" "active 0 limited_conn"
    "distinct_messages limited_conn" "cn_state limited_conn = Open" "cn_shared limited_conn = FOther (F_shared limited_shared)"
    "cn_written limited_conn = []" "cn_net limited_conn = byte_net AnswerLater"
    by (simp_all add: limited_conn_def newMessageHandler_def new_conn_def get_message_def active_def distinct_messages_def Let_def)
  have "over_limit (fe_matchHeaders sample_filter_env) md (lr_rate_limiter (sh_local limited_shared))" for md :: "unit metadata"
    by (simp add: over_limit_def limited_shared_def one_token_def lr_shouldRateLimit_def requestAllowed_def
        requestAllowedHelper_def lr_FilterConfig_def LocalRateLimiterImpl_def min_fill_interval_def get_or_def Let_def)
  from rate_limited_request_answered [OF cfg cn(1-4) _ cn(5) refl this, of "fresh_metadata Request" "[]"] show ?thesis
    by (auto simp: limited_proxy_def byte_codec_def cn(6,7))
qed

section \<open>Nodes learn of each other\<close>

text \<open>
  The node of a proxy reaches the statistics of the proxy at the other end: what the exchange filter of an
  outbound listener puts into a request is what the statistics filter of an inbound listener reads, once
  the codec has delivered the mutation as a property, and the tags of its report name that node as the source.
\<close>

lemma peer_node_travels:
  assumes "wc_ParseFromString wc (wc_serializeToStringDeterministic wc st') = Some st'"
    and "st' = wc_extractStructFromNodeFlatBuffer wc (wc_extractNodeFlatBufferFromStruct wc st)"
    and "wc_serializeToStringDeterministic wc st' \<noteq> []"
    and "mx_onMessageDecoded (MetadataExchangeFilter wc (Some st) node_id OUTBOUND) mut = (status, mut')"
    and "map_find mut' ExchangeMetadataHeader = Some v" "getString ExchangeMetadataHeader md = Inr v"
  shows "status = ContinueIteration \<and>
    sf_onMessageDecoded wc md (new_StatsFilter wc INBOUND service) = Inr (ContinueIteration,
      (new_StatsFilter wc INBOUND service)\<lparr>sf_peer_node_info := wc_extractNodeFlatBufferFromStruct wc st'\<rparr>)"
proof -
  let ?b = "base64_encode (wc_serializeToStringDeterministic wc st') True"
  have "v = chars_of_bytes ?b" "status = ContinueIteration"
    using assms(2,4,5) map_find_assign
    by (auto simp: mx_onMessageDecoded_def MetadataExchangeFilter_def loadMetadataFromNodeInfo_def put_node_def
        ExchangeMetadataHeader_def ExchangeMetadataHeaderId_def Let_def)
  moreover have "?b \<noteq> []" using assms(3) by (simp add: base64_encode_rfc4648)
  then have "chars_of_bytes ?b \<noteq> []" by (simp add: chars_of_bytes_def)
  ultimately show ?thesis
    using assms(1,6) by (simp add: sf_onMessageDecoded_def new_StatsFilter_def extractPeerNodeMetadata_def base64_decodes)
qed

end
