(* ===== verification/Spec2Isabelle.thy ===== *)
theory Spec2Isabelle
  imports Brpc Trpc Dubbo_Messages Proxy Rds Thrift_Binary Filters
begin

text \<open>
  A verification development for the MetaProtocol proxy, a layer 7 proxy for RPC protocols that runs as a network
  filter of Envoy.  Paths below are relative to \<^verbatim>\<open>src/src\<close>.

  \<^bold>\<open>The program.\<close>  A connection manager (\<^verbatim>\<open>meta_protocol_proxy/conn_manager.cc\<close>) reads the bytes of a downstream
  connection and gives them to a decoder (\<^verbatim>\<open>decoder.cc\<close>), which cuts messages out of the buffer with the codec
  of the application protocol (\<^verbatim>\<open>application_protocols\<close>: bRPC, tRPC, Dubbo, Thrift).  Each message becomes an
  active message (\<^verbatim>\<open>active_message.cc\<close>) with a chain of filters.  The last filter is the router
  (\<^verbatim>\<open>filters/router\<close>): it chooses a route, gets a connection from a pool of the cluster, sends the encoded
  request and hands the bytes of the response to the response decoder of the message, from where it passes the encoder
  filters and is written to the client.  Streams, heartbeats, one-way requests, shared upstream connections and
  mirrored requests are variants of that path.  Routes are static or come from route discovery
  (\<^verbatim>\<open>route/rds_impl.cc\<close>).  The other filters limit the rate of requests, exchange metadata between proxies and
  report statistics.

  \<^bold>\<open>Conventions.\<close>  A component is a record with the members of its class, an operation is a function of the same name
  that returns the changed state; where one name is used by several classes, it has a prefix
  (\<^verbatim>\<open>am_onMessageDecoded\<close>, \<^verbatim>\<open>router_onMessageEncoded\<close>).  Exceptions, panics and undefined accesses are
  the left values of the result type \<^verbatim>\<open>res\<close>.  Integers have the width of the source, and its wrap-around.  A
  buffer is a list of bytes; a connection has the list of what was written to it.  Pointers between objects of a
  connection are the numbers of its messages, and an object that is deleted later by the dispatcher is in a list of
  deferred objects.  Logging is left out.

  \<^bold>\<open>Theories.\<close>

  \<^item> \<^verbatim>\<open>Prelude\<close>: bytes, buffers, big-endian numbers, results; the lemmas all theories share.
    \<^verbatim>\<open>Std_Map\<close>: \<^verbatim>\<open>std::map\<close> as a sorted list, with its laws as the locale
    \<^verbatim>\<open>ordered_map\<close>.
  \<^item> \<^verbatim>\<open>Metadata\<close>: the properties of a message (\<^verbatim>\<open>codec/codec.h\<close>, \<^verbatim>\<open>codec_impl.cc\<close>).
  \<^item> \<^verbatim>\<open>Decoder\<close>: the decoder and the dispatch loop of \<^verbatim>\<open>ConnectionManager::dispatch\<close> over an arbitrary
    codec.  What the loop needs of a codec is a hierarchy of locales: \<^verbatim>\<open>codec_state\<close>,
    \<^verbatim>\<open>framing\<close> (cutting the bytes into reads does not matter), \<^verbatim>\<open>consuming\<close> (every message
    makes progress, so the loop ends) and \<^verbatim>\<open>conserving\<close> (no byte is lost or repeated).  They are interpreted on the
    codecs that satisfy them; the theories of the codecs prove where one does not.
  \<^item> \<^verbatim>\<open>Brpc\<close>, \<^verbatim>\<open>Trpc\<close>, \<^verbatim>\<open>Dubbo_Protocol\<close>, \<^verbatim>\<open>Dubbo_Codec\<close>,
    \<^verbatim>\<open>Dubbo_Messages\<close>: these codecs, their headers, state machines, mutations and error replies.
  \<^item> \<^verbatim>\<open>Thrift_Interface\<close>, \<^verbatim>\<open>Thrift_Machine\<close>, \<^verbatim>\<open>Thrift\<close>: the vocabulary of Thrift, the
    state machine and the codec of \<^verbatim>\<open>application_protocols/thrift\<close>.  \<^verbatim>\<open>Thrift_Wire\<close> is the
    specification: trees of messages and the operations that write them.  \<^verbatim>\<open>Thrift_Binary\<close> is an instance of
    its parameters, the framed transport with the binary protocol, and holds the properties.
  \<^item> \<^verbatim>\<open>Route\<close>, \<^verbatim>\<open>Rds\<close>: route tables (\<^verbatim>\<open>route/route_matcher_impl.cc\<close>) and route
    discovery (\<^verbatim>\<open>route/rds_impl.cc\<close>, \<^verbatim>\<open>route/route_config_update_receiver_impl.cc\<close>).
  \<^item> \<^verbatim>\<open>Upstream\<close>: clusters, pools and upstream connections as the router sees them, and
    \<^verbatim>\<open>filters/router/upstream_request.cc\<close>.  \<^verbatim>\<open>Upstream_Handler\<close>: shared upstream connections.
    \<^verbatim>\<open>Shadow_Writer\<close>: mirrored requests.
  \<^item> \<^verbatim>\<open>Connection\<close>, \<^verbatim>\<open>Active_Message\<close>, \<^verbatim>\<open>Conn_Manager\<close>: the state of a connection, its
    messages and streams, and the connection manager.  \<^verbatim>\<open>reachable\<close> is the step relation of its events;
    the locales \<^verbatim>\<open>conn_invariant\<close> and \<^verbatim>\<open>conn_invariant_streams\<close> turn a property that the
    primitive changes of a connection keep into an invariant of all of them.
  \<^item> \<^verbatim>\<open>Tracing\<close>: request ids, sampling and spans.  \<^verbatim>\<open>Router\<close>: the router with its request,
    and the step relation \<^verbatim>\<open>proxy_reachable\<close> of the whole proxy, events of pools and upstream connections
    included; the locale \<^verbatim>\<open>request_owner\<close> is what an upstream request needs of the router, of a shadow router
    or of a message that holds it.
  \<^item> \<^verbatim>\<open>Proxy\<close>: the properties of whole requests.
  \<^item> \<^verbatim>\<open>Base64\<close> (\<^verbatim>\<open>filters/common/base64.h\<close>), \<^verbatim>\<open>Peer_Metadata\<close>,
    \<^verbatim>\<open>Local_Ratelimit\<close>, \<^verbatim>\<open>Global_Ratelimit\<close>: the other filters.  \<^verbatim>\<open>Filters\<close> puts them
    into the chain of the proxy.

  \<^bold>\<open>What is shown.\<close>

  \<^item> For every reachable state of the proxy: the gauge of active requests counts the messages that exist, every message
    has the chain of its configuration, a connection that is closing is not written to (C1, C6, C7).
  \<^item> For single requests, from any state: responses reach the client once (C2), requests reach the upstream once
    (C3), a refused request is answered once with the error that says why (C4, C5); where the code sends two replies,
    this is proved as well (C25).  Errors of the codec and closing reset every message (C10, C11).
  \<^item> For the codecs: whole messages are decoded with their fields (C13, C20, C23, C29, C35); decoding does not depend on
    how the bytes were cut (C14, C17); the dispatch loop ends and keeps every byte (C15, C16, C18); mutations and error
    replies are well-formed messages of the protocol (C12, C19, C21, C22, C26); and inputs on which the codecs crash,
    do not end or answer nothing (C27, C31, C32, C33, C36, C37).
  \<^item> For routes: the first match wins (C8), route discovery serves the last acceptable configuration (C9), and one
    default that its translation loses (C34).
  \<^item> For the rest: the sampling decision travels with the request (C24); the token buckets are linearizable and never
    grant more than they hold (C28); Base64 is that of RFC 4648 (C39, C40); round trips and the descriptors of Java
    (C30, C38).  Lemmas of \<^verbatim>\<open>Filters\<close> show that a request over the limit is answered once and goes no
    further, and that a node travels from one proxy to the statistics of the next.

  \<^bold>\<open>Loops.\<close>  The dispatch loop, the loop that writes stream data and the state machine of Thrift may run forever on some
  codec, so they are partial functions into options, and None is not returning.  Termination is a property where it
  holds (C15, C16), and so is divergence (C27, C37).  All other loops are total functions; no fuel is used.

  \<^bold>\<open>Parameters.\<close>  Code that is not in the repository is an argument of the definitions: the generated protobuf classes
  (\<^verbatim>\<open>trpc_pb\<close>, the parser of bRPC), the Hessian library (\<^verbatim>\<open>hessian\<close>), the protocols and transports of
  Thrift (\<^verbatim>\<open>thrift_protocol\<close>, \<^verbatim>\<open>thrift_transport\<close>), matchers of headers, hashes, random numbers and
  clocks, clusters and pools of Envoy (\<^verbatim>\<open>net\<close>), the drivers of tracing, the rate limit service and the nodes of
  the Istio proxy.  Hypotheses about them state round trips of the libraries or the result of a lookup; the witness of
  each property instantiates them.  What the language leaves undefined, such as the use of a null pointer (C31), is the
  value \<^verbatim>\<open>Undefined\<close>.  So is reading outside a buffer, which the interface of Envoy's buffers does not
  allow; no property says what happens then.

  \<^bold>\<open>Not modelled.\<close>  Registration of codecs and filters with Envoy, validation of protobuf messages, the access log
  formatter, histograms of request times, flow control of connections, and the moment a shared upstream connection
  that nobody refers to is destroyed.  Worker threads share only the token buckets, the tracers and the route tables;
  their interleaving is modelled for the token buckets.  The wire format of \<^verbatim>\<open>Thrift_Wire\<close> covers protocols without
  state between values, such as the binary protocol, not the compact protocol.
\<close>

end
